(* ===== verification/Prelude.thy ===== *)
theory Prelude
  imports Main "HOL-Library.Multiset" "HOL-Library.Sublist"
begin

text \<open>
  What every component of the development shares: the collections of simplification and
  introduction rules the proofs draw on, Go's 64-bit \<open>int\<close> with its wrap-around, the shape
  of an effectful Go call, and generic facts about lists and maps.
\<close>

section \<open>Collections\<close>

named_theorems go_string_simps \<open>evaluation of the Go string library\<close>
named_theorems fate_simps \<open>what a call to a service does under each fate\<close>
named_theorems frame \<open>what an operation leaves alone\<close>

section \<open>Effectful calls\<close>

text \<open>
  A Go call that can touch the outside (Postgres, Redis, the clock, the random source) is a
  function from the world to its results and the new world. Go's \<open>(T, error)\<close> pair, of which
  the code reads one component only, is a sum; a bare \<open>error\<close> is an \<^typ>\<open>'e option\<close>.
\<close>

type_synonym ('w, 'a) io = "'w \<Rightarrow> 'a \<times> 'w"

section \<open>Go's 64-bit int\<close>

definition in_int64 :: "int \<Rightarrow> bool" where
  "in_int64 x \<longleftrightarrow> x \<in> {- (2 ^ 63) ..< 2 ^ 63}"

text \<open>The result of an operation that overflows is the value of its low 64 bits.\<close>

definition wrap64 :: "int \<Rightarrow> int" where
  "wrap64 x = (let low = x mod 2 ^ 64 in if low < 2 ^ 63 then low else low - 2 ^ 64)"

lemma wrap64_in_range [simp]: "in_int64 (wrap64 x)"
proof -
  have "0 \<le> x mod 2 ^ 64" "x mod 2 ^ 64 < 2 ^ 64" by simp_all
  then show ?thesis by (auto simp: in_int64_def wrap64_def Let_def)
qed

lemma wrap64_small: "0 \<le> x \<Longrightarrow> x < 2 ^ 63 \<Longrightarrow> wrap64 x = x"
  by (simp add: wrap64_def)

lemma wrap64_id:
  assumes "in_int64 x"
  shows "wrap64 x = x"
proof (cases "0 \<le> x")
  case True
  with assms show ?thesis by (intro wrap64_small) (auto simp: in_int64_def)
next
  case False
  with assms have "(x + 2 ^ 64) mod 2 ^ 64 = x + 2 ^ 64"
    by (intro mod_pos_pos_trivial) (auto simp: in_int64_def)
  then have "x mod 2 ^ 64 = x + 2 ^ 64" by simp
  with False assms show ?thesis by (auto simp: wrap64_def in_int64_def)
qed

text \<open>Go's integer division drops the fraction: the sign comes from the operands alone.\<close>

definition trunc_div :: "int \<Rightarrow> int \<Rightarrow> int" where
  "trunc_div a b = (let q = \<bar>a\<bar> div \<bar>b\<bar> in if (a < 0) = (b < 0) then q else - q)"

lemma trunc_div_nonneg: "0 \<le> a \<Longrightarrow> 0 < b \<Longrightarrow> trunc_div a b = a div b"
  by (simp add: trunc_div_def)

section \<open>Lists\<close>

lemma set_take_subset_mset: "mset (take n xs) \<subseteq># mset xs"
  by (metis append_take_drop_id mset_append mset_subset_eq_add_left)

lemma set_drop_subset_mset: "mset (drop n xs) \<subseteq># mset xs"
  by (metis append_take_drop_id mset_append mset_subset_eq_add_right)

lemma filter_map_id_on:
  "(\<And>x. x \<in> set xs \<Longrightarrow> f x = x) \<Longrightarrow> map f xs = xs"
  by (induction xs) auto

lemma distinct_filter_single:
  assumes "distinct (map f xs)" and "x \<in> set xs"
  shows "filter (\<lambda>y. f y = f x) xs = [x]"
  using assms
proof (induction xs)
  case (Cons a xs)
  show ?case
  proof (cases "x = a")
    case True
    with Cons.prems have "filter (\<lambda>y. f y = f x) xs = []"
      by (auto simp: filter_empty_conv) (metis image_eqI)
    with True show ?thesis by simp
  next
    case False
    with Cons.prems have "x \<in> set xs" by simp
    moreover from this Cons.prems(1) have "f a \<noteq> f x" by (auto simp: image_iff)
    ultimately show ?thesis using Cons by simp
  qed
qed simp

end
