(* ===== verification/Go_Strings.thy ===== *)
theory Go_Strings
  imports Prelude "HOL-Library.Char_ord" "HOL-Library.List_Lexorder"
begin

text \<open>
  The parts of Go's \<open>strings\<close> and \<open>strconv\<close> packages the program calls. A Go string is its
  sequence of bytes, so \<^typ>\<open>string\<close> (a list of 8-bit characters) is the type of the
  code's strings and \<^const>\<open>length\<close> is Go's \<open>len\<close>.
\<close>

section \<open>TrimSpace\<close>

text \<open>The UTF-8 encodings of the code points for which \<open>unicode.IsSpace\<close> holds.\<close>

definition space_runes :: "string list" where
  "space_runes =
     [[CHR 0x09], [CHR 0x0A], [CHR 0x0B], [CHR 0x0C], [CHR 0x0D], [CHR 0x20],
      [CHR 0xC2, CHR 0x85], [CHR 0xC2, CHR 0xA0], [CHR 0xE1, CHR 0x9A, CHR 0x80],
      [CHR 0xE2, CHR 0x80, CHR 0x80], [CHR 0xE2, CHR 0x80, CHR 0x81],
      [CHR 0xE2, CHR 0x80, CHR 0x82], [CHR 0xE2, CHR 0x80, CHR 0x83],
      [CHR 0xE2, CHR 0x80, CHR 0x84], [CHR 0xE2, CHR 0x80, CHR 0x85],
      [CHR 0xE2, CHR 0x80, CHR 0x86], [CHR 0xE2, CHR 0x80, CHR 0x87],
      [CHR 0xE2, CHR 0x80, CHR 0x88], [CHR 0xE2, CHR 0x80, CHR 0x89],
      [CHR 0xE2, CHR 0x80, CHR 0x8A], [CHR 0xE2, CHR 0x80, CHR 0xA8],
      [CHR 0xE2, CHR 0x80, CHR 0xA9], [CHR 0xE2, CHR 0x80, CHR 0xAF],
      [CHR 0xE2, CHR 0x81, CHR 0x9F], [CHR 0xE3, CHR 0x80, CHR 0x80]]"

definition has_prefix :: "string \<Rightarrow> string \<Rightarrow> bool" where
  "has_prefix p s \<longleftrightarrow> take (length p) s = p"

text \<open>Strip, again and again, a leading byte sequence of \<open>ps\<close>.\<close>

function strip_left :: "string list \<Rightarrow> string \<Rightarrow> string" where
  "strip_left ps s =
     (case find (\<lambda>p. p \<noteq> [] \<and> has_prefix p s) ps of
        None \<Rightarrow> s
      | Some p \<Rightarrow> strip_left ps (drop (length p) s))"
  by pat_completeness auto

termination
proof (relation "measure (\<lambda>(ps, s). length s)")
  fix ps s p
  assume "find (\<lambda>p. p \<noteq> [] \<and> has_prefix p s) ps = Some p"
  then have "p \<noteq> []" and "take (length p) s = p"
    by (auto simp: find_Some_iff has_prefix_def)
  then have "s \<noteq> []" by auto
  with \<open>p \<noteq> []\<close> show "((ps, drop (length p) s), ps, s) \<in> measure (\<lambda>(ps, s). length s)"
    by simp
qed simp

declare strip_left.simps [simp del]

definition TrimSpace :: "string \<Rightarrow> string" where
  "TrimSpace s = rev (strip_left (map rev space_runes) (rev (strip_left space_runes s)))"

abbreviation blank :: "string \<Rightarrow> bool" where
  "blank s \<equiv> TrimSpace s = []"

lemma strip_left_stuck:
  "(\<forall>p \<in> set ps. p \<noteq> [] \<longrightarrow> \<not> has_prefix p s) \<Longrightarrow> strip_left ps s = s"
  by (subst strip_left.simps) (auto split: option.splits simp: find_Some_iff)

lemma strip_left_result:
  "p \<in> set ps \<Longrightarrow> p \<noteq> [] \<Longrightarrow> \<not> has_prefix p (strip_left ps s)"
proof (induction ps s rule: strip_left.induct)
  case (1 ps s)
  show ?case
  proof (cases "find (\<lambda>p. p \<noteq> [] \<and> has_prefix p s) ps")
    case None
    then have "strip_left ps s = s" by (subst strip_left.simps) simp
    with None "1.prems" show ?thesis by (auto simp: find_None_iff)
  next
    case (Some q)
    then have "strip_left ps s = strip_left ps (drop (length q) s)"
      by (subst strip_left.simps) simp
    with Some 1 show ?thesis by simp
  qed
qed

lemma strip_left_suffix: "suffix (strip_left ps s) s"
proof (induction ps s rule: strip_left.induct)
  case (1 ps s)
  show ?case
  proof (cases "find (\<lambda>p. p \<noteq> [] \<and> has_prefix p s) ps")
    case None
    then show ?thesis by (subst strip_left.simps) simp
  next
    case (Some q)
    with 1 have "suffix (strip_left ps (drop (length q) s)) (drop (length q) s)" by simp
    with Some show ?thesis
      by (subst strip_left.simps) (auto intro: suffix_order.trans suffix_drop)
  qed
qed

lemma strip_left_nil [simp]: "strip_left ps [] = []"
  using strip_left_suffix[of ps "[]"] by simp

lemma TrimSpace_nil [simp]: "TrimSpace [] = []"
  by (simp add: TrimSpace_def)

lemma space_runes_nonempty: "p \<in> set space_runes \<Longrightarrow> p \<noteq> []"
  by (auto simp: space_runes_def)

lemma TrimSpace_no_prefix: "p \<in> set space_runes \<Longrightarrow> \<not> has_prefix p (TrimSpace s)"
proof
  assume p: "p \<in> set space_runes" and hp: "has_prefix p (TrimSpace s)"
  let ?l = "strip_left space_runes s"
  have "suffix (strip_left (map rev space_runes) (rev ?l)) (rev ?l)"
    by (rule strip_left_suffix)
  then have "prefix (TrimSpace s) ?l"
    by (simp add: TrimSpace_def suffix_to_prefix)
  with hp have "has_prefix p ?l"
    unfolding has_prefix_def by (metis prefix_order.trans take_is_prefix append_eq_conv_conj prefix_def)
  with p show False
    using strip_left_result[OF p space_runes_nonempty] by blast
qed

lemma TrimSpace_no_suffix: "p \<in> set space_runes \<Longrightarrow> \<not> has_prefix (rev p) (rev (TrimSpace s))"
  unfolding TrimSpace_def
  by (simp add: strip_left_result space_runes_nonempty)

lemma TrimSpace_fixed:
  assumes "\<And>p. p \<in> set space_runes \<Longrightarrow> \<not> has_prefix p s"
    and "\<And>p. p \<in> set space_runes \<Longrightarrow> \<not> has_prefix (rev p) (rev s)"
  shows "TrimSpace s = s"
  using assms by (simp add: TrimSpace_def strip_left_stuck)

lemma TrimSpace_idem [simp]: "TrimSpace (TrimSpace s) = TrimSpace s"
  by (rule TrimSpace_fixed) (auto simp: TrimSpace_no_prefix TrimSpace_no_suffix)

text \<open>A string of printable, non-blank ASCII bytes is its own trim.\<close>

definition graphic :: "char \<Rightarrow> bool" where
  "graphic c \<longleftrightarrow> 0x20 < (of_char c :: nat) \<and> (of_char c :: nat) < 0x7F"

lemma space_rune_hd: "p \<in> set space_runes \<Longrightarrow> \<not> graphic (hd p) \<and> \<not> graphic (hd (rev p))"
  unfolding space_runes_def by (auto simp: graphic_def)

lemma has_prefix_hd: "has_prefix p s \<Longrightarrow> p \<noteq> [] \<Longrightarrow> s \<noteq> [] \<and> hd s = hd p"
  by (cases p; cases s) (auto simp: has_prefix_def)

lemma TrimSpace_graphic: "list_all graphic s \<Longrightarrow> TrimSpace s = s"
proof (rule TrimSpace_fixed)
  fix p assume g: "list_all graphic s" and p: "p \<in> set space_runes"
  show "\<not> has_prefix p s"
  proof
    assume "has_prefix p s"
    then have "s \<noteq> []" "hd s = hd p" using has_prefix_hd space_runes_nonempty[OF p] by auto
    with g space_rune_hd[OF p] show False by (cases s) auto
  qed
  show "\<not> has_prefix (rev p) (rev s)"
  proof
    assume "has_prefix (rev p) (rev s)"
    then have h: "rev s \<noteq> []" "hd (rev s) = hd (rev p)"
      using has_prefix_hd[of "rev p"] space_runes_nonempty[OF p] by auto
    then have "hd (rev s) \<in> set s" by (metis hd_in_set set_rev)
    with g h space_rune_hd[OF p] show False by (auto simp: list_all_iff)
  qed
qed

section \<open>Split, Contains, HasPrefix\<close>

text \<open>\<open>strings.Split\<close> and \<open>strings.SplitN(s, sep, 2)\<close> with a one-byte separator.\<close>

fun split_on :: "char \<Rightarrow> string \<Rightarrow> string list" where
  "split_on c [] = [[]]"
| "split_on c (x # xs) =
     (if x = c then [] # split_on c xs
      else (case split_on c xs of [] \<Rightarrow> [[x]] | p # ps \<Rightarrow> (x # p) # ps))"

definition splitn2 :: "char \<Rightarrow> string \<Rightarrow> string list" where
  "splitn2 c s =
     (if c \<in> set s then [takeWhile (\<lambda>x. x \<noteq> c) s, tl (dropWhile (\<lambda>x. x \<noteq> c) s)] else [s])"

fun contains_sub :: "string \<Rightarrow> string \<Rightarrow> bool" where
  "contains_sub p [] = (p = [])"
| "contains_sub p (x # xs) = (has_prefix p (x # xs) \<or> contains_sub p xs)"

lemma split_on_nonempty [simp]: "split_on c s \<noteq> []"
  by (induction s) (auto split: list.splits)

lemma split_on_none: "c \<notin> set s \<Longrightarrow> split_on c s = [s]"
  by (induction s) auto

lemma split_on_append: "c \<notin> set a \<Longrightarrow> split_on c (a @ c # b) = a # split_on c b"
  by (induction a) auto

lemma has_prefix_append [simp]: "has_prefix p (p @ s)"
  by (simp add: has_prefix_def)

lemma contains_sub_append: "contains_sub p (a @ p @ b)"
proof (induction a)
  case Nil
  show ?case
    by (cases "p @ b") (auto simp: has_prefix_def, metis append_eq_conv_conj)
next
  case (Cons x a)
  then show ?case by simp
qed

section \<open>Letter case\<close>

definition ascii_lower :: "char \<Rightarrow> char" where
  "ascii_lower c = (if 65 \<le> (of_char c :: nat) \<and> (of_char c :: nat) \<le> 90
                    then char_of ((of_char c :: nat) + 32) else c)"

definition is_ascii :: "string \<Rightarrow> bool" where
  "is_ascii s \<longleftrightarrow> list_all (\<lambda>c. (of_char c :: nat) < 128) s"

text \<open>
  \<open>strings.ToLower\<close>: exact on ASCII; on other strings Go consults its Unicode tables, which
  are the argument \<open>uni\<close>.
\<close>

definition ToLower :: "(string \<Rightarrow> string) \<Rightarrow> string \<Rightarrow> string" where
  "ToLower uni s = (if is_ascii s then map ascii_lower s else uni s)"

text \<open>
  \<open>strings.EqualFold(s, "Bearer")\<close>: the letters of the constant have no non-ASCII code point
  that folds to them, so folding ASCII letters decides it for every \<open>s\<close>.
\<close>

definition equal_fold_ascii :: "string \<Rightarrow> string \<Rightarrow> bool" where
  "equal_fold_ascii s t \<longleftrightarrow> map ascii_lower s = map ascii_lower t"

lemma ascii_lower_idem [simp]: "ascii_lower (ascii_lower c) = ascii_lower c"
  by (auto simp: ascii_lower_def)

lemma ascii_lower_ascii: "(of_char c :: nat) < 128 \<Longrightarrow> (of_char (ascii_lower c) :: nat) < 128"
  by (auto simp: ascii_lower_def)

section \<open>Atoi\<close>

definition digit_val :: "char \<Rightarrow> int option" where
  "digit_val c = (if 48 \<le> (of_char c :: nat) \<and> (of_char c :: nat) \<le> 57
                  then Some (int (of_char c) - 48) else None)"

fun digits_val :: "int \<Rightarrow> string \<Rightarrow> int option" where
  "digits_val acc [] = Some acc"
| "digits_val acc (c # cs) =
     (case digit_val c of None \<Rightarrow> None | Some d \<Rightarrow> digits_val (10 * acc + d) cs)"

text \<open>\<open>strconv.Atoi\<close>: an optional sign, at least one digit, the value within 64 bits.\<close>

definition Atoi :: "string \<Rightarrow> int option" where
  "Atoi s =
     (let (neg, ds) = (case s of [] \<Rightarrow> (False, [])
                       | c # cs \<Rightarrow> if c = CHR ''-'' then (True, cs)
                                   else if c = CHR ''+'' then (False, cs) else (False, s))
      in if ds = [] then None
         else case digits_val 0 ds of
                None \<Rightarrow> None
              | Some v \<Rightarrow> let n = (if neg then - v else v)
                          in if in_int64 n then Some n else None)"

lemma Atoi_in_range: "Atoi s = Some n \<Longrightarrow> in_int64 n"
  by (auto simp: Atoi_def Let_def split: option.splits if_splits prod.splits)

end
