(* ===== verification/Models.thy ===== *)
theory Models
  imports Go_Strings
begin

text \<open>
  The domain entities (\<open>internal/domain/models\<close>) and every error value the program creates,
  compares or receives. The string-typed enumerations of the code (\<open>MessageStatus\<close>,
  \<open>RoomRole\<close>, \<open>UserStatus\<close>) stay strings: the code converts request text into them
  unchecked. Times are nanoseconds since Go's zero time, which is 0.
\<close>

section \<open>Entities\<close>

type_synonym time = int

definition IsZero :: "time \<Rightarrow> bool" where
  "IsZero t \<longleftrightarrow> t = 0"

type_synonym user_status = string

definition UserStatusOnline :: user_status where "UserStatusOnline = ''online''"
definition UserStatusOffline :: user_status where "UserStatusOffline = ''offline''"

record user =
  usr_ID :: string
  usr_Username :: string
  usr_Email :: string
  usr_PasswordHash :: string
  usr_Status :: user_status
  usr_LastSeenAt :: time
  usr_CreatedAt :: time

type_synonym room_role = string

definition RoomRoleAdmin :: room_role where "RoomRoleAdmin = ''admin''"
definition RoomRoleMember :: room_role where "RoomRoleMember = ''member''"

record room =
  rm_ID :: string
  rm_Name :: string
  rm_IsGroup :: bool
  rm_CreatedBy :: string
  rm_CreatedAt :: time

record room_member =
  mem_ID :: string
  mem_RoomID :: string
  mem_UserID :: string
  mem_Role :: room_role

type_synonym message_status = string

definition MessageStatusSent :: message_status where "MessageStatusSent = ''SENT''"
definition MessageStatusDelivered :: message_status where "MessageStatusDelivered = ''DELIVERED''"
definition MessageStatusRead :: message_status where "MessageStatusRead = ''READ''"

record attachment =
  att_ID :: string
  att_MessageID :: string
  att_URL :: string
  att_MimeType :: string
  att_SizeBytes :: int

record message =
  msg_ID :: string
  msg_RoomID :: string
  msg_SenderID :: string
  msg_Content :: string
  msg_Attachments :: "attachment list"
  msg_Status :: message_status
  msg_CreatedAt :: time
  msg_UpdatedAt :: time

record message_receipt =
  rcp_ID :: string
  rcp_MessageID :: string
  rcp_UserID :: string
  rcp_Status :: message_status
  rcp_SeenAt :: "time option"

section \<open>Errors\<close>

text \<open>The sentinel errors, one datatype per package that declares them.\<close>

datatype auth_error =
    ErrEmailAlreadyUsed | ErrInvalidCredentials | ErrInvalidRefreshToken
  | ErrInvalidAccessToken | ErrMissingUsername | ErrMissingEmail | ErrMissingPassword

datatype message_error =
    ErrInvalidRoomID | ErrInvalidSenderID | ErrInvalidContent | ErrInvalidMessageID
  | ErrInvalidUserID | ErrInvalidSearch | ErrMessageNotFound | ErrEditNotAllowed
  | ErrDeleteNotAllowed

datatype room_error =
    ErrInvalidRoomName | ErrInvalidCreatorID | ErrInvalidMemberUser | ErrRoomInvalidUserID
  | ErrDirectMessageSelf | ErrRoomNotFound | ErrRoomDeleteNotAllowed

datatype user_error = ErrUserNotFound

text \<open>
  An error value: a sentinel, the two sentinels of the drivers (\<open>pgx.ErrNoRows\<close> and
  \<open>redis.Nil\<close>), a Postgres error with its code and constraint name, a one-off
  \<open>errors.New\<close> or \<open>fmt.Errorf\<close> of this code, any other error of a library or a service,
  and a run-time panic, which no caller intercepts before the framework's recovery.
\<close>

datatype err =
    AuthErr auth_error
  | MsgErr message_error
  | RoomErr room_error
  | UserErr user_error
  | ErrNoRows
  | RedisNil
  | PgError string string
  | NewErr string
  | ExtErr string
  | GoPanic string

abbreviation ErrCacheMiss :: err where "ErrCacheMiss \<equiv> RedisNil"

text \<open>The text of \<open>Error()\<close>, for the sentinels and the one-off errors of this code.\<close>

fun auth_error_text :: "auth_error \<Rightarrow> string" where
  "auth_error_text ErrEmailAlreadyUsed = ''auth: email already in use''"
| "auth_error_text ErrInvalidCredentials = ''auth: invalid email or password''"
| "auth_error_text ErrInvalidRefreshToken = ''auth: invalid refresh token''"
| "auth_error_text ErrInvalidAccessToken = ''auth: invalid access token''"
| "auth_error_text ErrMissingUsername = ''auth: username is required''"
| "auth_error_text ErrMissingEmail = ''auth: email is required''"
| "auth_error_text ErrMissingPassword = ''auth: password is required''"

fun message_error_text :: "message_error \<Rightarrow> string" where
  "message_error_text ErrInvalidRoomID = ''messages: room id is required''"
| "message_error_text ErrInvalidSenderID = ''messages: sender id is required''"
| "message_error_text ErrInvalidContent = ''messages: content or attachments are required''"
| "message_error_text ErrInvalidMessageID = ''messages: message id is required''"
| "message_error_text ErrInvalidUserID = ''messages: user id is required''"
| "message_error_text ErrInvalidSearch = ''messages: search query is required''"
| "message_error_text ErrMessageNotFound = ''messages: message not found''"
| "message_error_text ErrEditNotAllowed = ''messages: message edit not allowed''"
| "message_error_text ErrDeleteNotAllowed = ''messages: message delete not allowed''"

fun room_error_text :: "room_error \<Rightarrow> string" where
  "room_error_text ErrInvalidRoomName = ''rooms: name is required''"
| "room_error_text ErrInvalidCreatorID = ''rooms: creator id is required''"
| "room_error_text ErrInvalidMemberUser = ''rooms: member user id is required''"
| "room_error_text ErrRoomInvalidUserID = ''rooms: user id is required''"
| "room_error_text ErrDirectMessageSelf = ''rooms: direct message requires two distinct users''"
| "room_error_text ErrRoomNotFound = ''rooms: room not found''"
| "room_error_text ErrRoomDeleteNotAllowed = ''rooms: only the creator can delete this room''"

fun user_error_text :: "user_error \<Rightarrow> string" where
  "user_error_text ErrUserNotFound = ''users: not found''"

text \<open>
  For the errors of libraries and services the text begins with something other than this
  code's package prefixes; their constructors carry it.
\<close>

fun Error :: "err \<Rightarrow> string" where
  "Error (AuthErr e) = auth_error_text e"
| "Error (MsgErr e) = message_error_text e"
| "Error (RoomErr e) = room_error_text e"
| "Error (UserErr e) = user_error_text e"
| "Error ErrNoRows = ''no rows in result set''"
| "Error RedisNil = ''redis: nil''"
| "Error (PgError code con) = ''ERROR: '' @ con @ '' (SQLSTATE '' @ code @ '')''"
| "Error (NewErr t) = t"
| "Error (ExtErr t) = t"
| "Error (GoPanic t) = t"

end
