(* ===== verification/World.thy ===== *)
theory World
  imports Models
begin

text \<open>
  The world the program runs in, and the standard-library and library facilities it uses that
  are not functions of their arguments: the clock, the random source, password hashing, UUID
  generation, and the fate of every request sent to Redis or Postgres.

  Everything the program cannot know in advance is a function of the number of external calls
  made so far (\<open>w_tick\<close>), given by an \<open>env\<close>. A theorem about every \<open>env\<close> is therefore a
  theorem about every clock, every random source and every pattern of network failures.
\<close>

section \<open>The fate of a request\<close>

text \<open>
  A request to a service is carried out and answered, or it fails before the service acts, or
  the service acts and the answer is lost. In the last two cases the caller sees an error.
\<close>

datatype fate = Done | LostRequest err | LostReply err

datatype redis_op = GET | SET | DEL | PUBLISH

text \<open>
  The parameters. The clock advances by \<open>elapse n\<close> at the \<open>n\<close>th call and never goes back.
  \<open>canon_uuid\<close> is how the \<open>uuid\<close> column type reads a text (\<open>None\<close>: not a UUID);
  \<open>row_rank n\<close> ranks the ids of rows: the order, unknown to the program, in which the database
  produces the rows of a result at the \<open>n\<close>th call where the query does not order them;
  \<open>map_rank\<close> does the same for the iteration over a Go map with string keys;
  \<open>fmt_time\<close> and \<open>parse_time\<close> are the RFC 3339 texts of the \<open>time\<close> package;
  \<open>unicode_lower\<close> is \<open>strings.ToLower\<close> on strings that are not ASCII; \<open>ilike\<close> is the
  case-insensitive pattern match of Postgres for the pattern \<open>%q%\<close>.
\<close>

record env =
  elapse :: "nat \<Rightarrow> nat"
  redis_fate :: "redis_op \<Rightarrow> nat \<Rightarrow> fate"
  pg_fate :: "nat \<Rightarrow> fate"
  uuid_at :: "nat \<Rightarrow> string"
  rand_at :: "nat \<Rightarrow> err + string"
  bcrypt_gen :: "nat \<Rightarrow> string \<Rightarrow> err + string"
  bcrypt_cmp :: "string \<Rightarrow> string \<Rightarrow> err option"
  canon_uuid :: "string \<Rightarrow> string option"
  row_rank :: "nat \<Rightarrow> string \<Rightarrow> nat"
  map_rank :: "nat \<Rightarrow> string \<Rightarrow> nat"
  ilike :: "string \<Rightarrow> string \<Rightarrow> bool"
  unicode_lower :: "string \<Rightarrow> string"
  fmt_time :: "time \<Rightarrow> string"
  parse_time :: "string \<Rightarrow> time option"

section \<open>JSON values\<close>

text \<open>
  What \<open>encoding/json\<close> reads and writes, as values: a payload on a channel is the JSON value
  whose text is sent. A number written as an integer is \<open>JInt\<close>; \<open>JFloat\<close> carries the text of
  any other number.
\<close>

datatype json =
    JNull
  | JBool bool
  | JInt int
  | JFloat string
  | JStr string
  | JArr "json list"
  | JObj "(string \<times> json) list"

section \<open>The state of the services\<close>

record database =
  db_users :: "user list"
  db_rooms :: "room list"
  db_members :: "room_member list"
  db_messages :: "message list"
  db_receipts :: "message_receipt list"

text \<open>
  Redis holds values with an optional deadline and has delivered the published payloads of
  \<open>w_log\<close>, oldest first.
\<close>

record world =
  w_tick :: nat
  w_wall :: time
  w_keys :: "string \<Rightarrow> (string \<times> time option) option"
  w_log :: "(string \<times> json) list"
  w_db :: database

definition pass :: "env \<Rightarrow> world \<Rightarrow> world" where
  "pass E w = w\<lparr>w_tick := Suc (w_tick w), w_wall := w_wall w + int (elapse E (w_tick w))\<rparr>"

lemma pass_simps [simp]:
  "w_keys (pass E w) = w_keys w" "w_log (pass E w) = w_log w" "w_db (pass E w) = w_db w"
  "w_tick (pass E w) = Suc (w_tick w)"
  by (simp_all add: pass_def)

lemma pass_wall [simp]: "w_wall w \<le> w_wall (pass E w)"
  by (simp add: pass_def)

section \<open>The run-time facilities\<close>

text \<open>
  The facilities as the code calls them: \<open>time.Now().UTC()\<close>, \<open>rand.Read\<close> into 32 bytes,
  \<open>bcrypt.GenerateFromPassword\<close> with the default cost, \<open>bcrypt.CompareHashAndPassword\<close> and
  \<open>strings.ToLower\<close>.
\<close>

record 'w runtime =
  rt_now :: "('w, time) io"
  rt_rand :: "('w, err + string) io"
  rt_bcrypt_gen :: "string \<Rightarrow> ('w, err + string) io"
  rt_bcrypt_cmp :: "string \<Rightarrow> string \<Rightarrow> err option"
  rt_unicode_lower :: "string \<Rightarrow> string"
  rt_map_rank :: "'w \<Rightarrow> string \<Rightarrow> nat"
  rt_fmt_time :: "time \<Rightarrow> string"
  rt_parse_time :: "string \<Rightarrow> time option"

definition go_runtime :: "env \<Rightarrow> world runtime" where
  "go_runtime E =
     \<lparr>rt_now = (\<lambda>w. let w' = pass E w in (w_wall w', w')),
      rt_rand = (\<lambda>w. (rand_at E (w_tick w), pass E w)),
      rt_bcrypt_gen = (\<lambda>p w. (bcrypt_gen E (w_tick w) p, pass E w)),
      rt_bcrypt_cmp = bcrypt_cmp E,
      rt_unicode_lower = unicode_lower E,
      rt_map_rank = (\<lambda>w. map_rank E (w_tick w)),
      rt_fmt_time = fmt_time E,
      rt_parse_time = parse_time E\<rparr>"

definition new_uuid :: "env \<Rightarrow> (world, string) io" where
  "new_uuid E w = (uuid_at E (w_tick w), pass E w)"

lemma runtime_keys [frame]:
  "w_keys (snd (rt_now (go_runtime E) w)) = w_keys w"
  "w_keys (snd (rt_rand (go_runtime E) w)) = w_keys w"
  "w_keys (snd (rt_bcrypt_gen (go_runtime E) p w)) = w_keys w"
  by (simp_all add: go_runtime_def Let_def)

lemma runtime_wall [frame]:
  "w_wall w \<le> w_wall (snd (rt_now (go_runtime E) w))"
  "w_wall w \<le> w_wall (snd (rt_rand (go_runtime E) w))"
  "w_wall w \<le> w_wall (snd (rt_bcrypt_gen (go_runtime E) p w))"
  by (simp_all add: go_runtime_def Let_def)

section \<open>A sample environment\<close>

text \<open>
  An environment in which every request is answered, one unit of time passes per call, ids and
  random bytes are made from the call number and a password's hash is the password behind a
  mark. Closed instances of the theorems are evaluated in it.
\<close>

definition sample_env :: env where
  "sample_env =
     \<lparr>elapse = (\<lambda>n. 1), redis_fate = (\<lambda>op n. Done), pg_fate = (\<lambda>n. Done),
      uuid_at = (\<lambda>n. ''id'' @ replicate n CHR ''x''),
      rand_at = (\<lambda>n. Inr (replicate 3 (char_of n))),
      bcrypt_gen = (\<lambda>n p. Inr (''h:'' @ p)),
      bcrypt_cmp = (\<lambda>h p. if h = ''h:'' @ p then None else Some (ExtErr ''mismatch'')),
      canon_uuid = (\<lambda>s. if s = [] then None else Some s),
      row_rank = (\<lambda>n i. 0), map_rank = (\<lambda>n i. 0),
      ilike = (\<lambda>t q. contains_sub q t), unicode_lower = (\<lambda>s. s),
      fmt_time = (\<lambda>t. replicate (nat t) CHR ''t''), parse_time = (\<lambda>s. Some (int (length s)))\<rparr>"

definition sample_user :: "string \<Rightarrow> user" where
  "sample_user n =
     \<lparr>usr_ID = ''u-'' @ n, usr_Username = n, usr_Email = n @ ''@x'',
      usr_PasswordHash = ''h:password1'', usr_Status = ''offline'',
      usr_LastSeenAt = 0, usr_CreatedAt = 0\<rparr>"

definition sample_world :: world where
  "sample_world =
     \<lparr>w_tick = 0, w_wall = 1000, w_keys = (\<lambda>_. None), w_log = [],
      w_db = \<lparr>db_users = [sample_user ''ann'', sample_user ''bob''], db_rooms = [],
              db_members = [], db_messages = [], db_receipts = []\<rparr>\<rparr>"

end
