(* ===== verification/Json.thy ===== *)
theory Json
  imports World
begin

text \<open>
  \<open>encoding/json\<close> as the program uses it: the values its entities and payloads are written as,
  and the decoding of a value into a struct. A key of the value belongs to the field of that
  name or, failing that, to the field whose name is equal under Unicode case folding; \<open>null\<close>
  leaves a field as it is; a value of the wrong type makes the whole decoding fail; unknown keys
  are skipped and the last of repeated keys wins.
\<close>

section \<open>Decoding into a struct\<close>

text \<open>
  Folding a key: ASCII letters to lower case, and the two code points outside ASCII whose
  folding class holds an ASCII letter, U+017F (s) and U+212A (k).
\<close>

fun fold_key :: "string \<Rightarrow> string" where
  "fold_key [] = []"
| "fold_key (c # cs) =
     (if c = CHR 0xC5 \<and> take 1 cs = [CHR 0xBF] then CHR ''s'' # fold_key (drop 1 cs)
      else if c = CHR 0xE2 \<and> take 2 cs = [CHR 0x84, CHR 0xAA] then CHR ''k'' # fold_key (drop 2 cs)
      else ascii_lower c # fold_key cs)"

text \<open>A field: its JSON name and how a value is stored in the struct, with success or failure.\<close>

type_synonym 'r field = "string \<times> (json \<Rightarrow> 'r \<Rightarrow> bool \<times> 'r)"

definition find_field :: "'r field list \<Rightarrow> string \<Rightarrow> 'r field option" where
  "find_field fs k =
     (case find (\<lambda>f. fst f = k) fs of
        Some f \<Rightarrow> Some f
      | None \<Rightarrow> find (\<lambda>f. fold_key (fst f) = fold_key k) fs)"

fun decode_members :: "'r field list \<Rightarrow> (string \<times> json) list \<Rightarrow> 'r \<Rightarrow> bool \<times> 'r" where
  "decode_members fs [] r = (True, r)"
| "decode_members fs ((k, v) # kvs) r =
     (case find_field fs k of
        None \<Rightarrow> decode_members fs kvs r
      | Some f \<Rightarrow>
          (case snd f v r of (ok, r1) \<Rightarrow>
           case decode_members fs kvs r1 of (ok', r2) \<Rightarrow> (ok \<and> ok', r2)))"

definition decode_struct :: "'r field list \<Rightarrow> json \<Rightarrow> 'r \<Rightarrow> bool \<times> 'r" where
  "decode_struct fs j r =
     (case j of JNull \<Rightarrow> (True, r) | JObj kvs \<Rightarrow> decode_members fs kvs r | _ \<Rightarrow> (False, r))"

definition unmarshal :: "'r field list \<Rightarrow> 'r \<Rightarrow> json \<Rightarrow> 'r option" where
  "unmarshal fs zero j = (case decode_struct fs j zero of (ok, r) \<Rightarrow> if ok then Some r else None)"

definition set_str :: "(string \<Rightarrow> 'r \<Rightarrow> 'r) \<Rightarrow> json \<Rightarrow> 'r \<Rightarrow> bool \<times> 'r" where
  "set_str upd j r = (case j of JNull \<Rightarrow> (True, r) | JStr s \<Rightarrow> (True, upd s r) | _ \<Rightarrow> (False, r))"

definition set_bool :: "(bool \<Rightarrow> 'r \<Rightarrow> 'r) \<Rightarrow> json \<Rightarrow> 'r \<Rightarrow> bool \<times> 'r" where
  "set_bool upd j r = (case j of JNull \<Rightarrow> (True, r) | JBool b \<Rightarrow> (True, upd b r) | _ \<Rightarrow> (False, r))"

definition set_int64 :: "(int \<Rightarrow> 'r \<Rightarrow> 'r) \<Rightarrow> json \<Rightarrow> 'r \<Rightarrow> bool \<times> 'r" where
  "set_int64 upd j r =
     (case j of JNull \<Rightarrow> (True, r)
      | JInt n \<Rightarrow> if in_int64 n then (True, upd n r) else (False, r)
      | _ \<Rightarrow> (False, r))"

definition set_time ::
  "(string \<Rightarrow> time option) \<Rightarrow> (time \<Rightarrow> 'r \<Rightarrow> 'r) \<Rightarrow> json \<Rightarrow> 'r \<Rightarrow> bool \<times> 'r" where
  "set_time parse upd j r =
     (case j of JNull \<Rightarrow> (True, r)
      | JStr s \<Rightarrow> (case parse s of None \<Rightarrow> (False, r) | Some t \<Rightarrow> (True, upd t r))
      | _ \<Rightarrow> (False, r))"

text \<open>A \<open>json.RawMessage\<close> keeps the value, \<open>null\<close> included.\<close>

definition set_raw :: "(json \<Rightarrow> 'r \<Rightarrow> 'r) \<Rightarrow> json \<Rightarrow> 'r \<Rightarrow> bool \<times> 'r" where
  "set_raw upd j r = (True, upd j r)"

definition set_list ::
  "'a field list \<Rightarrow> 'a \<Rightarrow> ('a list \<Rightarrow> 'r \<Rightarrow> 'r) \<Rightarrow> json \<Rightarrow> 'r \<Rightarrow> bool \<times> 'r" where
  "set_list fs zero upd j r =
     (case j of JNull \<Rightarrow> (True, upd [] r)
      | JArr js \<Rightarrow>
          (let rs = map (\<lambda>x. decode_struct fs x zero) js
           in (list_all fst rs, upd (map snd rs) r))
      | _ \<Rightarrow> (False, r))"

definition set_struct ::
  "'a field list \<Rightarrow> ('r \<Rightarrow> 'a) \<Rightarrow> ('a \<Rightarrow> 'r \<Rightarrow> 'r) \<Rightarrow> json \<Rightarrow> 'r \<Rightarrow> bool \<times> 'r" where
  "set_struct fs get upd j r = (case decode_struct fs j (get r) of (ok, a) \<Rightarrow> (ok, upd a r))"

lemmas json_set_simps = set_str_def set_bool_def set_int64_def set_time_def set_raw_def
  set_list_def set_struct_def

lemma decode_members_None [simp]:
  "find_field fs k = None \<Longrightarrow> decode_members fs ((k, v) # kvs) r = decode_members fs kvs r"
  by simp

section \<open>Entities\<close>

text \<open>
  The entities carry no field tags: they are written and read under their Go field names. A nil
  and an empty slice of attachments are one value here, written \<open>null\<close>; both are read back as
  no attachments.
\<close>

definition attachment_json :: "attachment \<Rightarrow> json" where
  "attachment_json a =
     JObj [(''ID'', JStr (att_ID a)), (''MessageID'', JStr (att_MessageID a)),
           (''URL'', JStr (att_URL a)), (''MimeType'', JStr (att_MimeType a)),
           (''SizeBytes'', JInt (att_SizeBytes a))]"

definition attachments_json :: "attachment list \<Rightarrow> json" where
  "attachments_json l = (if l = [] then JNull else JArr (map attachment_json l))"

definition message_json :: "(time \<Rightarrow> string) \<Rightarrow> message \<Rightarrow> json" where
  "message_json fmt m =
     JObj [(''ID'', JStr (msg_ID m)), (''RoomID'', JStr (msg_RoomID m)),
           (''SenderID'', JStr (msg_SenderID m)), (''Content'', JStr (msg_Content m)),
           (''Attachments'', attachments_json (msg_Attachments m)),
           (''Status'', JStr (msg_Status m)), (''CreatedAt'', JStr (fmt (msg_CreatedAt m))),
           (''UpdatedAt'', JStr (fmt (msg_UpdatedAt m)))]"

definition room_json :: "(time \<Rightarrow> string) \<Rightarrow> room \<Rightarrow> json" where
  "room_json fmt r =
     JObj [(''ID'', JStr (rm_ID r)), (''Name'', JStr (rm_Name r)),
           (''IsGroup'', JBool (rm_IsGroup r)), (''CreatedBy'', JStr (rm_CreatedBy r)),
           (''CreatedAt'', JStr (fmt (rm_CreatedAt r)))]"

definition zero_attachment :: attachment where
  "zero_attachment =
     \<lparr>att_ID = [], att_MessageID = [], att_URL = [], att_MimeType = [], att_SizeBytes = 0\<rparr>"

definition zero_message :: message where
  "zero_message =
     \<lparr>msg_ID = [], msg_RoomID = [], msg_SenderID = [], msg_Content = [], msg_Attachments = [],
      msg_Status = [], msg_CreatedAt = 0, msg_UpdatedAt = 0\<rparr>"

definition attachment_fields :: "attachment field list" where
  "attachment_fields =
     [(''ID'', set_str (\<lambda>s a. a\<lparr>att_ID := s\<rparr>)),
      (''MessageID'', set_str (\<lambda>s a. a\<lparr>att_MessageID := s\<rparr>)),
      (''URL'', set_str (\<lambda>s a. a\<lparr>att_URL := s\<rparr>)),
      (''MimeType'', set_str (\<lambda>s a. a\<lparr>att_MimeType := s\<rparr>)),
      (''SizeBytes'', set_int64 (\<lambda>n a. a\<lparr>att_SizeBytes := n\<rparr>))]"

definition message_fields :: "(string \<Rightarrow> time option) \<Rightarrow> message field list" where
  "message_fields parse =
     [(''ID'', set_str (\<lambda>s m. m\<lparr>msg_ID := s\<rparr>)),
      (''RoomID'', set_str (\<lambda>s m. m\<lparr>msg_RoomID := s\<rparr>)),
      (''SenderID'', set_str (\<lambda>s m. m\<lparr>msg_SenderID := s\<rparr>)),
      (''Content'', set_str (\<lambda>s m. m\<lparr>msg_Content := s\<rparr>)),
      (''Attachments'', set_list attachment_fields zero_attachment (\<lambda>l m. m\<lparr>msg_Attachments := l\<rparr>)),
      (''Status'', set_str (\<lambda>s m. m\<lparr>msg_Status := s\<rparr>)),
      (''CreatedAt'', set_time parse (\<lambda>t m. m\<lparr>msg_CreatedAt := t\<rparr>)),
      (''UpdatedAt'', set_time parse (\<lambda>t m. m\<lparr>msg_UpdatedAt := t\<rparr>))]"

section \<open>What every decoded struct has\<close>

lemma decode_members_keeps:
  assumes "\<And>f v r. f \<in> set fs \<Longrightarrow> P r \<Longrightarrow> P (snd (snd f v r))"
  shows "P r \<Longrightarrow> P (snd (decode_members fs kvs r))"
proof (induction kvs arbitrary: r)
  case (Cons kv kvs)
  obtain k v where kv: "kv = (k, v)" by fastforce
  show ?case
  proof (cases "find_field fs k")
    case (Some f)
    then have "f \<in> set fs" by (auto simp: find_field_def find_Some_iff split: option.splits)
    then have "P (snd (snd f v r))" using assms Cons.prems by blast
    with Some Cons.IH show ?thesis by (simp add: kv split: prod.splits) (metis snd_conv)
  qed (use Cons kv in simp)
qed simp

lemma decode_struct_keeps:
  assumes "\<And>f v r. f \<in> set fs \<Longrightarrow> P r \<Longrightarrow> P (snd (snd f v r))" and "P r"
  shows "P (snd (decode_struct fs j r))"
  using decode_members_keeps[of fs P r] assms by (auto simp: decode_struct_def split: json.splits)

lemma unmarshal_keeps:
  assumes "\<And>f v r. f \<in> set fs \<Longrightarrow> P r \<Longrightarrow> P (snd (snd f v r))" and "P zero"
    and "unmarshal fs zero j = Some r"
  shows "P r"
  using decode_struct_keeps[of fs P zero j] assms by (auto simp: unmarshal_def split: prod.splits if_splits)

lemma set_str_keeps: "P r \<Longrightarrow> (\<And>s. P (upd s r)) \<Longrightarrow> P (snd (set_str upd j r))"
  by (cases j) (simp_all add: set_str_def)

lemma set_int64_keeps: "P r \<Longrightarrow> (\<And>n. in_int64 n \<Longrightarrow> P (upd n r)) \<Longrightarrow> P (snd (set_int64 upd j r))"
  by (cases j) (simp_all add: set_int64_def)

lemma set_list_keeps:
  "P r \<Longrightarrow> (\<And>l. \<forall>x \<in> set l. \<exists>j. x = snd (decode_struct fs j zero) \<Longrightarrow> P (upd l r)) \<Longrightarrow> P (snd (set_list fs zero upd j r))"
proof (cases j)
  case (JArr js)
  assume "\<And>l. \<forall>x \<in> set l. \<exists>j. x = snd (decode_struct fs j zero) \<Longrightarrow> P (upd l r)"
  then have "P (upd (map snd (map (\<lambda>x. decode_struct fs x zero) js)) r)" by (rule meta_mp) auto
  with JArr show ?thesis by (simp add: set_list_def Let_def)
qed (simp_all add: set_list_def)

section \<open>Round trip\<close>

lemma find_field_attachment [simp]:
  "find_field attachment_fields ''ID'' = Some (''ID'', set_str (\<lambda>s a. a\<lparr>att_ID := s\<rparr>))"
  "find_field attachment_fields ''MessageID'' = Some (''MessageID'', set_str (\<lambda>s a. a\<lparr>att_MessageID := s\<rparr>))"
  "find_field attachment_fields ''URL'' = Some (''URL'', set_str (\<lambda>s a. a\<lparr>att_URL := s\<rparr>))"
  "find_field attachment_fields ''MimeType'' = Some (''MimeType'', set_str (\<lambda>s a. a\<lparr>att_MimeType := s\<rparr>))"
  "find_field attachment_fields ''SizeBytes'' = Some (''SizeBytes'', set_int64 (\<lambda>n a. a\<lparr>att_SizeBytes := n\<rparr>))"
  by (simp_all add: find_field_def attachment_fields_def)

lemma attachment_roundtrip:
  "in_int64 (att_SizeBytes a) \<Longrightarrow>
   decode_struct attachment_fields (attachment_json a) zero_attachment = (True, a)"
  by (simp add: decode_struct_def attachment_json_def zero_attachment_def json_set_simps)

lemma attachments_roundtrip:
  assumes "\<forall>a \<in> set l. in_int64 (att_SizeBytes a)"
  shows "set_list attachment_fields zero_attachment upd (attachments_json l) r = (True, upd l r)"
proof -
  have "map (\<lambda>x. snd (decode_struct attachment_fields (attachment_json x) zero_attachment)) l = l"
    using assms by (simp add: attachment_roundtrip map_idI)
  with assms show ?thesis
    by (simp add: set_list_def attachments_json_def Let_def list_all_iff comp_def attachment_roundtrip)
qed

lemma message_roundtrip:
  assumes "\<forall>a \<in> set (msg_Attachments m). in_int64 (att_SizeBytes a)"
    and "parse (fmt (msg_CreatedAt m)) = Some (msg_CreatedAt m)"
    and "parse (fmt (msg_UpdatedAt m)) = Some (msg_UpdatedAt m)"
  shows "unmarshal (message_fields parse) zero_message (message_json fmt m) = Some m"
proof -
  have "decode_struct (message_fields parse) (message_json fmt m) zero_message = (True, m)"
    by (simp add: decode_struct_def message_json_def message_fields_def find_field_def
        set_str_def set_time_def zero_message_def attachments_roundtrip[OF assms(1)] assms(2,3))
  then show ?thesis by (simp add: unmarshal_def)
qed

end
