(* ===== verification/Http_Helpers.thy ===== *)
theory Http_Helpers
  imports Json
begin

text \<open>
  \<open>internal/delivery/http/helpers.go\<close> and the request and response every handler works on: the
  payloads and their JSON, the mapping of the services' errors to statuses, and the readers of
  query parameters. A response carries what the handler writes; \<open>recovered\<close> is what
  \<open>gin.Recovery\<close> answers for a panic.
\<close>

section \<open>Requests, contexts and responses\<close>

text \<open>
  A request as gin hands it over: the segments of its path, the headers the program reads,
  \<open>c.Query\<close> (the first value of a parameter, empty when it has none), and the first JSON value of
  the body, if it has one. \<open>ctx_userID\<close> is the value stored by the authentication.
\<close>

record http_request =
  rq_Method :: string
  rq_Path :: "string list"
  rq_Authorization :: string
  rq_XAuthToken :: string
  rq_Origin :: string
  rq_ClientIP :: string
  rq_Query :: "string \<Rightarrow> string"
  rq_Body :: "json option"

record gin_context =
  ctx_req :: http_request
  ctx_Param :: "string \<Rightarrow> string"
  ctx_userID :: "string option"

record response =
  rs_Status :: int
  rs_Header :: "(string \<times> string) list"
  rs_Body :: "json option"

definition c_JSON :: "int \<Rightarrow> json \<Rightarrow> response" where
  "c_JSON status j = \<lparr>rs_Status = status, rs_Header = [], rs_Body = Some j\<rparr>"

definition c_Status :: "int \<Rightarrow> response" where
  "c_Status status = \<lparr>rs_Status = status, rs_Header = [], rs_Body = None\<rparr>"

definition recovered :: response where
  "recovered = c_Status 500"

definition c_Query :: "gin_context \<Rightarrow> string \<Rightarrow> string" where
  "c_Query c k = rq_Query (ctx_req c) k"

text \<open>\<open>c.ShouldBindJSON\<close> into a struct with the given fields and zero value.\<close>

definition ShouldBindJSON :: "'r field list \<Rightarrow> 'r \<Rightarrow> gin_context \<Rightarrow> 'r option" where
  "ShouldBindJSON fs zero c = (case rq_Body (ctx_req c) of None \<Rightarrow> None | Some j \<Rightarrow> unmarshal fs zero j)"

definition respondJSONError :: "int \<Rightarrow> string \<Rightarrow> response" where
  "respondJSONError status message = c_JSON status (JObj [(''error'', JStr message)])"

definition respondBadRequest :: "string \<Rightarrow> response" where
  "respondBadRequest message = respondJSONError 400 message"

definition respondInternalServerError :: "err \<Rightarrow> response" where
  "respondInternalServerError e = respondJSONError 500 ''internal server error''"

section \<open>Errors to statuses\<close>

definition mapAuthError :: "err \<Rightarrow> int \<times> string" where
  "mapAuthError e =
     (if e = AuthErr ErrMissingUsername \<or> e = AuthErr ErrMissingEmail \<or> e = AuthErr ErrMissingPassword
      then (400, Error e)
      else if e = AuthErr ErrEmailAlreadyUsed then (409, Error e)
      else if e = AuthErr ErrInvalidCredentials \<or> e = AuthErr ErrInvalidRefreshToken then (401, Error e)
      else (500, ''internal server error''))"

definition mapMessageError :: "err \<Rightarrow> int \<times> string" where
  "mapMessageError e =
     (if e \<in> MsgErr ` {ErrInvalidRoomID, ErrInvalidSenderID, ErrInvalidContent, ErrInvalidMessageID,
                       ErrInvalidUserID, ErrInvalidSearch}
      then (400, Error e)
      else if e = MsgErr ErrMessageNotFound then (404, Error e)
      else if e = MsgErr ErrEditNotAllowed \<or> e = MsgErr ErrDeleteNotAllowed then (403, Error e)
      else (500, ''internal server error''))"

definition map_room_sentinel :: "err \<Rightarrow> int \<times> string" where
  "map_room_sentinel e =
     (if e \<in> RoomErr ` {ErrInvalidRoomName, ErrInvalidCreatorID, ErrInvalidMemberUser,
                        ErrRoomInvalidUserID, ErrDirectMessageSelf}
      then (400, Error e)
      else if e = RoomErr ErrRoomNotFound then (404, Error e)
      else if e = RoomErr ErrRoomDeleteNotAllowed then (403, Error e)
      else if has_prefix ''rooms:'' (Error e) then (400, Error e)
      else (500, ''internal server error''))"

definition mapRoomError :: "err \<Rightarrow> int \<times> string" where
  "mapRoomError e =
     (case e of
        PgError code constraint \<Rightarrow>
          if code = ''23503''
          then (if contains_sub ''user'' constraint then (404, ''rooms: user not found'')
                else if contains_sub ''room'' constraint then (404, ''rooms: room not found'')
                else (404, ''rooms: related entity not found''))
          else if code = ''23505'' then (409, ''rooms: duplicate record'')
          else map_room_sentinel e
      | _ \<Rightarrow> map_room_sentinel e)"

definition mapUserError :: "err \<Rightarrow> int \<times> string" where
  "mapUserError e =
     (if e = UserErr ErrUserNotFound then (404, Error e)
      else if has_prefix ''users:'' (Error e) then (400, Error e)
      else (500, ''internal server error''))"

text \<open>What every handler does with an error of its use case; a panic never reaches the handler.\<close>

definition respond_error :: "(err \<Rightarrow> int \<times> string) \<Rightarrow> err \<Rightarrow> response" where
  "respond_error mapping e =
     (case e of
        GoPanic _ \<Rightarrow> recovered
      | _ \<Rightarrow> (case mapping e of (status, msg) \<Rightarrow>
               if status = 500 then respondInternalServerError e else respondJSONError status msg))"

section \<open>Payloads\<close>

record user_payload =
  up_ID :: string
  up_Username :: string
  up_Email :: string
  up_Status :: user_status
  up_LastSeenAt :: "time option"
  up_CreatedAt :: time

record token_payload =
  tp_AccessToken :: string
  tp_RefreshToken :: string

record http_attachment_payload =
  hap_ID :: string
  hap_MessageID :: string
  hap_URL :: string
  hap_MimeType :: string
  hap_SizeBytes :: int

record message_payload =
  mp_ID :: string
  mp_RoomID :: string
  mp_SenderID :: string
  mp_Content :: string
  mp_Attachments :: "http_attachment_payload list"
  mp_Status :: message_status
  mp_CreatedAt :: time
  mp_UpdatedAt :: time

record room_payload =
  rp_ID :: string
  rp_Name :: string
  rp_IsGroup :: bool
  rp_CreatedBy :: string
  rp_CreatedAt :: time

record room_member_payload =
  rmp_member_ID :: string
  rmp_member_RoomID :: string
  rmp_member_UserID :: string
  rmp_member_Role :: room_role

definition toUserPayload :: "user \<Rightarrow> user_payload" where
  "toUserPayload u =
     \<lparr>up_ID = usr_ID u, up_Username = usr_Username u, up_Email = usr_Email u, up_Status = usr_Status u,
      up_LastSeenAt = (if IsZero (usr_LastSeenAt u) then None else Some (usr_LastSeenAt u)),
      up_CreatedAt = usr_CreatedAt u\<rparr>"

definition toAttachmentPayloads :: "attachment list \<Rightarrow> http_attachment_payload list" where
  "toAttachmentPayloads list =
     (if list = [] then []
      else map (\<lambda>att. \<lparr>hap_ID = att_ID att, hap_MessageID = att_MessageID att, hap_URL = att_URL att,
                       hap_MimeType = att_MimeType att, hap_SizeBytes = att_SizeBytes att\<rparr>) list)"

definition toMessagePayload :: "message \<Rightarrow> message_payload" where
  "toMessagePayload msg =
     \<lparr>mp_ID = msg_ID msg, mp_RoomID = msg_RoomID msg, mp_SenderID = msg_SenderID msg,
      mp_Content = msg_Content msg, mp_Attachments = toAttachmentPayloads (msg_Attachments msg),
      mp_Status = msg_Status msg, mp_CreatedAt = msg_CreatedAt msg, mp_UpdatedAt = msg_UpdatedAt msg\<rparr>"

definition toMessagePayloads :: "message list \<Rightarrow> message_payload list" where
  "toMessagePayloads list = (if list = [] then [] else map toMessagePayload list)"

definition toRoomPayload :: "room \<Rightarrow> room_payload" where
  "toRoomPayload r =
     \<lparr>rp_ID = rm_ID r, rp_Name = rm_Name r, rp_IsGroup = rm_IsGroup r, rp_CreatedBy = rm_CreatedBy r,
      rp_CreatedAt = rm_CreatedAt r\<rparr>"

definition toRoomPayloads :: "room list \<Rightarrow> room_payload list" where
  "toRoomPayloads list = (if list = [] then [] else map toRoomPayload list)"

definition toRoomMemberPayloads :: "room_member list \<Rightarrow> room_member_payload list" where
  "toRoomMemberPayloads members =
     (if members = [] then []
      else map (\<lambda>m. \<lparr>rmp_member_ID = mem_ID m, rmp_member_RoomID = mem_RoomID m,
                     rmp_member_UserID = mem_UserID m, rmp_member_Role = mem_Role m\<rparr>) members)"

text \<open>The JSON of the payloads; a field marked \<open>omitempty\<close> is left out when it is empty.\<close>

definition omit_empty :: "string \<Rightarrow> string \<Rightarrow> (string \<times> json) list" where
  "omit_empty k s = (if s = [] then [] else [(k, JStr s)])"

definition user_payload_json :: "(time \<Rightarrow> string) \<Rightarrow> user_payload \<Rightarrow> json" where
  "user_payload_json fmt p =
     JObj ([(''id'', JStr (up_ID p)), (''username'', JStr (up_Username p)), (''email'', JStr (up_Email p)),
            (''status'', JStr (up_Status p))] @
           (case up_LastSeenAt p of None \<Rightarrow> [] | Some t \<Rightarrow> [(''last_seen_at'', JStr (fmt t))]) @
           [(''created_at'', JStr (fmt (up_CreatedAt p)))])"

definition token_payload_json :: "token_payload \<Rightarrow> json" where
  "token_payload_json p =
     JObj [(''access_token'', JStr (tp_AccessToken p)), (''refresh_token'', JStr (tp_RefreshToken p))]"

definition http_attachment_json :: "http_attachment_payload \<Rightarrow> json" where
  "http_attachment_json a =
     JObj (omit_empty ''id'' (hap_ID a) @ omit_empty ''message_id'' (hap_MessageID a) @
           [(''url'', JStr (hap_URL a))] @ omit_empty ''mime_type'' (hap_MimeType a) @
           (if hap_SizeBytes a = 0 then [] else [(''size_bytes'', JInt (hap_SizeBytes a))]))"

definition message_payload_json :: "(time \<Rightarrow> string) \<Rightarrow> message_payload \<Rightarrow> json" where
  "message_payload_json fmt p =
     JObj ([(''id'', JStr (mp_ID p)), (''room_id'', JStr (mp_RoomID p)),
            (''sender_id'', JStr (mp_SenderID p)), (''content'', JStr (mp_Content p))] @
           (if mp_Attachments p = [] then []
            else [(''attachments'', JArr (map http_attachment_json (mp_Attachments p)))]) @
           [(''status'', JStr (mp_Status p)), (''created_at'', JStr (fmt (mp_CreatedAt p))),
            (''updated_at'', JStr (fmt (mp_UpdatedAt p)))])"

definition room_payload_json :: "(time \<Rightarrow> string) \<Rightarrow> room_payload \<Rightarrow> json" where
  "room_payload_json fmt p =
     JObj [(''id'', JStr (rp_ID p)), (''name'', JStr (rp_Name p)), (''is_group'', JBool (rp_IsGroup p)),
           (''created_by'', JStr (rp_CreatedBy p)), (''created_at'', JStr (fmt (rp_CreatedAt p)))]"

definition room_member_payload_json :: "room_member_payload \<Rightarrow> json" where
  "room_member_payload_json p =
     JObj (omit_empty ''id'' (rmp_member_ID p) @ omit_empty ''room_id'' (rmp_member_RoomID p) @
           [(''user_id'', JStr (rmp_member_UserID p)), (''role'', JStr (rmp_member_Role p))])"

section \<open>The user and the query parameters of a request\<close>

definition currentUserID :: "gin_context \<Rightarrow> string option" where
  "currentUserID c =
     (case ctx_userID c of None \<Rightarrow> None | Some userID \<Rightarrow> if blank userID then None else Some userID)"

text \<open>A positive integer parameter: absent (the default), valid, or invalid (\<open>None\<close>).\<close>

definition positive_param :: "gin_context \<Rightarrow> string \<Rightarrow> int \<Rightarrow> int option" where
  "positive_param c key absent =
     (let v = c_Query c key in
      if v = [] then Some absent
      else case Atoi v of
        None \<Rightarrow> None
      | Some parsed \<Rightarrow> if parsed \<le> 0 then None else Some parsed)"

definition parsePagination :: "gin_context \<Rightarrow> (int \<times> int) option" where
  "parsePagination c =
     (case positive_param c ''page'' 1 of
        None \<Rightarrow> None
      | Some page \<Rightarrow>
          (case positive_param c ''limit'' 0 of
             None \<Rightarrow> None
           | Some limit \<Rightarrow> Some (page, limit)))"

end
