(* ===== verification/Utils.thy ===== *)
theory Utils
  imports World
begin

text \<open>
  \<open>internal/utils\<close>: password hashing and opaque tokens. A token is a prefix, an underscore and
  32 random bytes in unpadded URL-safe base64.
\<close>

section \<open>Passwords (hash.go)\<close>

definition passwordMinLength :: nat where "passwordMinLength = 8"

definition HashPassword :: "'w runtime \<Rightarrow> string \<Rightarrow> ('w, err + string) io" where
  "HashPassword rt plain w =
     (if length plain < passwordMinLength
      then (Inl (NewErr ''password must be at least 8 characters long''), w)
      else case rt_bcrypt_gen rt plain w of
             (Inl e, w1) \<Rightarrow> (Inl e, w1)
           | (Inr hashed, w1) \<Rightarrow> (Inr hashed, w1))"

definition CompareHashAndPassword :: "'w runtime \<Rightarrow> string \<Rightarrow> string \<Rightarrow> err option" where
  "CompareHashAndPassword rt hash plain =
     (if hash = [] then Some (NewErr ''stored password hash cannot be empty'')
      else if length plain < passwordMinLength
      then Some (NewErr ''password must be at least 8 characters long'')
      else rt_bcrypt_cmp rt hash plain)"

section \<open>base64.RawURLEncoding\<close>

definition b64_alphabet :: string where
  "b64_alphabet = ''ABCDEFGHIJKLMNOPQRSTUVWXYZabcdefghijklmnopqrstuvwxyz0123456789-_''"

definition b64_char :: "nat \<Rightarrow> char" where
  "b64_char n = b64_alphabet ! (n mod 64)"

fun b64_sextets :: "nat list \<Rightarrow> nat list" where
  "b64_sextets [] = []"
| "b64_sextets [a] = [a div 4, (a mod 4) * 16]"
| "b64_sextets [a, b] = [a div 4, (a mod 4) * 16 + b div 16, (b mod 16) * 4]"
| "b64_sextets (a # b # c # r) =
     a div 4 # ((a mod 4) * 16 + b div 16) # ((b mod 16) * 4 + c div 64) # (c mod 64)
     # b64_sextets r"

definition RawURLEncode :: "string \<Rightarrow> string" where
  "RawURLEncode bs = map b64_char (b64_sextets (map of_char bs))"

fun b64_unsextets :: "nat list \<Rightarrow> nat list" where
  "b64_unsextets (p # q # r # s # t) =
     (p * 4 + q div 16) # ((q mod 16) * 16 + r div 4) # ((r mod 4) * 64 + s) # b64_unsextets t"
| "b64_unsextets [p, q, r] = [p * 4 + q div 16, (q mod 16) * 16 + r div 4]"
| "b64_unsextets [p, q] = [p * 4 + q div 16]"
| "b64_unsextets _ = []"

lemma b64_alphabet_length: "length b64_alphabet = 64"
  by (simp add: b64_alphabet_def)

lemma b64_alphabet_codes:
  "map of_char b64_alphabet = ([65..<91] @ [97..<123] @ [48..<58] @ [45, 95] :: nat list)"
  by code_simp

lemma b64_alphabet_distinct: "distinct b64_alphabet"
proof -
  have "distinct ([65..<91] @ [97..<123] @ [48..<58] @ [45, 95] :: nat list)" by simp
  then show ?thesis unfolding b64_alphabet_codes[symmetric] distinct_map by blast
qed

lemma b64_alphabet_graphic: "list_all graphic b64_alphabet"
  by (simp add: b64_alphabet_def graphic_def)

lemma b64_char_graphic: "graphic (b64_char n)"
  using b64_alphabet_graphic unfolding b64_char_def list_all_length
  by (simp add: b64_alphabet_length)

lemma b64_char_inj: "p < 64 \<Longrightarrow> q < 64 \<Longrightarrow> b64_char p = b64_char q \<longleftrightarrow> p = q"
  by (simp add: b64_char_def nth_eq_iff_index_eq b64_alphabet_distinct b64_alphabet_length)

lemma b64_sextets_bound:
  "list_all (\<lambda>b. b < 256) bs \<Longrightarrow> list_all (\<lambda>n. n < 64) (b64_sextets bs)"
  by (induction bs rule: b64_sextets.induct) auto

lemma b64_roundtrip:
  "list_all (\<lambda>b. b < 256) bs \<Longrightarrow> b64_unsextets (b64_sextets bs) = bs"
  by (induction bs rule: b64_sextets.induct) auto

lemma map_b64_char_inj:
  "list_all (\<lambda>n. n < 64) xs \<Longrightarrow> list_all (\<lambda>n. n < 64) ys \<Longrightarrow>
   map b64_char xs = map b64_char ys \<longleftrightarrow> xs = ys"
  by (rule inj_on_map_eq_map) (auto simp: inj_on_def list_all_iff b64_char_inj)

lemma bytes_bound: "list_all (\<lambda>b. b < (256 :: nat)) (map of_char (bs :: string))"
  by (induction bs) auto

lemma RawURLEncode_inj: "RawURLEncode a = RawURLEncode b \<longleftrightarrow> a = b"
proof
  assume "RawURLEncode a = RawURLEncode b"
  then have "b64_sextets (map of_char a) = b64_sextets (map of_char b)"
    by (simp add: RawURLEncode_def map_b64_char_inj b64_sextets_bound bytes_bound)
  then have "b64_unsextets (b64_sextets (map of_char a)) = b64_unsextets (b64_sextets (map of_char b))"
    by simp
  then have "map (of_char :: char \<Rightarrow> nat) a = map of_char b"
    by (simp add: b64_roundtrip bytes_bound)
  then show "a = b"
    by (rule map_injective) (simp add: inj_on_def)
qed simp

section \<open>Tokens (jwt.go)\<close>

definition generateOpaqueToken :: "'w runtime \<Rightarrow> string \<Rightarrow> ('w, err + string) io" where
  "generateOpaqueToken rt pfx w =
     (case rt_rand rt w of
        (Inl e, w1) \<Rightarrow> (Inl e, w1)
      | (Inr buf, w1) \<Rightarrow> (Inr (pfx @ ''_'' @ RawURLEncode buf), w1))"

text \<open>The claims argument of the two generators is ignored by the code.\<close>

definition GenerateAccessToken :: "'w runtime \<Rightarrow> ('w, err + string) io" where
  "GenerateAccessToken rt w = generateOpaqueToken rt ''access'' w"

definition GenerateRefreshToken :: "'w runtime \<Rightarrow> ('w, err + string) io" where
  "GenerateRefreshToken rt w = generateOpaqueToken rt ''refresh'' w"

lemma RawURLEncode_graphic: "list_all graphic (RawURLEncode bs)"
  by (auto simp: RawURLEncode_def list_all_iff b64_char_graphic)

lemma token_trim:
  "generateOpaqueToken rt p w = (Inr t, w') \<Longrightarrow> list_all graphic p \<Longrightarrow> TrimSpace t = t \<and> t \<noteq> []"
  by (auto simp: generateOpaqueToken_def split: prod.splits sum.splits
      intro!: TrimSpace_graphic RawURLEncode_graphic) (simp add: graphic_def)

lemma access_token_trim:
  "GenerateAccessToken rt w = (Inr t, w') \<Longrightarrow> TrimSpace t = t \<and> t \<noteq> []"
  unfolding GenerateAccessToken_def by (erule token_trim) (simp add: graphic_def)

lemma refresh_token_trim:
  "GenerateRefreshToken rt w = (Inr t, w') \<Longrightarrow> TrimSpace t = t \<and> t \<noteq> []"
  unfolding GenerateRefreshToken_def by (erule token_trim) (simp add: graphic_def)

section \<open>validator.go\<close>

definition ValidateStruct :: "'a option \<Rightarrow> err option" where
  "ValidateStruct v =
     (case v of None \<Rightarrow> Some (NewErr ''validation target cannot be nil'') | Some _ \<Rightarrow> None)"

end
