(* ===== verification/Redis_Adapter.thy ===== *)
theory Redis_Adapter
  imports World
begin

text \<open>
  \<open>internal/repository/redis\<close>: the cache and the publisher over a Redis client, and the
  interface of the token cache the auth service relies on. The client itself (go-redis and the
  server behind it) is a parameter of the adapters; \<open>redis_srv\<close> instantiates it with the
  documented effect of \<open>GET\<close>, \<open>SET\<close>, \<open>DEL\<close> and \<open>PUBLISH\<close> on the keyspace of the world,
  under every fate a request can have.
\<close>

section \<open>The client (client.go)\<close>

record 'w redis_client =
  rc_Get :: "string \<Rightarrow> ('w, err + string) io"
  rc_Set :: "string \<Rightarrow> string \<Rightarrow> int \<Rightarrow> ('w, err option) io"
  rc_Del :: "string \<Rightarrow> ('w, err option) io"
  rc_Publish :: "string \<Rightarrow> json \<Rightarrow> ('w, err option) io"

section \<open>Cache (redis\_cache.go)\<close>

text \<open>The \<open>tokenCache\<close> interface of the auth service.\<close>

record 'w token_cache =
  cache_Get :: "string \<Rightarrow> ('w, err + string) io"
  cache_Set :: "string \<Rightarrow> string \<Rightarrow> int \<Rightarrow> ('w, err option) io"
  cache_Delete :: "string \<Rightarrow> ('w, err option) io"

definition Cache_Get :: "'w redis_client \<Rightarrow> string \<Rightarrow> ('w, err + string) io" where
  "Cache_Get c key w =
     (case rc_Get c key w of
        (Inl e, w1) \<Rightarrow> if e = RedisNil then (Inl ErrCacheMiss, w1) else (Inl e, w1)
      | (Inr val, w1) \<Rightarrow> (Inr val, w1))"

definition Cache_Set :: "'w redis_client \<Rightarrow> string \<Rightarrow> string \<Rightarrow> int \<Rightarrow> ('w, err option) io" where
  "Cache_Set c key value ttl w = rc_Set c key value ttl w"

definition Cache_Delete :: "'w redis_client \<Rightarrow> string \<Rightarrow> ('w, err option) io" where
  "Cache_Delete c key w = rc_Del c key w"

definition NewCache :: "'w redis_client \<Rightarrow> 'w token_cache" where
  "NewCache c = \<lparr>cache_Get = Cache_Get c, cache_Set = Cache_Set c, cache_Delete = Cache_Delete c\<rparr>"

section \<open>PubSub (redis\_pubsub.go)\<close>

text \<open>The \<open>publisher\<close> interface of the room and message services.\<close>

type_synonym 'w publisher = "string \<Rightarrow> json \<Rightarrow> ('w, err option) io"

definition PubSub_Publish :: "'w redis_client \<Rightarrow> 'w publisher" where
  "PubSub_Publish c channel payload w = rc_Publish c channel payload w"

text \<open>
  A subscription of the client: waiting for its confirmation, the Go channel its announcements arrive
  on, and its end. \<open>'c\<close> is what comes through that channel.
\<close>

record ('w, 'c) redis_sub =
  sub_Receive :: "('w, err option) io"
  sub_Channel :: 'c
  sub_Close :: "('w, err option) io"

type_synonym ('w, 'c) redis_subscribe = "string list \<Rightarrow> ('w, ('w, 'c) redis_sub) io"
type_synonym ('w, 'c) subscribe = "string list \<Rightarrow> ('w, err + ('c \<times> ('w, err option) io)) io"

definition PubSub_Subscribe ::
  "('w, 'c) redis_subscribe \<Rightarrow> string \<Rightarrow> ('w, err + ('c \<times> ('w, err option) io)) io" where
  "PubSub_Subscribe client_Subscribe channel w =
     (case client_Subscribe [channel] w of
        (sub, w1) \<Rightarrow>
          (case sub_Receive sub w1 of
             (Some e, w2) \<Rightarrow> (Inl e, w2)
           | (None, w2) \<Rightarrow> (Inr (sub_Channel sub, sub_Close sub), w2)))"

definition PubSub_PatternSubscribe :: "('w, 'c) redis_subscribe \<Rightarrow> ('w, 'c) subscribe" where
  "PubSub_PatternSubscribe client_PSubscribe patterns w =
     (case client_PSubscribe patterns w of
        (sub, w1) \<Rightarrow>
          (case sub_Receive sub w1 of
             (Some e, w2) \<Rightarrow> (Inl e, w2)
           | (None, w2) \<Rightarrow> (Inr (sub_Channel sub, sub_Close sub), w2)))"

record ('w, 'c) pubsub =
  ps_Publish :: "'w publisher"
  ps_Subscribe :: "string \<Rightarrow> ('w, err + ('c \<times> ('w, err option) io)) io"
  ps_PatternSubscribe :: "('w, 'c) subscribe"

definition NewPubSub ::
  "'w redis_client \<Rightarrow> ('w, 'c) redis_subscribe \<Rightarrow> ('w, 'c) redis_subscribe \<Rightarrow> ('w, 'c) pubsub" where
  "NewPubSub c client_Subscribe client_PSubscribe =
     \<lparr>ps_Publish = PubSub_Publish c, ps_Subscribe = PubSub_Subscribe client_Subscribe,
      ps_PatternSubscribe = PubSub_PatternSubscribe client_PSubscribe\<rparr>"

section \<open>The server\<close>

text \<open>
  A key without a deadline never expires; go-redis sends no expiry for a duration that is not
  positive (its special value of -1 ns, which keeps the expiry of the key, is not told apart). A request takes effect at the time the call ends.
\<close>

definition deadline :: "int \<Rightarrow> time \<Rightarrow> time option" where
  "deadline ttl t = (if 0 < ttl then Some (t + ttl) else None)"

definition alive :: "time option \<Rightarrow> time \<Rightarrow> bool" where
  "alive x t = (case x of None \<Rightarrow> True | Some d \<Rightarrow> t < d)"

definition live_value ::
  "(string \<Rightarrow> (string \<times> time option) option) \<Rightarrow> time \<Rightarrow> string \<Rightarrow> string option" where
  "live_value S t k =
     (case S k of None \<Rightarrow> None | Some (v, x) \<Rightarrow> if alive x t then Some v else None)"

definition answer_err :: "fate \<Rightarrow> err option" where
  "answer_err f = (case f of Done \<Rightarrow> None | LostRequest e \<Rightarrow> Some e | LostReply e \<Rightarrow> Some e)"

definition acts :: "fate \<Rightarrow> bool" where
  "acts f = (case f of LostRequest _ \<Rightarrow> False | _ \<Rightarrow> True)"

text \<open>A lost answer is never taken for \<open>redis.Nil\<close>, which the server itself sends.\<close>

definition lost_err :: "err \<Rightarrow> err" where
  "lost_err e = (if e = RedisNil then ExtErr ''i/o timeout'' else e)"

definition srv_get :: "env \<Rightarrow> string \<Rightarrow> (world, err + string) io" where
  "srv_get E k w =
     (let w' = pass E w in
      case answer_err (redis_fate E GET (w_tick w)) of
        Some e \<Rightarrow> (Inl (lost_err e), w')
      | None \<Rightarrow> (case live_value (w_keys w') (w_wall w') k of
                   None \<Rightarrow> (Inl RedisNil, w') | Some v \<Rightarrow> (Inr v, w')))"

definition srv_set :: "env \<Rightarrow> string \<Rightarrow> string \<Rightarrow> int \<Rightarrow> (world, err option) io" where
  "srv_set E k v ttl w =
     (let w' = pass E w; f = redis_fate E SET (w_tick w) in
      (map_option lost_err (answer_err f),
       if acts f then w'\<lparr>w_keys := (w_keys w')(k \<mapsto> (v, deadline ttl (w_wall w')))\<rparr> else w'))"

definition srv_del :: "env \<Rightarrow> string \<Rightarrow> (world, err option) io" where
  "srv_del E k w =
     (let w' = pass E w; f = redis_fate E DEL (w_tick w) in
      (map_option lost_err (answer_err f),
       if acts f then w'\<lparr>w_keys := (w_keys w')(k := None)\<rparr> else w'))"

definition srv_publish :: "env \<Rightarrow> string \<Rightarrow> json \<Rightarrow> (world, err option) io" where
  "srv_publish E ch j w =
     (let w' = pass E w; f = redis_fate E PUBLISH (w_tick w) in
      (map_option lost_err (answer_err f),
       if acts f then w'\<lparr>w_log := w_log w' @ [(ch, j)]\<rparr> else w'))"

definition redis_srv :: "env \<Rightarrow> world redis_client" where
  "redis_srv E = \<lparr>rc_Get = srv_get E, rc_Set = srv_set E, rc_Del = srv_del E,
                  rc_Publish = srv_publish E\<rparr>"

lemma alive_mono: "alive x t' \<Longrightarrow> t \<le> t' \<Longrightarrow> alive x t"
  by (auto simp: alive_def split: option.splits)

lemma lost_err_not_nil [simp]: "lost_err e \<noteq> RedisNil" "RedisNil \<noteq> lost_err e"
  by (simp_all add: lost_err_def)

lemma acts_Done: "answer_err f = None \<Longrightarrow> acts f"
  by (auto simp: answer_err_def acts_def split: fate.splits)

lemmas redis_defs = srv_get_def srv_set_def srv_del_def srv_publish_def redis_srv_def
  Cache_Get_def Cache_Set_def Cache_Delete_def NewCache_def Let_def

section \<open>What the auth service relies on\<close>

text \<open>
  The contract of a token cache: a store of values with deadlines and a clock. A \<open>Get\<close> reads,
  a \<open>Set\<close> that reports success has stored, a failed one has stored or done nothing; the same
  for \<open>Delete\<close>. The clock never goes back. \<open>never_unstored\<close> says a miss is an answer, not a
  failure.
\<close>

locale token_cache_contract =
  fixes C :: "'w token_cache"
    and store :: "'w \<Rightarrow> string \<Rightarrow> (string \<times> time option) option"
    and clock :: "'w \<Rightarrow> time"
  assumes get_store: "store (snd (cache_Get C k w)) = store w"
    and get_clock: "clock w \<le> clock (snd (cache_Get C k w))"
    and get_hit: "cache_Get C k w = (Inr v, w') \<Longrightarrow> live_value (store w) (clock w') k = Some v"
    and get_miss: "cache_Get C k w = (Inl ErrCacheMiss, w') \<Longrightarrow>
        live_value (store w) (clock w') k = None"
    and set_clock: "clock w \<le> clock (snd (cache_Set C k v ttl w))"
    and set_store: "cache_Set C k v ttl w = (r, w') \<Longrightarrow>
        store w' = (store w)(k \<mapsto> (v, deadline ttl (clock w'))) \<or> (r \<noteq> None \<and> store w' = store w)"
    and del_clock: "clock w \<le> clock (snd (cache_Delete C k w))"
    and del_store: "cache_Delete C k w = (r, w') \<Longrightarrow>
        store w' = (store w)(k := None) \<or> (r \<noteq> None \<and> store w' = store w)"
begin

lemma set_ok: "cache_Set C k v ttl w = (None, w') \<Longrightarrow>
    store w' = (store w)(k \<mapsto> (v, deadline ttl (clock w')))"
  using set_store by blast

lemma set_other: "cache_Set C k v ttl w = (r, w') \<Longrightarrow> j \<noteq> k \<Longrightarrow> store w' j = store w j"
  using set_store[of k v ttl w r w'] by auto

lemma del_other: "cache_Delete C k w = (r, w') \<Longrightarrow> j \<noteq> k \<Longrightarrow> store w' j = store w j"
  using del_store[of k w r w'] by auto

end

text \<open>A cache whose deletions always take effect, even when the answer is lost.\<close>

locale deleting_cache = token_cache_contract +
  assumes del_effect: "store (snd (cache_Delete C k w)) = (store w)(k := None)"

text \<open>A cache that moreover answers every \<open>Set\<close> and every \<open>Delete\<close>.\<close>

locale writing_cache = deleting_cache +
  assumes set_effect: "fst (cache_Set C k v ttl w) = None"

text \<open>The Redis adapter over the server fulfils the contract, whatever the fates.\<close>

interpretation rc: token_cache_contract "NewCache (redis_srv E)" w_keys w_wall for E
  by unfold_locales
    (auto simp: redis_defs acts_def answer_err_def split: option.splits prod.splits if_splits fate.splits)

text \<open>The same environment with deletions that reach the server.\<close>

definition sure_delete :: "env \<Rightarrow> env" where
  "sure_delete E = E\<lparr>redis_fate := (\<lambda>op n. if op = DEL then Done else redis_fate E op n)\<rparr>"

interpretation rd: deleting_cache "NewCache (redis_srv (sure_delete E))" w_keys w_wall for E
  by unfold_locales (simp add: redis_defs sure_delete_def acts_def)

text \<open>The same environment with every write answered: reads can still fail.\<close>

definition sure_write :: "env \<Rightarrow> env" where
  "sure_write E = E\<lparr>redis_fate := (\<lambda>op n. if op = DEL then Done else if op = SET then Done
     else redis_fate E op n)\<rparr>"

interpretation rw: writing_cache "NewCache (redis_srv (sure_write E))" w_keys w_wall for E
  by unfold_locales (simp_all add: redis_defs sure_write_def acts_def answer_err_def)

text \<open>A Redis that answers everything.\<close>

definition calm_redis :: "env \<Rightarrow> env" where
  "calm_redis E = E\<lparr>redis_fate := (\<lambda>op n. Done)\<rparr>"

lemma calm_get:
  "live_value (w_keys w) (w_wall (pass (calm_redis E) w)) k = Some v \<Longrightarrow>
   cache_Get (NewCache (redis_srv (calm_redis E))) k w = (Inr v, pass (calm_redis E) w)"
  by (simp add: redis_defs calm_redis_def answer_err_def)

lemma calm_set:
  "\<exists>w'. cache_Set (NewCache (redis_srv (calm_redis E))) k v ttl w = (None, w')"
  by (simp add: redis_defs calm_redis_def answer_err_def)

end
