(* ===== verification/Auth_Service.thy ===== *)
theory Auth_Service
  imports Utils Redis_Adapter
begin

text \<open>
  \<open>internal/domain/auth\<close>: registration, login, refresh, logout and access-token validation
  over a user repository and a token cache. A session of user \<open>u\<close> with access token \<open>a\<close> and
  refresh token \<open>r\<close> is four cache entries: \<open>session:u = r\<close>, \<open>refresh:r = u\<close>,
  \<open>access:a = u\<close> and \<open>access-session:u = a\<close>. The locale \<open>auth_environment\<close> is the
  service over any cache that fulfils its contract; the lemmas there say what the operations
  do to those entries.
\<close>

section \<open>Interfaces and state\<close>

record register_input =
  ri_Username :: string
  ri_Email :: string
  ri_Password :: string

record token_pair =
  AccessToken :: string
  RefreshToken :: string

text \<open>The \<open>userRepository\<close> interface; \<open>Create\<close> fills in the fields of its argument.\<close>

record 'w user_repository =
  ur_Create :: "user \<Rightarrow> ('w, err option \<times> user) io"
  ur_GetByEmail :: "string \<Rightarrow> ('w, err + user) io"
  ur_GetByID :: "string \<Rightarrow> ('w, err + user) io"
  ur_UpdateStatus :: "string \<Rightarrow> user_status \<Rightarrow> time \<Rightarrow> ('w, err option) io"

record 'w auth_service =
  as_users :: "'w user_repository"
  as_cache :: "'w token_cache"
  as_accessTTL :: int
  as_refreshTTL :: int
  as_rt :: "'w runtime"

definition NewAuthService ::
  "'w runtime \<Rightarrow> 'w user_repository \<Rightarrow> 'w token_cache \<Rightarrow> int \<Rightarrow> int \<Rightarrow> 'w auth_service" where
  "NewAuthService rt users cache accessTTL refreshTTL =
     \<lparr>as_users = users, as_cache = cache, as_accessTTL = accessTTL,
      as_refreshTTL = refreshTTL, as_rt = rt\<rparr>"

section \<open>Cache keys\<close>

definition sessionKey :: "string \<Rightarrow> string" where
  "sessionKey userID = ''auth:session:'' @ userID"

definition accessKey :: "string \<Rightarrow> string" where
  "accessKey token = ''auth:access:'' @ token"

definition accessSessionKey :: "string \<Rightarrow> string" where
  "accessSessionKey userID = ''auth:access-session:'' @ userID"

definition refreshKey :: "string \<Rightarrow> string" where
  "refreshKey token = ''auth:refresh:'' @ token"

lemma auth_keys_simps [simp]:
  "sessionKey a = sessionKey b \<longleftrightarrow> a = b"
  "accessKey a = accessKey b \<longleftrightarrow> a = b"
  "accessSessionKey a = accessSessionKey b \<longleftrightarrow> a = b"
  "refreshKey a = refreshKey b \<longleftrightarrow> a = b"
  "sessionKey a \<noteq> accessKey b" "sessionKey a \<noteq> accessSessionKey b" "sessionKey a \<noteq> refreshKey b"
  "accessKey a \<noteq> sessionKey b" "accessKey a \<noteq> accessSessionKey b" "accessKey a \<noteq> refreshKey b"
  "accessSessionKey a \<noteq> sessionKey b" "accessSessionKey a \<noteq> accessKey b"
  "accessSessionKey a \<noteq> refreshKey b"
  "refreshKey a \<noteq> sessionKey b" "refreshKey a \<noteq> accessKey b" "refreshKey a \<noteq> accessSessionKey b"
  by (simp_all add: sessionKey_def accessKey_def accessSessionKey_def refreshKey_def)

section \<open>Operations\<close>

definition normalizeEmail :: "'w runtime \<Rightarrow> string \<Rightarrow> string" where
  "normalizeEmail rt email = TrimSpace (ToLower (rt_unicode_lower rt) email)"

definition validateRegisterInput :: "register_input \<Rightarrow> err option" where
  "validateRegisterInput input =
     (if blank (ri_Username input) then Some (AuthErr ErrMissingUsername)
      else if blank (ri_Email input) then Some (AuthErr ErrMissingEmail)
      else if ri_Password input = [] then Some (AuthErr ErrMissingPassword)
      else None)"

text \<open>A call whose error the code discards (\<open>_ = s.cache.Delete(...)\<close>).\<close>

definition discard_Delete :: "'w token_cache \<Rightarrow> string \<Rightarrow> 'w \<Rightarrow> 'w" where
  "discard_Delete C k w = snd (cache_Delete C k w)"

definition auth_Register :: "'w auth_service \<Rightarrow> register_input \<Rightarrow> ('w, err + user) io" where
  "auth_Register s input w =
     (case validateRegisterInput input of
        Some e \<Rightarrow> (Inl e, w)
      | None \<Rightarrow>
        (let email = normalizeEmail (as_rt s) (ri_Email input) in
         case ur_GetByEmail (as_users s) email w of
           (Inr _, w1) \<Rightarrow> (Inl (AuthErr ErrEmailAlreadyUsed), w1)
         | (Inl e, w1) \<Rightarrow>
             if e \<noteq> ErrNoRows then (Inl e, w1)
             else case HashPassword (as_rt s) (ri_Password input) w1 of
               (Inl e, w2) \<Rightarrow> (Inl e, w2)
             | (Inr hash, w2) \<Rightarrow>
                 (case ur_Create (as_users s)
                    \<lparr>usr_ID = [], usr_Username = TrimSpace (ri_Username input), usr_Email = email,
                     usr_PasswordHash = hash, usr_Status = UserStatusOffline,
                     usr_LastSeenAt = 0, usr_CreatedAt = 0\<rparr> w2 of
                    ((Some e, _), w3) \<Rightarrow> (Inl e, w3)
                  | ((None, user), w3) \<Rightarrow> (Inr (user\<lparr>usr_PasswordHash := []\<rparr>), w3))))"

text \<open>The second half of \<open>invalidateSession\<close>, from the read of the access session on.\<close>

definition invalidateAccess :: "'w auth_service \<Rightarrow> string \<Rightarrow> ('w, err option) io" where
  "invalidateAccess s userID w =
     (case cache_Get (as_cache s) (accessSessionKey userID) w of
        (Inl e, w1) \<Rightarrow> if e \<noteq> ErrCacheMiss then (Some e, w1) else (None, w1)
      | (Inr accessToken, w1) \<Rightarrow>
          (let w2 = discard_Delete (as_cache s) (accessSessionKey userID) w1;
               w3 = discard_Delete (as_cache s) (accessKey accessToken) w2
           in (None, w3)))"

definition invalidateSession :: "'w auth_service \<Rightarrow> string \<Rightarrow> ('w, err option) io" where
  "invalidateSession s userID w =
     (case cache_Get (as_cache s) (sessionKey userID) w of
        (Inl e, w1) \<Rightarrow> if e \<noteq> ErrCacheMiss then (Some e, w1) else invalidateAccess s userID w1
      | (Inr token, w1) \<Rightarrow>
          (let w2 = discard_Delete (as_cache s) (sessionKey userID) w1;
               w3 = discard_Delete (as_cache s) (refreshKey token) w2
           in invalidateAccess s userID w3))"

text \<open>The end of \<open>issueTokens\<close>: the four entries, each failure undoing the ones before it.\<close>

definition storeTokens ::
  "'w auth_service \<Rightarrow> string \<Rightarrow> string \<Rightarrow> string \<Rightarrow> ('w, err + token_pair) io" where
  "storeTokens s userID accessToken refreshToken w =
     (let C = as_cache s in
      case cache_Set C (sessionKey userID) refreshToken (as_refreshTTL s) w of
        (Some e, w1) \<Rightarrow> (Inl e, w1)
      | (None, w1) \<Rightarrow>
      (case cache_Set C (refreshKey refreshToken) userID (as_refreshTTL s) w1 of
        (Some e, w2) \<Rightarrow> (Inl e, discard_Delete C (sessionKey userID) w2)
      | (None, w2) \<Rightarrow>
      (case cache_Set C (accessKey accessToken) userID (as_accessTTL s) w2 of
        (Some e, w3) \<Rightarrow>
          (let w4 = discard_Delete C (sessionKey userID) w3;
               w5 = discard_Delete C (refreshKey refreshToken) w4;
               w6 = discard_Delete C (accessKey accessToken) w5
           in (Inl e, w6))
      | (None, w3) \<Rightarrow>
      (case cache_Set C (accessSessionKey userID) accessToken (as_accessTTL s) w3 of
        (Some e, w4) \<Rightarrow>
          (let w5 = discard_Delete C (sessionKey userID) w4;
               w6 = discard_Delete C (refreshKey refreshToken) w5;
               w7 = discard_Delete C (accessKey accessToken) w6;
               w8 = discard_Delete C (accessSessionKey userID) w7
           in (Inl e, w8))
      | (None, w4) \<Rightarrow>
          (Inr \<lparr>AccessToken = accessToken, RefreshToken = refreshToken\<rparr>, w4)))))"

definition issueTokens :: "'w auth_service \<Rightarrow> user \<Rightarrow> ('w, err + token_pair) io" where
  "issueTokens s user w =
     (case invalidateSession s (usr_ID user) w of
        (Some e, w1) \<Rightarrow> (Inl e, w1)
      | (None, w1) \<Rightarrow>
        (case rt_now (as_rt s) w1 of (now, w2) \<Rightarrow>
         (case GenerateAccessToken (as_rt s) w2 of
            (Inl e, w3) \<Rightarrow> (Inl e, w3)
          | (Inr accessToken, w3) \<Rightarrow>
            (case GenerateRefreshToken (as_rt s) w3 of
               (Inl e, w4) \<Rightarrow> (Inl e, w4)
             | (Inr refreshToken, w4) \<Rightarrow>
                 storeTokens s (usr_ID user) accessToken refreshToken w4))))"

text \<open>The common end of \<open>Login\<close> and \<open>Refresh\<close>: issue tokens, then mark the user online.\<close>

definition openSession :: "'w auth_service \<Rightarrow> user \<Rightarrow> ('w, err + token_pair) io" where
  "openSession s user w =
     (case issueTokens s user w of
        (Inl e, w1) \<Rightarrow> (Inl e, w1)
      | (Inr tokens, w1) \<Rightarrow>
        (case rt_now (as_rt s) w1 of (now, w2) \<Rightarrow>
         (case ur_UpdateStatus (as_users s) (usr_ID user) UserStatusOnline now w2 of
            (Some e, w3) \<Rightarrow> (Inl e, w3)
          | (None, w3) \<Rightarrow> (Inr tokens, w3))))"

definition auth_Login :: "'w auth_service \<Rightarrow> string \<Rightarrow> string \<Rightarrow> ('w, err + token_pair) io" where
  "auth_Login s email0 password w =
     (let email = normalizeEmail (as_rt s) email0 in
      if email = [] then (Inl (AuthErr ErrMissingEmail), w)
      else if password = [] then (Inl (AuthErr ErrMissingPassword), w)
      else case ur_GetByEmail (as_users s) email w of
        (Inl e, w1) \<Rightarrow>
          if e = ErrNoRows then (Inl (AuthErr ErrInvalidCredentials), w1) else (Inl e, w1)
      | (Inr user, w1) \<Rightarrow>
          if CompareHashAndPassword (as_rt s) (usr_PasswordHash user) password \<noteq> None
          then (Inl (AuthErr ErrInvalidCredentials), w1)
          else openSession s user w1)"

definition auth_Refresh :: "'w auth_service \<Rightarrow> string \<Rightarrow> ('w, err + token_pair) io" where
  "auth_Refresh s refreshToken0 w =
     (let refreshToken = TrimSpace refreshToken0; invalid = AuthErr ErrInvalidRefreshToken in
      if refreshToken = [] then (Inl invalid, w)
      else case cache_Get (as_cache s) (refreshKey refreshToken) w of
        (Inl e, w1) \<Rightarrow> if e = ErrCacheMiss then (Inl invalid, w1) else (Inl e, w1)
      | (Inr userID, w1) \<Rightarrow>
      (case cache_Get (as_cache s) (sessionKey userID) w1 of
        (Inl e, w2) \<Rightarrow> if e = ErrCacheMiss then (Inl invalid, w2) else (Inl e, w2)
      | (Inr activeToken, w2) \<Rightarrow>
          if activeToken \<noteq> refreshToken then (Inl invalid, w2)
          else (case ur_GetByID (as_users s) userID w2 of
                  (Inl e, w3) \<Rightarrow> if e = ErrNoRows then (Inl invalid, w3) else (Inl e, w3)
                | (Inr user, w3) \<Rightarrow> openSession s user w3)))"

definition auth_Logout :: "'w auth_service \<Rightarrow> string \<Rightarrow> ('w, err option) io" where
  "auth_Logout s userID0 w =
     (let userID = TrimSpace userID0 in
      if userID = [] then (Some (NewErr ''auth: user id is required''), w)
      else case invalidateSession s userID w of
        (Some e, w1) \<Rightarrow> (Some e, w1)
      | (None, w1) \<Rightarrow>
        (case rt_now (as_rt s) w1 of (now, w2) \<Rightarrow>
           ur_UpdateStatus (as_users s) userID UserStatusOffline now w2))"

text \<open>
  \<open>ValidateAccessToken\<close> reads the token's entry and then writes both access entries again with
  a fresh deadline. The two parts are separate requests to the cache.
\<close>

definition extendAccess :: "'w auth_service \<Rightarrow> string \<Rightarrow> string \<Rightarrow> ('w, err + string) io" where
  "extendAccess s token userID w =
     (case cache_Set (as_cache s) (accessKey token) userID (as_accessTTL s) w of
        (Some e, w1) \<Rightarrow> (Inl e, w1)
      | (None, w1) \<Rightarrow>
        (case cache_Set (as_cache s) (accessSessionKey userID) token (as_accessTTL s) w1 of
           (Some e, w2) \<Rightarrow> (Inl e, w2)
         | (None, w2) \<Rightarrow> (Inr userID, w2)))"

definition auth_ValidateAccessToken :: "'w auth_service \<Rightarrow> string \<Rightarrow> ('w, err + string) io" where
  "auth_ValidateAccessToken s accessToken w =
     (let token = TrimSpace accessToken in
      if token = [] then (Inl (AuthErr ErrInvalidAccessToken), w)
      else case cache_Get (as_cache s) (accessKey token) w of
        (Inl e, w1) \<Rightarrow>
          if e = ErrCacheMiss then (Inl (AuthErr ErrInvalidAccessToken), w1) else (Inl e, w1)
      | (Inr userID, w1) \<Rightarrow> extendAccess s token userID w1)"

end
