(* ===== verification/Steps.thy ===== *)
theory Steps
  imports Prelude
begin

text \<open>
  Relations that every effectful call of a component stays within: an invariant is the relation
  that carries it from the state before to the state after, a frame is the relation that keeps a
  part of the state. A relation that is reflexive and transitive is respected by a composition of
  calls when each of them respects it; the rules follow the shape of the definitions (a call
  whose result is inspected, a branch on a sum, an option or a condition).
\<close>

definition within :: "('w \<Rightarrow> 'w \<Rightarrow> bool) \<Rightarrow> ('w, 'a) io \<Rightarrow> bool" where
  "within R f \<longleftrightarrow> (\<forall>w. R w (snd (f w)))"

lemma withinD: "within R f \<Longrightarrow> f w = (r, w') \<Longrightarrow> R w w'"
  by (metis snd_conv within_def)

lemma withinI: "(\<And>w r w'. f w = (r, w') \<Longrightarrow> R w w') \<Longrightarrow> within R f"
  by (simp add: within_def) (metis prod.collapse)

text \<open>A call that keeps a property of the state.\<close>

definition carries :: "('w \<Rightarrow> bool) \<Rightarrow> 'w \<Rightarrow> 'w \<Rightarrow> bool" where
  "carries P w w' \<longleftrightarrow> (P w \<longrightarrow> P w')"

text \<open>A call that leaves a part of the state as it was.\<close>

definition same :: "('w \<Rightarrow> 'a) \<Rightarrow> 'w \<Rightarrow> 'w \<Rightarrow> bool" where
  "same p w w' \<longleftrightarrow> p w' = p w"

locale step_relation =
  fixes R :: "'w \<Rightarrow> 'w \<Rightarrow> bool"
  assumes R_refl: "R w w"
    and R_trans: "R a b \<Longrightarrow> R b c \<Longrightarrow> R a c"
begin

lemma within_done: "within R (\<lambda>w. (x, w))"
  by (simp add: within_def R_refl)

lemma within_call:
  assumes "within R f" and "\<And>r. within R (g r)"
  shows "within R (\<lambda>w. case f w of (r, w1) \<Rightarrow> g r w1)"
  using assms unfolding within_def by (auto split: prod.split intro: R_trans)

lemma within_sum:
  "(\<And>e. within R (f e)) \<Longrightarrow> (\<And>x. within R (g x)) \<Longrightarrow>
   within R (\<lambda>w. case r of Inl e \<Rightarrow> f e w | Inr x \<Rightarrow> g x w)"
  by (cases r) simp_all

lemma within_option:
  "within R f \<Longrightarrow> (\<And>x. within R (g x)) \<Longrightarrow>
   within R (\<lambda>w. case r of None \<Rightarrow> f w | Some x \<Rightarrow> g x w)"
  by (cases r) simp_all

lemma within_prod:
  "(\<And>a b. within R (f a b)) \<Longrightarrow> within R (\<lambda>w. case p of (a, b) \<Rightarrow> f a b w)"
  by (cases p) simp

lemma within_if:
  "within R f \<Longrightarrow> within R g \<Longrightarrow> within R (\<lambda>w. if b then f w else g w)"
  by (cases b) simp_all

lemma within_then:
  assumes "within R f" and "within R g"
  shows "within R (\<lambda>w. g (snd (f w)))"
  using assms by (auto simp: within_def intro: R_trans)

lemma within_tail: "within R f \<Longrightarrow> within R (\<lambda>w. f w)"
  by simp

lemmas within_rules = within_done within_call within_sum within_option within_prod within_if
  within_then

end

interpretation carry: step_relation "carries P" for P
  by unfold_locales (simp_all add: carries_def)

interpretation frame: step_relation "same p" for p
  by unfold_locales (simp_all add: same_def)

end
