(* ===== verification/Room_Service.thy ===== *)
theory Room_Service
  imports Steps Json Redis_Adapter
begin

text \<open>
  \<open>internal/domain/rooms\<close>: group and direct rooms over a room repository and an optional
  publisher. The locale \<open>room_environment\<close> is the service over a repository and a publisher
  whose calls stay within a relation on the state: every operation of the service then stays
  within it too.
\<close>

section \<open>Interfaces and state\<close>

record room_member_input =
  rmi_UserID :: string
  rmi_Role :: room_role

record create_room_input =
  cri_Name :: string
  cri_IsGroup :: bool
  cri_CreatorID :: string
  cri_Members :: "room_member_input list"

text \<open>The \<open>roomRepository\<close> interface; \<open>Create\<close> fills in the fields of its room.\<close>

record 'w room_repository =
  rr_Create :: "room \<Rightarrow> room_member list \<Rightarrow> ('w, err option \<times> room) io"
  rr_AddMember :: "room_member \<Rightarrow> ('w, err option) io"
  rr_RemoveMember :: "string \<Rightarrow> string \<Rightarrow> ('w, err option) io"
  rr_ListMembers :: "string \<Rightarrow> ('w, err + room_member list) io"
  rr_Search :: "string \<Rightarrow> string \<Rightarrow> int \<Rightarrow> ('w, err + room list) io"
  rr_FindDirectRoom :: "string \<Rightarrow> string \<Rightarrow> ('w, err + room) io"
  rr_GetByID :: "string \<Rightarrow> ('w, err + room) io"
  rr_Delete :: "string \<Rightarrow> ('w, err option) io"

record 'w room_service =
  rs_repo :: "'w room_repository"
  rs_pub :: "'w publisher option"
  rs_rt :: "'w runtime"

definition NewRoomService ::
  "'w runtime \<Rightarrow> 'w room_repository \<Rightarrow> 'w publisher option \<Rightarrow> 'w room_service" where
  "NewRoomService rt repo pub = \<lparr>rs_repo = repo, rs_pub = pub, rs_rt = rt\<rparr>"

definition room_defaultSearchLimit :: int where "room_defaultSearchLimit = 20"
definition room_maxSearchLimit :: int where "room_maxSearchLimit = 100"

definition room_id_required :: err where "room_id_required = NewErr ''rooms: room id is required''"

section \<open>Helpers\<close>

definition normalizePair :: "string \<Rightarrow> string \<Rightarrow> string \<times> string" where
  "normalizePair a b = (if a < b then (a, b) else (b, a))"

definition new_member :: "string \<Rightarrow> room_role \<Rightarrow> room_member" where
  "new_member userID role = \<lparr>mem_ID = [], mem_RoomID = [], mem_UserID = userID, mem_Role = role\<rparr>"

text \<open>The loop of \<open>buildMembers\<close>: the entries of the map \<open>seen\<close>, in the order of insertion.\<close>

fun collect_members :: "room_member list \<Rightarrow> room_member_input list \<Rightarrow> room_member list" where
  "collect_members seen [] = seen"
| "collect_members seen (m # ms) =
     (let userID = TrimSpace (rmi_UserID m) in
      if userID = [] then collect_members seen ms
      else
        (let role = (if rmi_Role m = [] then RoomRoleMember else rmi_Role m) in
         if userID \<in> set (map mem_UserID seen) then collect_members seen ms
         else collect_members (seen @ [new_member userID role]) ms))"

text \<open>The members in the order of the iteration over the map, which \<open>rank\<close> gives.\<close>

definition buildMembers :: "(string \<Rightarrow> nat) \<Rightarrow> create_room_input \<Rightarrow> room_member list" where
  "buildMembers rank input =
     sort_key (\<lambda>m. rank (mem_UserID m))
       (collect_members [new_member (cri_CreatorID input) RoomRoleAdmin] (cri_Members input))"

definition userChannel :: "string \<Rightarrow> string" where
  "userChannel userID = ''users:'' @ userID @ '':events''"

definition room_added_json :: "(time \<Rightarrow> string) \<Rightarrow> room \<Rightarrow> json" where
  "room_added_json fmt room =
     JObj [(''data'', room_json fmt room), (''event'', JStr ''room_added'')]"

definition publishRoomAdded ::
  "'w room_service \<Rightarrow> 'w publisher \<Rightarrow> room \<Rightarrow> string \<Rightarrow> ('w, err option) io" where
  "publishRoomAdded s pub room userID w =
     pub (userChannel userID) (room_added_json (rt_fmt_time (rs_rt s)) room) w"

text \<open>The errors of the announcements are discarded.\<close>

fun announce_members ::
  "'w room_service \<Rightarrow> 'w publisher \<Rightarrow> room \<Rightarrow> room_member list \<Rightarrow> ('w, unit) io" where
  "announce_members s pub room [] w = ((), w)"
| "announce_members s pub room (m # ms) w =
     (case publishRoomAdded s pub room (mem_UserID m) w of (_, w1) \<Rightarrow>
        announce_members s pub room ms w1)"

section \<open>Operations\<close>

definition room_Create :: "'w room_service \<Rightarrow> create_room_input \<Rightarrow> ('w, err + room) io" where
  "room_Create s input w =
     (let name = TrimSpace (cri_Name input) in
      if name = [] then (Inl (RoomErr ErrInvalidRoomName), w)
      else if blank (cri_CreatorID input) then (Inl (RoomErr ErrInvalidCreatorID), w)
      else
        (let room = \<lparr>rm_ID = [], rm_Name = name, rm_IsGroup = cri_IsGroup input,
                     rm_CreatedBy = cri_CreatorID input, rm_CreatedAt = 0\<rparr>;
             members = buildMembers (rt_map_rank (rs_rt s) w) input in
         if members = [] then (Inl (NewErr ''rooms: at least creator must be a member''), w)
         else case rr_Create (rs_repo s) room members w of
           ((Some e, _), w1) \<Rightarrow> (Inl e, w1)
         | ((None, room'), w1) \<Rightarrow>
             (case rs_pub s of
                None \<Rightarrow> (Inr room', w1)
              | Some pub \<Rightarrow>
                  (case announce_members s pub room' members w1 of (_, w2) \<Rightarrow> (Inr room', w2)))))"

definition room_AddMember ::
  "'w room_service \<Rightarrow> string \<Rightarrow> string \<Rightarrow> room_role \<Rightarrow> ('w, err option) io" where
  "room_AddMember s roomID userID role w =
     (if blank roomID then (Some room_id_required, w)
      else if blank userID then (Some (RoomErr ErrInvalidMemberUser), w)
      else
        (let member = \<lparr>mem_ID = [], mem_RoomID = roomID, mem_UserID = userID,
                       mem_Role = (if role = [] then RoomRoleMember else role)\<rparr> in
         case rr_AddMember (rs_repo s) member w of
           (Some e, w1) \<Rightarrow> (Some e, w1)
         | (None, w1) \<Rightarrow>
             (case rs_pub s of
                None \<Rightarrow> (None, w1)
              | Some pub \<Rightarrow>
                  (case rr_GetByID (rs_repo s) roomID w1 of
                     (Inl e, w2) \<Rightarrow> (None, w2)
                   | (Inr room, w2) \<Rightarrow>
                       (case publishRoomAdded s pub room userID w2 of (_, w3) \<Rightarrow> (None, w3))))))"

definition room_RemoveMember ::
  "'w room_service \<Rightarrow> string \<Rightarrow> string \<Rightarrow> ('w, err option) io" where
  "room_RemoveMember s roomID userID w =
     (if blank roomID then (Some room_id_required, w)
      else if blank userID then (Some (RoomErr ErrInvalidMemberUser), w)
      else rr_RemoveMember (rs_repo s) roomID userID w)"

definition room_ListMembers ::
  "'w room_service \<Rightarrow> string \<Rightarrow> ('w, err + room_member list) io" where
  "room_ListMembers s roomID w =
     (if blank roomID then (Inl room_id_required, w) else rr_ListMembers (rs_repo s) roomID w)"

definition room_search_limit :: "int \<Rightarrow> int" where
  "room_search_limit limit =
     (let l = (if limit \<le> 0 then room_defaultSearchLimit else limit)
      in if l > room_maxSearchLimit then room_maxSearchLimit else l)"

definition room_Search ::
  "'w room_service \<Rightarrow> string \<Rightarrow> string \<Rightarrow> int \<Rightarrow> ('w, err + room list) io" where
  "room_Search s userID0 query limit w =
     (let userID = TrimSpace userID0 in
      if userID = [] then (Inl (RoomErr ErrRoomInvalidUserID), w)
      else rr_Search (rs_repo s) userID (TrimSpace query) (room_search_limit limit) w)"

definition direct_room_input :: "string \<Rightarrow> string \<Rightarrow> create_room_input" where
  "direct_room_input userA userB =
     (case normalizePair userA userB of (primary, secondary) \<Rightarrow>
        \<lparr>cri_Name = ''dm:'' @ primary @ '':'' @ secondary, cri_IsGroup = False,
         cri_CreatorID = userA,
         cri_Members = [\<lparr>rmi_UserID = userB, rmi_Role = RoomRoleMember\<rparr>]\<rparr>)"

definition room_EnsureDirectRoom ::
  "'w room_service \<Rightarrow> string \<Rightarrow> string \<Rightarrow> ('w, err + room \<times> bool) io" where
  "room_EnsureDirectRoom s userA0 userB0 w =
     (let userA = TrimSpace userA0; userB = TrimSpace userB0 in
      if userA = [] \<or> userB = [] then (Inl (RoomErr ErrRoomInvalidUserID), w)
      else if userA = userB then (Inl (RoomErr ErrDirectMessageSelf), w)
      else case normalizePair userA userB of (primary, secondary) \<Rightarrow>
        (case rr_FindDirectRoom (rs_repo s) primary secondary w of
           (Inr room, w1) \<Rightarrow> (Inr (room, False), w1)
         | (Inl e, w1) \<Rightarrow>
             if e \<noteq> ErrNoRows then (Inl e, w1)
             else (case room_Create s (direct_room_input userA userB) w1 of
                     (Inl e, w2) \<Rightarrow> (Inl e, w2)
                   | (Inr room, w2) \<Rightarrow> (Inr (room, True), w2))))"

definition room_Delete :: "'w room_service \<Rightarrow> string \<Rightarrow> string \<Rightarrow> ('w, err option) io" where
  "room_Delete s roomID0 requesterID0 w =
     (let roomID = TrimSpace roomID0; requesterID = TrimSpace requesterID0 in
      if roomID = [] then (Some room_id_required, w)
      else if requesterID = [] then (Some (RoomErr ErrRoomInvalidUserID), w)
      else case rr_GetByID (rs_repo s) roomID w of
        (Inl e, w1) \<Rightarrow> (Some (if e = ErrNoRows then RoomErr ErrRoomNotFound else e), w1)
      | (Inr room, w1) \<Rightarrow>
          if rm_CreatedBy room \<noteq> requesterID then (Some (RoomErr ErrRoomDeleteNotAllowed), w1)
          else (case rr_Delete (rs_repo s) roomID w1 of
                  (Some e, w2) \<Rightarrow> (Some (if e = ErrNoRows then RoomErr ErrRoomNotFound else e), w2)
                | (None, w2) \<Rightarrow> (None, w2)))"

section \<open>The members of a new room\<close>

lemma new_member_UserID [simp]: "mem_UserID (new_member u r) = u"
  by (simp add: new_member_def)

lemma collect_members_extends: "\<exists>zs. collect_members seen ms = seen @ zs"
proof (induction ms arbitrary: seen)
  case (Cons m ms)
  then show ?case by (simp add: Let_def) (metis append.assoc)
qed simp

lemma collect_members_distinct:
  "distinct (map mem_UserID seen) \<Longrightarrow> distinct (map mem_UserID (collect_members seen ms))"
  by (induction ms arbitrary: seen) (auto simp: Let_def new_member_def)

lemma collect_members_users:
  "set (map mem_UserID (collect_members seen ms)) =
   set (map mem_UserID seen) \<union> {u. u \<noteq> [] \<and> (\<exists>m \<in> set ms. u = TrimSpace (rmi_UserID m))}"
  by (induction ms arbitrary: seen) (auto simp: Let_def new_member_def)

lemma buildMembers_distinct: "distinct (map mem_UserID (buildMembers rank input))"
proof -
  let ?c = "collect_members [new_member (cri_CreatorID input) RoomRoleAdmin] (cri_Members input)"
  have "distinct (map mem_UserID ?c)" by (rule collect_members_distinct) simp
  then have "distinct ?c \<and> inj_on mem_UserID (set ?c)" by (simp add: distinct_map)
  then show ?thesis by (simp add: buildMembers_def distinct_map)
qed

lemma buildMembers_users:
  "mem_UserID ` set (buildMembers rank input) =
   insert (cri_CreatorID input)
     {u. u \<noteq> [] \<and> (\<exists>m \<in> set (cri_Members input). u = TrimSpace (rmi_UserID m))}"
  using collect_members_users[of "[new_member (cri_CreatorID input) RoomRoleAdmin]" "cri_Members input"]
  by (simp add: buildMembers_def new_member_def)

lemma buildMembers_creator:
  "new_member (cri_CreatorID input) RoomRoleAdmin \<in> set (buildMembers rank input)"
  using collect_members_extends[of "[new_member (cri_CreatorID input) RoomRoleAdmin]" "cri_Members input"]
  by (auto simp: buildMembers_def)

lemma buildMembers_nonempty [simp]: "buildMembers rank input \<noteq> []"
  using buildMembers_creator by (metis empty_iff empty_set)

text \<open>The role of a member is the one of the first input with that id.\<close>

lemma collect_members_first:
  assumes "role = (if rmi_Role m = [] then RoomRoleMember else rmi_Role m)"
    and "u \<notin> set (map mem_UserID seen)" and "u \<noteq> []"
    and "TrimSpace (rmi_UserID m) = u" and "\<forall>x \<in> set pre. TrimSpace (rmi_UserID x) \<noteq> u"
  shows "new_member u role \<in> set (collect_members seen (pre @ m # post))"
  using assms(2-)
proof (induction pre arbitrary: seen)
  case Nil
  then show ?case
    using collect_members_extends[of "seen @ [new_member u role]" post]
    by (auto simp: Let_def assms(1))
next
  case (Cons x pre)
  then have "u \<noteq> TrimSpace (rmi_UserID x)" by auto
  with Cons show ?case by (simp add: Let_def)
qed

lemma normalizePair_commute: "normalizePair a b = normalizePair b a"
  by (auto simp: normalizePair_def)

lemma normalizePair_set: "normalizePair a b = (p, q) \<Longrightarrow> {p, q} = {a, b}"
  by (auto simp: normalizePair_def split: if_splits)

lemma room_search_limit_bounds: "1 \<le> room_search_limit n \<and> room_search_limit n \<le> 100"
  by (simp add: room_search_limit_def room_defaultSearchLimit_def room_maxSearchLimit_def Let_def)

section \<open>The service over a repository\<close>

locale room_environment = step_relation R for R :: "'w \<Rightarrow> 'w \<Rightarrow> bool" +
  fixes s :: "'w room_service"
  assumes repo_Create: "within R (rr_Create (rs_repo s) room members)"
    and repo_AddMember: "within R (rr_AddMember (rs_repo s) member)"
    and repo_RemoveMember: "within R (rr_RemoveMember (rs_repo s) i u)"
    and repo_ListMembers: "within R (rr_ListMembers (rs_repo s) i)"
    and repo_Search: "within R (rr_Search (rs_repo s) u q l)"
    and repo_FindDirectRoom: "within R (rr_FindDirectRoom (rs_repo s) a b)"
    and repo_GetByID: "within R (rr_GetByID (rs_repo s) i)"
    and repo_Delete: "within R (rr_Delete (rs_repo s) i)"
    and pub_Publish: "rs_pub s = Some pub \<Longrightarrow> within R (publishRoomAdded s pub room u)"
begin

lemmas repo_within = repo_Create repo_AddMember repo_RemoveMember repo_ListMembers repo_Search
  repo_FindDirectRoom repo_GetByID repo_Delete

lemma announce_within: "rs_pub s = Some pub \<Longrightarrow> R w (snd (announce_members s pub room ms w))"
proof (induction ms arbitrary: w)
  case (Cons m ms)
  obtain r w1 where 1: "publishRoomAdded s pub room (mem_UserID m) w = (r, w1)" by fastforce
  from withinD[OF pub_Publish[OF Cons.prems] 1] have "R w w1" .
  with Cons 1 show ?case by (auto intro: R_trans)
qed (simp add: R_refl)

lemma Create_within: "within R (room_Create s input)"
proof (rule withinI)
  fix w r w' assume "room_Create s input w = (r, w')"
  then show "R w w'"
    by (auto simp: room_Create_def Let_def R_refl
        split: if_splits prod.splits option.splits
        dest!: withinD[OF repo_Create])
      (metis R_trans announce_within snd_conv)
qed

lemma publish_within:
  "rs_pub s = Some pub \<Longrightarrow> publishRoomAdded s pub room u w = (r, w') \<Longrightarrow> R w w'"
  by (rule withinD[OF pub_Publish])

lemma AddMember_within: "within R (room_AddMember s i u role)"
proof (rule withinI)
  fix w r w' assume "room_AddMember s i u role w = (r, w')"
  then show "R w w'"
    by (auto simp: room_AddMember_def Let_def R_refl
        split: if_splits prod.splits option.splits sum.splits
        dest!: withinD[OF repo_AddMember] withinD[OF repo_GetByID] publish_within
        intro: R_trans)
qed

lemma RemoveMember_within: "within R (room_RemoveMember s i u)"
  using repo_RemoveMember by (simp add: within_def room_RemoveMember_def R_refl)

lemma ListMembers_within: "within R (room_ListMembers s i)"
  using repo_ListMembers by (simp add: within_def room_ListMembers_def R_refl)

lemma Search_within: "within R (room_Search s u q l)"
  using repo_Search by (simp add: within_def room_Search_def R_refl Let_def)

lemma EnsureDirectRoom_within: "within R (room_EnsureDirectRoom s a b)"
proof (rule withinI)
  fix w r w' assume "room_EnsureDirectRoom s a b w = (r, w')"
  then show "R w w'"
    by (auto simp: room_EnsureDirectRoom_def Let_def R_refl
        split: if_splits prod.splits sum.splits
        dest!: withinD[OF repo_FindDirectRoom] withinD[OF Create_within] intro: R_trans)
qed

lemma Delete_within: "within R (room_Delete s i u)"
proof (rule withinI)
  fix w r w' assume "room_Delete s i u w = (r, w')"
  then show "R w w'"
    by (auto simp: room_Delete_def Let_def R_refl
        split: if_splits prod.splits sum.splits option.splits
        dest!: withinD[OF repo_GetByID] withinD[OF repo_Delete] intro: R_trans)
qed

lemmas room_within = Create_within AddMember_within RemoveMember_within ListMembers_within
  Search_within EnsureDirectRoom_within Delete_within

end

end
