(* ===== verification/Message_Service.thy ===== *)
theory Message_Service
  imports Steps Json Redis_Adapter
begin

text \<open>
  \<open>internal/domain/messages\<close>: sending, listing, acknowledging, searching, editing and deleting
  messages over a message repository and an optional publisher. As for rooms, the locale
  \<open>message_environment\<close> carries a relation every call of the repository and the publisher
  respects to the operations of the service.
\<close>

section \<open>Interfaces and state\<close>

record send_message_input =
  smi_RoomID :: string
  smi_SenderID :: string
  smi_Content :: string
  smi_Attachments :: "attachment list"

record 'w message_repository =
  mr_Create :: "message \<Rightarrow> ('w, err option \<times> message) io"
  mr_ListByRoom :: "string \<Rightarrow> int \<Rightarrow> int \<Rightarrow> ('w, err + message list) io"
  mr_ListAround :: "string \<Rightarrow> string \<Rightarrow> int \<Rightarrow> int \<Rightarrow> ('w, err + message list) io"
  mr_UpdateStatus :: "string \<Rightarrow> message_status \<Rightarrow> ('w, err option) io"
  mr_UpsertReceipt :: "message_receipt \<Rightarrow> ('w, err option) io"
  mr_Search :: "string \<Rightarrow> string \<Rightarrow> string \<Rightarrow> int \<Rightarrow> ('w, err + message list) io"
  mr_GetByID :: "string \<Rightarrow> ('w, err + message) io"
  mr_UpdateContent :: "string \<Rightarrow> string \<Rightarrow> ('w, err + message) io"
  mr_Delete :: "string \<Rightarrow> ('w, err option) io"

record 'w message_service =
  ms_repo :: "'w message_repository"
  ms_pub :: "'w publisher option"
  ms_rt :: "'w runtime"

definition NewMessageService ::
  "'w runtime \<Rightarrow> 'w message_repository \<Rightarrow> 'w publisher option \<Rightarrow> 'w message_service" where
  "NewMessageService rt repo pub = \<lparr>ms_repo = repo, ms_pub = pub, ms_rt = rt\<rparr>"

definition defaultListLimit :: int where "defaultListLimit = 50"
definition message_maxSearchLimit :: int where "message_maxSearchLimit = 100"

section \<open>Publishing\<close>

definition roomChannel :: "string \<Rightarrow> string" where
  "roomChannel roomID = ''rooms:'' @ roomID @ '':messages''"

definition publishRoomEvent :: "'w publisher \<Rightarrow> string \<Rightarrow> json \<Rightarrow> ('w, err option) io" where
  "publishRoomEvent pub roomID payload w = pub (roomChannel roomID) payload w"

text \<open>\<open>if s.pub != nil { if err := s.publishRoomEvent(...) ... }\<close> before returning \<open>result\<close>.\<close>

definition publish_then ::
  "'w message_service \<Rightarrow> string \<Rightarrow> json \<Rightarrow> message \<Rightarrow> ('w, err + message) io" where
  "publish_then s roomID payload result w =
     (case ms_pub s of
        None \<Rightarrow> (Inr result, w)
      | Some pub \<Rightarrow>
          (case publishRoomEvent pub roomID payload w of
             (Some e, w1) \<Rightarrow> (Inl e, w1)
           | (None, w1) \<Rightarrow> (Inr result, w1)))"

definition deleted_json :: "message \<Rightarrow> json" where
  "deleted_json msg =
     JObj [(''message'', JObj [(''id'', JStr (msg_ID msg)), (''room_id'', JStr (msg_RoomID msg))]),
           (''type'', JStr ''message.deleted'')]"

section \<open>Operations\<close>

definition message_Send ::
  "'w message_service \<Rightarrow> send_message_input \<Rightarrow> ('w, err + message) io" where
  "message_Send s payload w =
     (if blank (smi_RoomID payload) then (Inl (MsgErr ErrInvalidRoomID), w)
      else if blank (smi_SenderID payload) then (Inl (MsgErr ErrInvalidSenderID), w)
      else if blank (smi_Content payload) \<and> smi_Attachments payload = []
      then (Inl (MsgErr ErrInvalidContent), w)
      else
        (let msg = \<lparr>msg_ID = [], msg_RoomID = smi_RoomID payload, msg_SenderID = smi_SenderID payload,
                    msg_Content = TrimSpace (smi_Content payload),
                    msg_Attachments = smi_Attachments payload, msg_Status = MessageStatusSent,
                    msg_CreatedAt = 0, msg_UpdatedAt = 0\<rparr> in
         case mr_Create (ms_repo s) msg w of
           ((Some e, _), w1) \<Rightarrow> (Inl e, w1)
         | ((None, msg'), w1) \<Rightarrow>
             publish_then s (msg_RoomID msg') (message_json (rt_fmt_time (ms_rt s)) msg') msg' w1))"

definition list_limit :: "int \<Rightarrow> int" where
  "list_limit limit = (if limit \<le> 0 then defaultListLimit else limit)"

definition list_offset :: "int \<Rightarrow> int \<Rightarrow> int" where
  "list_offset page limit = wrap64 (wrap64 ((if page \<le> 0 then 1 else page) - 1) * limit)"

definition message_ListByRoom ::
  "'w message_service \<Rightarrow> string \<Rightarrow> int \<Rightarrow> int \<Rightarrow> ('w, err + message list) io" where
  "message_ListByRoom s roomID page limit0 w =
     (if blank roomID then (Inl (MsgErr ErrInvalidRoomID), w)
      else
        (let limit = list_limit limit0
         in mr_ListByRoom (ms_repo s) roomID limit (list_offset page limit) w))"

definition around_before :: "int \<Rightarrow> int" where
  "around_before limit = trunc_div limit 2"

definition around_after :: "int \<Rightarrow> int" where
  "around_after limit =
     (let after = wrap64 (limit - around_before limit - 1) in if after < 0 then 0 else after)"

definition message_ListAround ::
  "'w message_service \<Rightarrow> string \<Rightarrow> string \<Rightarrow> int \<Rightarrow> ('w, err + message list) io" where
  "message_ListAround s roomID0 messageID0 limit0 w =
     (let roomID = TrimSpace roomID0; messageID = TrimSpace messageID0; limit = list_limit limit0 in
      if roomID = [] then (Inl (MsgErr ErrInvalidRoomID), w)
      else if messageID = [] then (Inl (MsgErr ErrInvalidMessageID), w)
      else mr_ListAround (ms_repo s) roomID messageID (around_before limit) (around_after limit) w)"

definition message_MarkDelivered ::
  "'w message_service \<Rightarrow> string \<Rightarrow> string \<Rightarrow> ('w, err option) io" where
  "message_MarkDelivered s messageID userID w =
     (if blank messageID then (Some (MsgErr ErrInvalidMessageID), w)
      else if blank userID then (Some (MsgErr ErrInvalidUserID), w)
      else case mr_UpsertReceipt (ms_repo s)
             \<lparr>rcp_ID = [], rcp_MessageID = messageID, rcp_UserID = userID,
              rcp_Status = MessageStatusDelivered, rcp_SeenAt = None\<rparr> w of
        (Some e, w1) \<Rightarrow> (Some e, w1)
      | (None, w1) \<Rightarrow> mr_UpdateStatus (ms_repo s) messageID MessageStatusDelivered w1)"

definition message_MarkRead ::
  "'w message_service \<Rightarrow> string \<Rightarrow> string \<Rightarrow> ('w, err option) io" where
  "message_MarkRead s messageID userID w =
     (if blank messageID then (Some (MsgErr ErrInvalidMessageID), w)
      else if blank userID then (Some (MsgErr ErrInvalidUserID), w)
      else case rt_now (ms_rt s) w of (seenAt, w1) \<Rightarrow>
        (case mr_UpsertReceipt (ms_repo s)
             \<lparr>rcp_ID = [], rcp_MessageID = messageID, rcp_UserID = userID,
              rcp_Status = MessageStatusRead, rcp_SeenAt = Some seenAt\<rparr> w1 of
           (Some e, w2) \<Rightarrow> (Some e, w2)
         | (None, w2) \<Rightarrow> mr_UpdateStatus (ms_repo s) messageID MessageStatusRead w2))"

definition message_search_limit :: "int \<Rightarrow> int" where
  "message_search_limit limit =
     (let l = list_limit limit
      in if l > message_maxSearchLimit then message_maxSearchLimit else l)"

definition message_Search ::
  "'w message_service \<Rightarrow> string \<Rightarrow> string \<Rightarrow> string \<Rightarrow> int \<Rightarrow> ('w, err + message list) io" where
  "message_Search s userID0 roomID query0 limit w =
     (let userID = TrimSpace userID0; query = TrimSpace query0 in
      if userID = [] then (Inl (MsgErr ErrInvalidUserID), w)
      else if query = [] then (Inl (MsgErr ErrInvalidSearch), w)
      else mr_Search (ms_repo s) userID (TrimSpace roomID) query (message_search_limit limit) w)"

text \<open>The lookup that opens \<open>Edit\<close> and \<open>Delete\<close>, with the check of the sender.\<close>

definition own_message ::
  "'w message_service \<Rightarrow> string \<Rightarrow> string \<Rightarrow> message_error \<Rightarrow> ('w, err + message) io" where
  "own_message s messageID userID denied w =
     (case mr_GetByID (ms_repo s) messageID w of
        (Inl e, w1) \<Rightarrow> (Inl (if e = ErrNoRows then MsgErr ErrMessageNotFound else e), w1)
      | (Inr msg, w1) \<Rightarrow>
          if msg_SenderID msg \<noteq> userID then (Inl (MsgErr denied), w1) else (Inr msg, w1))"

definition message_Edit ::
  "'w message_service \<Rightarrow> string \<Rightarrow> string \<Rightarrow> string \<Rightarrow> ('w, err + message) io" where
  "message_Edit s messageID0 userID0 content0 w =
     (let messageID = TrimSpace messageID0; userID = TrimSpace userID0;
          content = TrimSpace content0 in
      if messageID = [] then (Inl (MsgErr ErrInvalidMessageID), w)
      else if userID = [] then (Inl (MsgErr ErrInvalidUserID), w)
      else if content = [] then (Inl (MsgErr ErrInvalidContent), w)
      else case own_message s messageID userID ErrEditNotAllowed w of
        (Inl e, w1) \<Rightarrow> (Inl e, w1)
      | (Inr _, w1) \<Rightarrow>
          (case mr_UpdateContent (ms_repo s) messageID content w1 of
             (Inl e, w2) \<Rightarrow> (Inl e, w2)
           | (Inr updated, w2) \<Rightarrow>
               publish_then s (msg_RoomID updated)
                 (message_json (rt_fmt_time (ms_rt s)) updated) updated w2))"

definition message_Delete ::
  "'w message_service \<Rightarrow> string \<Rightarrow> string \<Rightarrow> ('w, err + message) io" where
  "message_Delete s messageID0 userID0 w =
     (let messageID = TrimSpace messageID0; userID = TrimSpace userID0 in
      if messageID = [] then (Inl (MsgErr ErrInvalidMessageID), w)
      else if userID = [] then (Inl (MsgErr ErrInvalidUserID), w)
      else case own_message s messageID userID ErrDeleteNotAllowed w of
        (Inl e, w1) \<Rightarrow> (Inl e, w1)
      | (Inr msg, w1) \<Rightarrow>
          (case mr_Delete (ms_repo s) messageID w1 of
             (Some e, w2) \<Rightarrow> (Inl e, w2)
           | (None, w2) \<Rightarrow> publish_then s (msg_RoomID msg) (deleted_json msg) msg w2))"

section \<open>Limits and offsets\<close>

lemma list_limit_pos: "0 < list_limit n"
  by (simp add: list_limit_def defaultListLimit_def)

lemma list_limit_range: "in_int64 n \<Longrightarrow> in_int64 (list_limit n)"
  by (simp add: list_limit_def defaultListLimit_def in_int64_def)

lemma message_search_limit_bounds: "1 \<le> message_search_limit n \<and> message_search_limit n \<le> 100"
  using list_limit_pos[of n] by (auto simp: message_search_limit_def message_maxSearchLimit_def Let_def)

lemma around_split:
  assumes "0 < limit" and "in_int64 limit"
  shows "0 \<le> around_before limit" and "0 \<le> around_after limit"
    and "around_before limit + 1 + around_after limit = limit"
proof -
  have b: "around_before limit = limit div 2"
    using assms(1) by (simp add: around_before_def trunc_div_nonneg)
  have r: "0 \<le> limit - limit div 2 - 1" "limit - limit div 2 - 1 < 2 ^ 63"
    using assms by (auto simp: in_int64_def)
  have a: "around_after limit = limit - limit div 2 - 1"
    unfolding around_after_def b Let_def wrap64_small[OF r] using r(1) by simp
  show "0 \<le> around_before limit" "0 \<le> around_after limit"
    "around_before limit + 1 + around_after limit = limit"
    using assms r a b by auto
qed

lemma list_offset_exact:
  assumes "1 \<le> page" and "0 < limit" and "(page - 1) * limit < 2 ^ 63"
  shows "list_offset page limit = (page - 1) * limit"
proof -
  have "page - 1 \<le> (page - 1) * limit" using assms by (simp add: mult_le_cancel_left1)
  with assms have "wrap64 (page - 1) = page - 1" by (intro wrap64_small) auto
  with assms show ?thesis by (simp add: list_offset_def wrap64_small)
qed

section \<open>The service over a repository\<close>

locale message_environment = step_relation R for R :: "'w \<Rightarrow> 'w \<Rightarrow> bool" +
  fixes s :: "'w message_service"
  assumes mrepo_Create: "within R (mr_Create (ms_repo s) m)"
    and mrepo_ListByRoom: "within R (mr_ListByRoom (ms_repo s) i l off)"
    and mrepo_ListAround: "within R (mr_ListAround (ms_repo s) i j a b)"
    and mrepo_UpdateStatus: "within R (mr_UpdateStatus (ms_repo s) i st)"
    and mrepo_UpsertReceipt: "within R (mr_UpsertReceipt (ms_repo s) r)"
    and mrepo_Search: "within R (mr_Search (ms_repo s) u i q l)"
    and mrepo_GetByID: "within R (mr_GetByID (ms_repo s) i)"
    and mrepo_UpdateContent: "within R (mr_UpdateContent (ms_repo s) i c)"
    and mrepo_Delete: "within R (mr_Delete (ms_repo s) i)"
    and mpub_Publish: "ms_pub s = Some pub \<Longrightarrow> within R (publishRoomEvent pub i payload)"
    and clock_now: "within R (rt_now (ms_rt s))"
begin

lemma publish_then_within: "within R (publish_then s i j m)"
proof (rule withinI)
  fix w r w' assume "publish_then s i j m w = (r, w')"
  then show "R w w'"
    by (auto simp: publish_then_def R_refl split: prod.splits option.splits
        dest: withinD[OF mpub_Publish])
qed

lemma own_message_within: "within R (own_message s i u d)"
proof (rule withinI)
  fix w r w' assume "own_message s i u d w = (r, w')"
  then show "R w w'"
    by (auto simp: own_message_def R_refl split: if_splits prod.splits sum.splits
        dest!: withinD[OF mrepo_GetByID])
qed

lemma Send_within: "within R (message_Send s p)"
proof (rule withinI)
  fix w r w' assume "message_Send s p w = (r, w')"
  then show "R w w'"
    by (auto simp: message_Send_def Let_def R_refl split: if_splits prod.splits option.splits
        dest!: withinD[OF mrepo_Create] withinD[OF publish_then_within] intro: R_trans)
qed

lemma ListByRoom_within: "within R (message_ListByRoom s i p l)"
  using mrepo_ListByRoom by (simp add: within_def message_ListByRoom_def R_refl Let_def)

lemma ListAround_within: "within R (message_ListAround s i j l)"
  using mrepo_ListAround by (simp add: within_def message_ListAround_def R_refl Let_def)

lemma MarkDelivered_within: "within R (message_MarkDelivered s i u)"
proof (rule withinI)
  fix w r w' assume "message_MarkDelivered s i u w = (r, w')"
  then show "R w w'"
    by (auto simp: message_MarkDelivered_def R_refl split: if_splits prod.splits option.splits
        dest!: withinD[OF mrepo_UpsertReceipt] withinD[OF mrepo_UpdateStatus] intro: R_trans)
qed

lemma MarkRead_within: "within R (message_MarkRead s i u)"
proof (rule withinI)
  fix w r w' assume "message_MarkRead s i u w = (r, w')"
  then show "R w w'"
    by (auto simp: message_MarkRead_def R_refl split: if_splits prod.splits option.splits
        dest!: withinD[OF clock_now] withinD[OF mrepo_UpsertReceipt] withinD[OF mrepo_UpdateStatus]
        intro: R_trans)
qed

lemma Search_within: "within R (message_Search s u i q l)"
  using mrepo_Search by (simp add: within_def message_Search_def R_refl Let_def)

lemma Edit_within: "within R (message_Edit s i u c)"
proof (rule withinI)
  fix w r w' assume "message_Edit s i u c w = (r, w')"
  then show "R w w'"
    by (auto simp: message_Edit_def Let_def R_refl split: if_splits prod.splits sum.splits
        dest!: withinD[OF own_message_within] withinD[OF mrepo_UpdateContent]
          withinD[OF publish_then_within] intro: R_trans)
qed

lemma Delete_within: "within R (message_Delete s i u)"
proof (rule withinI)
  fix w r w' assume "message_Delete s i u w = (r, w')"
  then show "R w w'"
    by (auto simp: message_Delete_def Let_def R_refl split: if_splits prod.splits sum.splits option.splits
        dest!: withinD[OF own_message_within] withinD[OF mrepo_Delete]
          withinD[OF publish_then_within] intro: R_trans)
qed

lemmas message_within = Send_within ListByRoom_within ListAround_within MarkDelivered_within
  MarkRead_within Search_within Edit_within Delete_within

end

end
