(* ===== verification/Database.thy ===== *)
theory Database
  imports World
begin

text \<open>
  The tables of \<open>db/migrations/0001_init.up.sql\<close> and the SQL statements the repositories
  send, as functions on the tables: what each selects, inserts, updates or deletes, the
  uniqueness and foreign-key constraints it can violate (with the constraint names Postgres
  gives them) and the rows its \<open>ON DELETE CASCADE\<close> takes along. A statement that violates a
  constraint changes nothing. \<open>wf_db\<close> says that the constraints hold, and every statement
  keeps it.
\<close>

section \<open>Requests\<close>

type_synonym 'a stmt = "database \<Rightarrow> (err + 'a) \<times> database"

text \<open>A failed connection is not reported as \<open>pgx.ErrNoRows\<close>.\<close>

definition conn_err :: "err \<Rightarrow> err" where
  "conn_err e = (if e = ErrNoRows then ExtErr ''conn closed'' else e)"

text \<open>
  One request of the pool (\<open>Exec\<close>, \<open>Query\<close>, \<open>QueryRow\<close>): carried out, lost before the server
  acts, or acted upon with the answer lost.
\<close>

definition pg_call :: "env \<Rightarrow> 'a stmt \<Rightarrow> (world, err + 'a) io" where
  "pg_call E f w =
     (let w' = pass E w in
      case pg_fate E (w_tick w) of
        LostRequest e \<Rightarrow> (Inl (conn_err e), w')
      | LostReply e \<Rightarrow> (Inl (conn_err e), w'\<lparr>w_db := snd (f (w_db w))\<rparr>)
      | Done \<Rightarrow> (case f (w_db w) of (r, d) \<Rightarrow> (r, w'\<lparr>w_db := d\<rparr>)))"

text \<open>A request of an open transaction works on the transaction's own view \<open>d\<close>.\<close>

definition tx_call :: "env \<Rightarrow> 'a stmt \<Rightarrow> database \<Rightarrow> world \<Rightarrow> ((err + 'a) \<times> database) \<times> world" where
  "tx_call E f d w =
     (let w' = pass E w in
      case pg_fate E (w_tick w) of
        LostRequest e \<Rightarrow> ((Inl (conn_err e), d), w')
      | LostReply e \<Rightarrow> ((Inl (conn_err e), d), w')
      | Done \<Rightarrow> (f d, w'))"

lemma pg_call_frame [frame]:
  "w_keys (snd (pg_call E f w)) = w_keys w" "w_wall w \<le> w_wall (snd (pg_call E f w))"
  "w_log (snd (pg_call E f w)) = w_log w"
  by (simp_all add: pg_call_def Let_def split: fate.split prod.split)

lemma pg_call_cases:
  assumes "pg_call E f w = (r, w')"
  obtains (lost) e where "r = Inl e" "w_db w' = w_db w"
    | (lost_reply) e where "r = Inl e" "w_db w' = snd (f (w_db w))"
    | (carried_out) "r = fst (f (w_db w))" "w_db w' = snd (f (w_db w))"
  using assms by (auto simp: pg_call_def Let_def split: fate.splits prod.splits)

lemma pg_call_db:
  "pg_call E f w = (r, w') \<Longrightarrow> w_db w' = w_db w \<or> w_db w' = snd (f (w_db w))"
  by (erule pg_call_cases) auto

lemma conn_err_not_NoRows [simp]: "conn_err e \<noteq> ErrNoRows" "ErrNoRows \<noteq> conn_err e"
  by (simp_all add: conn_err_def)

lemma pg_call_ok:
  "pg_call E f w = (Inr v, w') \<Longrightarrow> f (w_db w) = (Inr v, w_db w')"
  by (auto simp: pg_call_def Let_def split: fate.splits prod.splits)

lemma pg_call_NoRows:
  "pg_call E f w = (Inl ErrNoRows, w') \<Longrightarrow> f (w_db w) = (Inl ErrNoRows, w_db w')"
  by (auto simp: pg_call_def Let_def split: fate.splits prod.splits)

section \<open>Values\<close>

text \<open>A \<open>uuid\<close> parameter given as text; a \<open>timestamptz\<close> column keeps microseconds.\<close>

definition bad_uuid :: err where "bad_uuid = ExtErr ''cannot encode text as uuid''"

definition with_uuid :: "env \<Rightarrow> string \<Rightarrow> (string \<Rightarrow> 'a stmt) \<Rightarrow> 'a stmt" where
  "with_uuid E s f d = (case canon_uuid E s of None \<Rightarrow> (Inl bad_uuid, d) | Some i \<Rightarrow> f i d)"

definition usec :: "time \<Rightarrow> time" where
  "usec t = (t div 1000) * 1000"

definition unique_violation :: "string \<Rightarrow> err" where
  "unique_violation c = PgError ''23505'' c"

definition fk_violation :: "string \<Rightarrow> err" where
  "fk_violation c = PgError ''23503'' c"

text \<open>The order of the rows of a result that the query leaves open.\<close>

definition arrange :: "env \<Rightarrow> nat \<Rightarrow> ('a \<Rightarrow> string) \<Rightarrow> 'a list \<Rightarrow> 'a list" where
  "arrange E n key rows = sort_key (\<lambda>x. row_rank E n (key x)) rows"

lemma arrange_mset [simp]: "mset (arrange E n key rows) = mset rows"
  by (simp add: arrange_def)

lemma arrange_set [simp]: "set (arrange E n key rows) = set rows"
  by (simp add: arrange_def)

definition head_row :: "'a list \<Rightarrow> err + 'a" where
  "head_row rows = (case rows of [] \<Rightarrow> Inl ErrNoRows | x # _ \<Rightarrow> Inr x)"

lemma head_row_Inr: "head_row rows = Inr x \<Longrightarrow> x \<in> set rows"
  by (auto simp: head_row_def split: list.splits)

lemma head_row_Inl: "head_row rows = Inl e \<Longrightarrow> e = ErrNoRows \<and> rows = []"
  by (auto simp: head_row_def split: list.splits)

text \<open>\<open>LIMIT\<close> and \<open>OFFSET\<close>, which must not be negative.\<close>

definition limit_offset :: "int \<Rightarrow> int \<Rightarrow> 'a list \<Rightarrow> err + 'a list" where
  "limit_offset lim off rows =
     (if lim < 0 then Inl (PgError ''2201W'' [])
      else if off < 0 then Inl (PgError ''2201X'' [])
      else Inr (take (nat lim) (drop (nat off) rows)))"

section \<open>users\<close>

definition sql_insert_user :: "env \<Rightarrow> user \<Rightarrow> unit stmt" where
  "sql_insert_user E u = with_uuid E (usr_ID u) (\<lambda>i d.
     if i \<in> set (map usr_ID (db_users d)) then (Inl (unique_violation ''users_pkey''), d)
     else if usr_Username u \<in> set (map usr_Username (db_users d))
     then (Inl (unique_violation ''users_username_key''), d)
     else if usr_Email u \<in> set (map usr_Email (db_users d))
     then (Inl (unique_violation ''users_email_key''), d)
     else (Inr (), d\<lparr>db_users := db_users d @
             [u\<lparr>usr_ID := i, usr_LastSeenAt := usec (usr_LastSeenAt u),
                usr_CreatedAt := usec (usr_CreatedAt u)\<rparr>]\<rparr>))"

definition sql_user_by_id :: "env \<Rightarrow> string \<Rightarrow> user stmt" where
  "sql_user_by_id E s = with_uuid E s (\<lambda>i d.
     (head_row (filter (\<lambda>u. usr_ID u = i) (db_users d)), d))"

definition sql_user_by_email :: "string \<Rightarrow> user stmt" where
  "sql_user_by_email email d = (head_row (filter (\<lambda>u. usr_Email u = email) (db_users d)), d)"

definition sql_update_user_status :: "env \<Rightarrow> string \<Rightarrow> user_status \<Rightarrow> time \<Rightarrow> unit stmt" where
  "sql_update_user_status E s st seen = with_uuid E s (\<lambda>i d.
     (Inr (), d\<lparr>db_users := map (\<lambda>u. if usr_ID u = i
                 then u\<lparr>usr_Status := st, usr_LastSeenAt := usec seen\<rparr> else u) (db_users d)\<rparr>))"

section \<open>rooms and room\_members\<close>

definition sql_insert_room :: "env \<Rightarrow> room \<Rightarrow> unit stmt" where
  "sql_insert_room E r = with_uuid E (rm_ID r) (\<lambda>i. with_uuid E (rm_CreatedBy r) (\<lambda>c d.
     if i \<in> set (map rm_ID (db_rooms d)) then (Inl (unique_violation ''rooms_pkey''), d)
     else if c \<notin> set (map usr_ID (db_users d))
     then (Inl (fk_violation ''rooms_created_by_fkey''), d)
     else (Inr (), d\<lparr>db_rooms := db_rooms d @
             [r\<lparr>rm_ID := i, rm_CreatedBy := c, rm_CreatedAt := usec (rm_CreatedAt r)\<rparr>]\<rparr>)))"

definition same_member :: "string \<Rightarrow> string \<Rightarrow> room_member \<Rightarrow> bool" where
  "same_member r u m \<longleftrightarrow> mem_RoomID m = r \<and> mem_UserID m = u"

definition put_member :: "string \<Rightarrow> string \<Rightarrow> string \<Rightarrow> room_role \<Rightarrow> unit stmt" where
  "put_member i r u role d =
     (if i \<in> set (map mem_ID (db_members d)) then (Inl (unique_violation ''room_members_pkey''), d)
      else if list_ex (same_member r u) (db_members d)
      then (Inl (unique_violation ''room_members_room_id_user_id_key''), d)
      else if r \<notin> set (map rm_ID (db_rooms d))
      then (Inl (fk_violation ''room_members_room_id_fkey''), d)
      else if u \<notin> set (map usr_ID (db_users d))
      then (Inl (fk_violation ''room_members_user_id_fkey''), d)
      else (Inr (), d\<lparr>db_members := db_members d @
              [\<lparr>mem_ID = i, mem_RoomID = r, mem_UserID = u, mem_Role = role\<rparr>]\<rparr>))"

definition sql_insert_member :: "env \<Rightarrow> room_member \<Rightarrow> unit stmt" where
  "sql_insert_member E m = with_uuid E (mem_ID m) (\<lambda>i. with_uuid E (mem_RoomID m) (\<lambda>r.
     with_uuid E (mem_UserID m) (\<lambda>u. put_member i r u (mem_Role m))))"

text \<open>\<open>ON CONFLICT (room_id, user_id) DO UPDATE SET role = EXCLUDED.role\<close>.\<close>

definition sql_upsert_member :: "env \<Rightarrow> room_member \<Rightarrow> unit stmt" where
  "sql_upsert_member E m = with_uuid E (mem_ID m) (\<lambda>i. with_uuid E (mem_RoomID m) (\<lambda>r.
     with_uuid E (mem_UserID m) (\<lambda>u d.
       if list_ex (same_member r u) (db_members d)
       then (Inr (), d\<lparr>db_members := map (\<lambda>x. if same_member r u x
                 then x\<lparr>mem_Role := mem_Role m\<rparr> else x) (db_members d)\<rparr>)
       else put_member i r u (mem_Role m) d)))"

definition sql_delete_member :: "env \<Rightarrow> string \<Rightarrow> string \<Rightarrow> unit stmt" where
  "sql_delete_member E room user = with_uuid E room (\<lambda>r. with_uuid E user (\<lambda>u d.
     (Inr (), d\<lparr>db_members := filter (\<lambda>m. \<not> same_member r u m) (db_members d)\<rparr>)))"

definition sql_room_by_id :: "env \<Rightarrow> string \<Rightarrow> room stmt" where
  "sql_room_by_id E s = with_uuid E s (\<lambda>i d.
     (head_row (filter (\<lambda>r. rm_ID r = i) (db_rooms d)), d))"

definition receipts_without :: "string list \<Rightarrow> message_receipt list \<Rightarrow> message_receipt list" where
  "receipts_without ids rs = filter (\<lambda>r. rcp_MessageID r \<notin> set ids) rs"

text \<open>Deleting a room takes its members, its messages and their receipts along.\<close>

definition sql_delete_room :: "env \<Rightarrow> string \<Rightarrow> nat stmt" where
  "sql_delete_room E s = with_uuid E s (\<lambda>i d.
     (Inr (length (filter (\<lambda>r. rm_ID r = i) (db_rooms d))),
      d\<lparr>db_rooms := filter (\<lambda>r. rm_ID r \<noteq> i) (db_rooms d),
        db_members := filter (\<lambda>m. mem_RoomID m \<noteq> i) (db_members d),
        db_messages := filter (\<lambda>m. msg_RoomID m \<noteq> i) (db_messages d),
        db_receipts := receipts_without
          (map msg_ID (filter (\<lambda>m. msg_RoomID m = i) (db_messages d))) (db_receipts d)\<rparr>))"

definition sql_members_of :: "env \<Rightarrow> nat \<Rightarrow> string \<Rightarrow> room_member list stmt" where
  "sql_members_of E n s = with_uuid E s (\<lambda>i d.
     (Inr (arrange E n mem_ID (filter (\<lambda>m. mem_RoomID m = i) (db_members d))), d))"

definition sql_search_rooms ::
  "env \<Rightarrow> nat \<Rightarrow> string \<Rightarrow> string \<Rightarrow> int \<Rightarrow> room list stmt" where
  "sql_search_rooms E n user q lim = with_uuid E user (\<lambda>u d.
     (limit_offset lim 0
        (sort_key (\<lambda>r. - rm_CreatedAt r) (arrange E n rm_ID
          [r. r \<leftarrow> db_rooms d, m \<leftarrow> db_members d,
              mem_RoomID m = rm_ID r \<and> mem_UserID m = u \<and> (q = [] \<or> ilike E (rm_Name r) q)])), d))"

text \<open>
  The direct room of two users: not a group, two members in all, and two distinct members
  among the two given ids, which are compared as text.
\<close>

definition is_direct_room :: "string list \<Rightarrow> database \<Rightarrow> room \<Rightarrow> bool" where
  "is_direct_room ids d r \<longleftrightarrow>
     \<not> rm_IsGroup r \<and>
     length (filter (\<lambda>m. mem_RoomID m = rm_ID r) (db_members d)) = 2 \<and>
     length (remdups (map mem_UserID
       (filter (\<lambda>m. mem_RoomID m = rm_ID r \<and> mem_UserID m \<in> set ids) (db_members d)))) = 2"

definition sql_find_direct_room :: "env \<Rightarrow> nat \<Rightarrow> string list \<Rightarrow> room stmt" where
  "sql_find_direct_room E n ids d =
     (head_row (arrange E n rm_ID (filter (is_direct_room ids d) (db_rooms d))), d)"

section \<open>messages and message\_receipts\<close>

text \<open>The table has no column for attachments: a row read back has none.\<close>

definition sql_insert_message :: "env \<Rightarrow> message \<Rightarrow> unit stmt" where
  "sql_insert_message E m = with_uuid E (msg_ID m) (\<lambda>i. with_uuid E (msg_RoomID m) (\<lambda>r.
     with_uuid E (msg_SenderID m) (\<lambda>u d.
       if i \<in> set (map msg_ID (db_messages d)) then (Inl (unique_violation ''messages_pkey''), d)
       else if r \<notin> set (map rm_ID (db_rooms d))
       then (Inl (fk_violation ''messages_room_id_fkey''), d)
       else if u \<notin> set (map usr_ID (db_users d))
       then (Inl (fk_violation ''messages_sender_id_fkey''), d)
       else (Inr (), d\<lparr>db_messages := db_messages d @
               [m\<lparr>msg_ID := i, msg_RoomID := r, msg_SenderID := u, msg_Attachments := [],
                  msg_CreatedAt := usec (msg_CreatedAt m),
                  msg_UpdatedAt := usec (msg_UpdatedAt m)\<rparr>]\<rparr>))))"

definition room_messages :: "string \<Rightarrow> database \<Rightarrow> message list" where
  "room_messages r d = filter (\<lambda>m. msg_RoomID m = r) (db_messages d)"

definition newest_first :: "env \<Rightarrow> nat \<Rightarrow> message list \<Rightarrow> message list" where
  "newest_first E n ms = sort_key (\<lambda>m. - msg_CreatedAt m) (arrange E n msg_ID ms)"

definition oldest_first :: "env \<Rightarrow> nat \<Rightarrow> message list \<Rightarrow> message list" where
  "oldest_first E n ms = sort_key msg_CreatedAt (arrange E n msg_ID ms)"

definition sql_list_messages ::
  "env \<Rightarrow> nat \<Rightarrow> string \<Rightarrow> int \<Rightarrow> int \<Rightarrow> message list stmt" where
  "sql_list_messages E n room lim off = with_uuid E room (\<lambda>r d.
     (limit_offset lim off (newest_first E n (room_messages r d)), d))"

definition sql_messages_before ::
  "env \<Rightarrow> nat \<Rightarrow> string \<Rightarrow> time \<Rightarrow> int \<Rightarrow> message list stmt" where
  "sql_messages_before E n room t lim = with_uuid E room (\<lambda>r d.
     (limit_offset lim 0
        (newest_first E n (filter (\<lambda>m. msg_CreatedAt m < t) (room_messages r d))), d))"

definition sql_messages_after ::
  "env \<Rightarrow> nat \<Rightarrow> string \<Rightarrow> time \<Rightarrow> int \<Rightarrow> message list stmt" where
  "sql_messages_after E n room t lim = with_uuid E room (\<lambda>r d.
     (limit_offset lim 0
        (oldest_first E n (filter (\<lambda>m. t < msg_CreatedAt m) (room_messages r d))), d))"

definition sql_message_by_id :: "env \<Rightarrow> string \<Rightarrow> message stmt" where
  "sql_message_by_id E s = with_uuid E s (\<lambda>i d.
     (head_row (filter (\<lambda>m. msg_ID m = i) (db_messages d)), d))"

definition sql_update_message_status :: "env \<Rightarrow> string \<Rightarrow> message_status \<Rightarrow> unit stmt" where
  "sql_update_message_status E s st = with_uuid E s (\<lambda>i d.
     (Inr (), d\<lparr>db_messages := map (\<lambda>m. if msg_ID m = i then m\<lparr>msg_Status := st\<rparr> else m)
                 (db_messages d)\<rparr>))"

definition same_receipt :: "string \<Rightarrow> string \<Rightarrow> message_receipt \<Rightarrow> bool" where
  "same_receipt m u r \<longleftrightarrow> rcp_MessageID r = m \<and> rcp_UserID r = u"

definition sql_upsert_receipt :: "env \<Rightarrow> message_receipt \<Rightarrow> unit stmt" where
  "sql_upsert_receipt E c = with_uuid E (rcp_ID c) (\<lambda>i. with_uuid E (rcp_MessageID c) (\<lambda>m.
     with_uuid E (rcp_UserID c) (\<lambda>u d.
       if list_ex (same_receipt m u) (db_receipts d)
       then (Inr (), d\<lparr>db_receipts := map (\<lambda>x. if same_receipt m u x
               then x\<lparr>rcp_Status := rcp_Status c, rcp_SeenAt := map_option usec (rcp_SeenAt c)\<rparr>
               else x) (db_receipts d)\<rparr>)
       else if i \<in> set (map rcp_ID (db_receipts d))
       then (Inl (unique_violation ''message_receipts_pkey''), d)
       else if m \<notin> set (map msg_ID (db_messages d))
       then (Inl (fk_violation ''message_receipts_message_id_fkey''), d)
       else if u \<notin> set (map usr_ID (db_users d))
       then (Inl (fk_violation ''message_receipts_user_id_fkey''), d)
       else (Inr (), d\<lparr>db_receipts := db_receipts d @
               [\<lparr>rcp_ID = i, rcp_MessageID = m, rcp_UserID = u, rcp_Status = rcp_Status c,
                 rcp_SeenAt = map_option usec (rcp_SeenAt c)\<rparr>]\<rparr>))))"

definition sql_search_messages ::
  "env \<Rightarrow> nat \<Rightarrow> string \<Rightarrow> string \<Rightarrow> string \<Rightarrow> int \<Rightarrow> message list stmt" where
  "sql_search_messages E n user room q lim = with_uuid E user (\<lambda>u d.
     (limit_offset lim 0 (newest_first E n
        [m. m \<leftarrow> db_messages d, rm \<leftarrow> db_members d,
            msg_RoomID m = mem_RoomID rm \<and> mem_UserID rm = u \<and>
            (room = [] \<or> msg_RoomID m = room) \<and> ilike E (msg_Content m) q]), d))"

text \<open>\<open>UPDATE \<dots> SET content = $2, updated_at = NOW() \<dots> RETURNING\<close> at server time \<open>now\<close>.\<close>

definition edited :: "string \<Rightarrow> time \<Rightarrow> message \<Rightarrow> message" where
  "edited content now m = m\<lparr>msg_Content := content, msg_UpdatedAt := usec now\<rparr>"

definition sql_update_content :: "env \<Rightarrow> string \<Rightarrow> string \<Rightarrow> time \<Rightarrow> message stmt" where
  "sql_update_content E s content now = with_uuid E s (\<lambda>i d.
     (head_row (map (edited content now) (filter (\<lambda>m. msg_ID m = i) (db_messages d))),
      d\<lparr>db_messages := map (\<lambda>m. if msg_ID m = i then edited content now m else m)
          (db_messages d)\<rparr>))"

definition sql_delete_message :: "env \<Rightarrow> string \<Rightarrow> unit stmt" where
  "sql_delete_message E s = with_uuid E s (\<lambda>i d.
     (Inr (), d\<lparr>db_messages := filter (\<lambda>m. msg_ID m \<noteq> i) (db_messages d),
                db_receipts := receipts_without [i] (db_receipts d)\<rparr>))"

section \<open>The constraints\<close>

definition wf_db :: "database \<Rightarrow> bool" where
  "wf_db d \<longleftrightarrow>
     distinct (map usr_ID (db_users d)) \<and> distinct (map usr_Username (db_users d)) \<and>
     distinct (map usr_Email (db_users d)) \<and>
     distinct (map rm_ID (db_rooms d)) \<and>
     list_all (\<lambda>r. rm_CreatedBy r \<in> set (map usr_ID (db_users d))) (db_rooms d) \<and>
     distinct (map mem_ID (db_members d)) \<and>
     distinct (map (\<lambda>m. (mem_RoomID m, mem_UserID m)) (db_members d)) \<and>
     list_all (\<lambda>m. mem_RoomID m \<in> set (map rm_ID (db_rooms d)) \<and>
                    mem_UserID m \<in> set (map usr_ID (db_users d))) (db_members d) \<and>
     distinct (map msg_ID (db_messages d)) \<and>
     list_all (\<lambda>m. msg_RoomID m \<in> set (map rm_ID (db_rooms d)) \<and>
                    msg_SenderID m \<in> set (map usr_ID (db_users d))) (db_messages d) \<and>
     distinct (map rcp_ID (db_receipts d)) \<and>
     distinct (map (\<lambda>r. (rcp_MessageID r, rcp_UserID r)) (db_receipts d)) \<and>
     list_all (\<lambda>r. rcp_MessageID r \<in> set (map msg_ID (db_messages d)) \<and>
                    rcp_UserID r \<in> set (map usr_ID (db_users d))) (db_receipts d)"

definition keeps_wf :: "'a stmt \<Rightarrow> bool" where
  "keeps_wf f \<longleftrightarrow> (\<forall>d. wf_db d \<longrightarrow> wf_db (snd (f d)))"

definition reads_only :: "'a stmt \<Rightarrow> bool" where
  "reads_only f \<longleftrightarrow> (\<forall>d. snd (f d) = d)"

named_theorems keeps_wf_intro \<open>statements that keep the constraints\<close>

lemma keeps_wf_with_uuid [keeps_wf_intro]:
  "(\<And>i. keeps_wf (f i)) \<Longrightarrow> keeps_wf (with_uuid E s f)"
  by (auto simp: keeps_wf_def with_uuid_def split: option.splits)

lemma reads_only_with_uuid: "(\<And>i. reads_only (f i)) \<Longrightarrow> reads_only (with_uuid E s f)"
  by (auto simp: reads_only_def with_uuid_def split: option.splits)

lemma reads_only_keeps_wf [keeps_wf_intro]: "reads_only f \<Longrightarrow> keeps_wf f"
  by (simp add: reads_only_def keeps_wf_def)

lemma reads_only_stmts [simp]:
  "reads_only (sql_user_by_id E s)" "reads_only (sql_user_by_email e)"
  "reads_only (sql_room_by_id E s)" "reads_only (sql_members_of E n s)"
  "reads_only (sql_search_rooms E n s q l)" "reads_only (sql_find_direct_room E n ids)"
  "reads_only (sql_list_messages E n s l off)" "reads_only (sql_messages_before E n s t l)"
  "reads_only (sql_messages_after E n s t l)" "reads_only (sql_message_by_id E s)"
  "reads_only (sql_search_messages E n s r q l)"
  unfolding sql_user_by_id_def sql_room_by_id_def sql_members_of_def sql_search_rooms_def
    sql_list_messages_def sql_messages_before_def sql_messages_after_def sql_message_by_id_def
    sql_search_messages_def
  by ((rule reads_only_with_uuid)?,
      simp add: reads_only_def sql_user_by_email_def sql_find_direct_room_def)+

lemma map_update_same:
  "(\<And>x. g (f x) = g x) \<Longrightarrow> map g (map (\<lambda>x. if P x then f x else x) xs) = map g xs"
  by (induction xs) auto

lemma wf_insert_user [keeps_wf_intro]: "keeps_wf (sql_insert_user E u)"
  unfolding sql_insert_user_def
  by (rule keeps_wf_with_uuid) (auto simp: keeps_wf_def wf_db_def list_all_iff)

lemma wf_update_user_status [keeps_wf_intro]: "keeps_wf (sql_update_user_status E s st t)"
  unfolding sql_update_user_status_def
  by (rule keeps_wf_with_uuid) (simp add: keeps_wf_def wf_db_def map_update_same del: map_map set_map)

lemma wf_insert_room [keeps_wf_intro]: "keeps_wf (sql_insert_room E r)"
  unfolding sql_insert_room_def
  by (intro keeps_wf_with_uuid) (auto simp: keeps_wf_def wf_db_def list_all_iff)

lemma wf_put_member: "wf_db d \<Longrightarrow> wf_db (snd (put_member i r u role d))"
  by (auto simp: put_member_def wf_db_def list_all_iff list_ex_iff same_member_def)

lemma wf_insert_member [keeps_wf_intro]: "keeps_wf (sql_insert_member E m)"
  unfolding sql_insert_member_def
  by (intro keeps_wf_with_uuid) (simp add: keeps_wf_def wf_put_member)

lemma wf_set_role:
  "wf_db d \<Longrightarrow> wf_db (d\<lparr>db_members := map (\<lambda>x. if P x then x\<lparr>mem_Role := r\<rparr> else x) (db_members d)\<rparr>)"
  by (auto simp: wf_db_def map_update_same list_all_iff simp del: map_map)

lemma wf_upsert_member [keeps_wf_intro]: "keeps_wf (sql_upsert_member E m)"
  unfolding sql_upsert_member_def
  by (intro keeps_wf_with_uuid) (auto simp: keeps_wf_def wf_put_member wf_set_role)

lemma wf_delete_member [keeps_wf_intro]: "keeps_wf (sql_delete_member E r u)"
  unfolding sql_delete_member_def
  by (intro keeps_wf_with_uuid) (auto simp: keeps_wf_def wf_db_def list_all_iff distinct_map_filter)

lemma wf_delete_room [keeps_wf_intro]: "keeps_wf (sql_delete_room E s)"
  unfolding sql_delete_room_def
  by (intro keeps_wf_with_uuid)
    (fastforce simp: keeps_wf_def wf_db_def list_all_iff distinct_map_filter receipts_without_def)

lemma wf_insert_message [keeps_wf_intro]: "keeps_wf (sql_insert_message E m)"
  unfolding sql_insert_message_def
  by (intro keeps_wf_with_uuid) (auto simp: keeps_wf_def wf_db_def list_all_iff)

lemma wf_update_message_status [keeps_wf_intro]: "keeps_wf (sql_update_message_status E s st)"
  unfolding sql_update_message_status_def
  by (intro keeps_wf_with_uuid)
    (auto simp: keeps_wf_def wf_db_def map_update_same list_all_iff simp del: map_map)

lemma wf_upsert_receipt [keeps_wf_intro]: "keeps_wf (sql_upsert_receipt E c)"
  unfolding sql_upsert_receipt_def
  by (intro keeps_wf_with_uuid)
    (auto simp: keeps_wf_def wf_db_def map_update_same list_all_iff list_ex_iff same_receipt_def
      simp del: map_map)

lemma wf_update_content [keeps_wf_intro]: "keeps_wf (sql_update_content E s c t)"
  unfolding sql_update_content_def
  by (intro keeps_wf_with_uuid)
    (auto simp: keeps_wf_def wf_db_def map_update_same list_all_iff edited_def simp del: map_map)

lemma wf_delete_message [keeps_wf_intro]: "keeps_wf (sql_delete_message E s)"
  unfolding sql_delete_message_def
  by (intro keeps_wf_with_uuid)
    (fastforce simp: keeps_wf_def wf_db_def list_all_iff distinct_map_filter receipts_without_def)

lemma pg_call_wf:
  "pg_call E f w = (r, w') \<Longrightarrow> keeps_wf f \<Longrightarrow> wf_db (w_db w) \<Longrightarrow> wf_db (w_db w')"
  by (auto simp: keeps_wf_def dest!: pg_call_db)

lemma pg_call_reads: "pg_call E f w = (r, w') \<Longrightarrow> reads_only f \<Longrightarrow> w_db w' = w_db w"
  by (auto simp: reads_only_def dest!: pg_call_db)

end
