(* ===== verification/User_Repo.thy ===== *)
theory User_Repo
  imports Database Auth_Service
begin

text \<open>\<open>internal/repository/postgres/user_repo.go\<close> over the \<open>users\<close> table.\<close>

definition err_of :: "err + 'a \<Rightarrow> err option" where
  "err_of r = (case r of Inl e \<Rightarrow> Some e | Inr _ \<Rightarrow> None)"

lemma err_of_None: "err_of r = None \<longleftrightarrow> (\<exists>x. r = Inr x)"
  by (auto simp: err_of_def split: sum.splits)

text \<open>The fields \<open>Create\<close> fills in when they are empty: an id and a creation time.\<close>

definition id_or_new :: "env \<Rightarrow> string \<Rightarrow> (world, string) io" where
  "id_or_new E i w = (if i = [] then new_uuid E w else (i, w))"

definition time_or_now :: "env \<Rightarrow> time \<Rightarrow> (world, time) io" where
  "time_or_now E t w = (if IsZero t then rt_now (go_runtime E) w else (t, w))"

definition UserRepository_Create :: "env \<Rightarrow> user \<Rightarrow> (world, err option \<times> user) io" where
  "UserRepository_Create E user w =
     (case id_or_new E (usr_ID user) w of (i, w1) \<Rightarrow>
      case time_or_now E (usr_CreatedAt user) w1 of (t, w2) \<Rightarrow>
      (let user' = user\<lparr>usr_ID := i, usr_CreatedAt := t\<rparr> in
       case pg_call E (sql_insert_user E user') w2 of (r, w3) \<Rightarrow> ((err_of r, user'), w3)))"

definition UserRepository_GetByID :: "env \<Rightarrow> string \<Rightarrow> (world, err + user) io" where
  "UserRepository_GetByID E i w = pg_call E (sql_user_by_id E i) w"

definition UserRepository_GetByEmail :: "env \<Rightarrow> string \<Rightarrow> (world, err + user) io" where
  "UserRepository_GetByEmail E email w = pg_call E (sql_user_by_email email) w"

definition UserRepository_UpdateStatus ::
  "env \<Rightarrow> string \<Rightarrow> user_status \<Rightarrow> time \<Rightarrow> (world, err option) io" where
  "UserRepository_UpdateStatus E i status lastSeen w =
     (case pg_call E (sql_update_user_status E i status lastSeen) w of (r, w1) \<Rightarrow> (err_of r, w1))"

definition NewUserRepository :: "env \<Rightarrow> world user_repository" where
  "NewUserRepository E =
     \<lparr>ur_Create = UserRepository_Create E, ur_GetByEmail = UserRepository_GetByEmail E,
      ur_GetByID = UserRepository_GetByID E, ur_UpdateStatus = UserRepository_UpdateStatus E\<rparr>"

lemma NewUserRepository_simps [simp]:
  "ur_Create (NewUserRepository E) = UserRepository_Create E"
  "ur_GetByEmail (NewUserRepository E) = UserRepository_GetByEmail E"
  "ur_GetByID (NewUserRepository E) = UserRepository_GetByID E"
  "ur_UpdateStatus (NewUserRepository E) = UserRepository_UpdateStatus E"
  by (simp_all add: NewUserRepository_def)

section \<open>What the repository leaves alone\<close>

text \<open>A step of the world that touches neither Redis nor the clock's direction.\<close>

definition pg_frame :: "world \<Rightarrow> world \<Rightarrow> bool" where
  "pg_frame w w' \<longleftrightarrow> w_keys w' = w_keys w \<and> w_wall w \<le> w_wall w' \<and> w_log w' = w_log w"

lemma pg_frame_refl [simp]: "pg_frame w w"
  by (simp add: pg_frame_def)

lemma pg_frame_trans: "pg_frame a b \<Longrightarrow> pg_frame b c \<Longrightarrow> pg_frame a c"
  by (simp add: pg_frame_def)

lemma pg_call_pg_frame: "pg_call E f w = (r, w') \<Longrightarrow> pg_frame w w'"
  using pg_call_frame[where E = E and f = f and w = w] by (simp add: pg_frame_def)

lemma pass_pg_frame [simp]: "pg_frame w (pass E w)"
  by (simp add: pg_frame_def)

lemma id_or_new_frame: "id_or_new E i w = (j, w') \<Longrightarrow> pg_frame w w' \<and> w_db w' = w_db w"
  by (auto simp: id_or_new_def new_uuid_def split: if_splits)

lemma time_or_now_frame: "time_or_now E t w = (u, w') \<Longrightarrow> pg_frame w w' \<and> w_db w' = w_db w"
  by (auto simp: time_or_now_def go_runtime_def Let_def split: if_splits)

lemma user_create_frame: "UserRepository_Create E u w = (r, w') \<Longrightarrow> pg_frame w w'"
  by (auto simp: UserRepository_Create_def Let_def split: prod.splits
      dest!: id_or_new_frame time_or_now_frame pg_call_pg_frame intro: pg_frame_trans)

lemma user_reads_frame:
  "UserRepository_GetByID E i w = (r, w') \<Longrightarrow> pg_frame w w' \<and> w_db w' = w_db w"
  "UserRepository_GetByEmail E e w = (r, w') \<Longrightarrow> pg_frame w w' \<and> w_db w' = w_db w"
  unfolding UserRepository_GetByID_def UserRepository_GetByEmail_def
  by (auto dest: pg_call_pg_frame pg_call_reads)

lemma user_status_frame: "UserRepository_UpdateStatus E i st t w = (r, w') \<Longrightarrow> pg_frame w w'"
  by (auto simp: UserRepository_UpdateStatus_def split: prod.splits dest!: pg_call_pg_frame)

lemma user_create_wf:
  assumes "UserRepository_Create E u w = (r, w')" and "wf_db (w_db w)"
  shows "wf_db (w_db w')"
proof -
  obtain i w1 where 1: "id_or_new E (usr_ID u) w = (i, w1)" by fastforce
  obtain t w2 where 2: "time_or_now E (usr_CreatedAt u) w1 = (t, w2)" by fastforce
  obtain q where "pg_call E (sql_insert_user E (u\<lparr>usr_ID := i, usr_CreatedAt := t\<rparr>)) w2 = (q, w')"
    using assms(1) 1 2 by (auto simp: UserRepository_Create_def Let_def split: prod.splits)
  from pg_call_wf[OF this wf_insert_user] id_or_new_frame[OF 1] time_or_now_frame[OF 2] assms(2)
  show ?thesis by simp
qed

lemma user_status_wf:
  "UserRepository_UpdateStatus E i st t w = (r, w') \<Longrightarrow> wf_db (w_db w) \<Longrightarrow> wf_db (w_db w')"
  by (auto simp: UserRepository_UpdateStatus_def split: prod.splits
      dest!: pg_call_wf[OF _ wf_update_user_status])

end
