(* ===== verification/Db_Steps.thy ===== *)
theory Db_Steps
  imports Steps User_Repo
begin

text \<open>
  The relations between the worlds before and after the calls of the services: what they announce
  and what they leave as it was.
\<close>

section \<open>What is announced\<close>

text \<open>
  The channels the services publish on: the messages of a room, the events of a user.
\<close>

definition service_channel :: "string \<Rightarrow> bool" where
  "service_channel ch \<longleftrightarrow>
     (\<exists>x. ch = ''rooms:'' @ x @ '':messages'') \<or> (\<exists>x. ch = ''users:'' @ x @ '':events'')"

definition announces :: "world \<Rightarrow> world \<Rightarrow> bool" where
  "announces w w' \<longleftrightarrow> (\<exists>l. w_log w' = w_log w @ l \<and> (\<forall>a \<in> set l. service_channel (fst a)))"

lemma announces_quiet: "w_log w' = w_log w \<Longrightarrow> announces w w'"
  by (simp add: announces_def)

lemma announces_trans: "announces a b \<Longrightarrow> announces b c \<Longrightarrow> announces a c"
  by (force simp: announces_def)

interpretation log: step_relation announces
  by unfold_locales (rule announces_quiet[OF refl], rule announces_trans)

section \<open>What a repository call may do\<close>

text \<open>
  A repository call leaves Redis' keys alone, moves the clock
  forward, keeps the constraints of the database and, of its tables, those that \<open>p\<close> projects, and
  announces nothing but on the channels of the services.
\<close>

definition db_step :: "(database \<Rightarrow> 'a) \<Rightarrow> world \<Rightarrow> world \<Rightarrow> bool" where
  "db_step p w w' \<longleftrightarrow>
     w_keys w' = w_keys w \<and> w_wall w \<le> w_wall w' \<and> p (w_db w') = p (w_db w) \<and>
     (wf_db (w_db w) \<longrightarrow> wf_db (w_db w')) \<and> announces w w'"

interpretation db: step_relation "db_step p" for p
  by unfold_locales (auto simp: db_step_def log.R_refl intro: log.R_trans)

definition spares :: "(database \<Rightarrow> 'a) \<Rightarrow> 'b stmt \<Rightarrow> bool" where
  "spares p f \<longleftrightarrow> (\<forall>d. p (snd (f d)) = p d)"

lemma spares_with_uuid: "(\<And>i. spares p (f i)) \<Longrightarrow> spares p (with_uuid E s f)"
  by (auto simp: spares_def with_uuid_def split: option.splits)

lemma spares_reads [intro]: "reads_only f \<Longrightarrow> spares p f"
  by (simp add: spares_def reads_only_def)

lemma within_pg_call:
  assumes "keeps_wf f" and "spares p f"
  shows "within (db_step p) (pg_call E f)"
proof (rule withinI)
  fix w r w' assume c: "pg_call E f w = (r, w')"
  with pg_call_db[OF c] pg_call_pg_frame[OF c] pg_call_wf[OF c assms(1)] assms(2)
  show "db_step p w w'" by (auto simp: db_step_def pg_frame_def spares_def announces_quiet)
qed

lemma within_pg_read: "reads_only f \<Longrightarrow> within (db_step p) (pg_call E f)"
  by (rule within_pg_call) (auto intro: reads_only_keeps_wf)

lemma db_step_pass [simp]: "db_step p w (pass E w)"
  by (simp add: db_step_def announces_quiet)

lemma db_step_quiet: "pg_frame w w' \<and> w_db w' = w_db w \<Longrightarrow> db_step p w w'"
  by (simp add: db_step_def pg_frame_def announces_quiet)

lemmas id_or_new_step = db_step_quiet[OF id_or_new_frame]
lemmas time_or_now_step = db_step_quiet[OF time_or_now_frame]

lemma publish_step: "service_channel ch \<Longrightarrow> within (db_step p) (PubSub_Publish (redis_srv E) ch j)"
  by (auto simp: within_def db_step_def announces_def PubSub_Publish_def redis_srv_def srv_publish_def Let_def)

lemma now_step: "within (db_step p) (rt_now (go_runtime E))"
  by (simp add: within_def go_runtime_def Let_def db_step_def announces_quiet)

section \<open>What each statement spares\<close>

lemma spares_user_status: "spares (\<lambda>d. (db_rooms d, db_members d, db_messages d, db_receipts d))
    (sql_update_user_status E s st t)"
  unfolding sql_update_user_status_def by (rule spares_with_uuid) (simp add: spares_def)

lemma spares_insert_user: "spares (\<lambda>d. (db_rooms d, db_members d, db_messages d, db_receipts d))
    (sql_insert_user E u)"
  unfolding sql_insert_user_def by (rule spares_with_uuid) (simp add: spares_def)

lemma spares_room_writes:
  "spares db_users (sql_upsert_member E m)"
  "spares db_users (sql_delete_member E s u)"
  "spares db_users (sql_delete_room E s)"
  unfolding sql_upsert_member_def sql_delete_member_def sql_delete_room_def
  by (intro spares_with_uuid, simp add: spares_def put_member_def)+

abbreviation room_tables :: "database \<Rightarrow> user list \<times> room list \<times> room_member list" where
  "room_tables d \<equiv> (db_users d, db_rooms d, db_members d)"

lemma spares_message_writes:
  "spares room_tables (sql_insert_message E m)"
  "spares room_tables (sql_update_message_status E s st)"
  "spares room_tables (sql_upsert_receipt E c)"
  "spares room_tables (sql_update_content E s content now)"
  "spares room_tables (sql_delete_message E s)"
  unfolding sql_insert_message_def sql_update_message_status_def sql_upsert_receipt_def
    sql_update_content_def sql_delete_message_def
  by (intro spares_with_uuid, simp add: spares_def)+

end
