(* ===== verification/Sample_Eval.thy ===== *)
theory Sample_Eval
  imports User_Repo
begin

text \<open>
  Bundles of equations with which closed instances of the theorems are evaluated in the sample
  environment and world.
\<close>

lemmas world_eval = sample_env_def sample_world_def sample_user_def go_runtime_def pass_def
  sure_delete_def redis_defs live_value_def answer_err_def acts_def deadline_def alive_def
  pg_call_def with_uuid_def err_of_def head_row_def new_uuid_def

lemmas user_repo_eval = UserRepository_UpdateStatus_def sql_update_user_status_def
  UserRepository_GetByEmail_def sql_user_by_email_def
  UserRepository_GetByID_def sql_user_by_id_def
  UserRepository_Create_def sql_insert_user_def id_or_new_def time_or_now_def IsZero_def

lemma canon_sample: "s \<noteq> [] \<Longrightarrow> canon_uuid sample_env s = Some s"
  by (simp add: sample_env_def)

end
