(* ===== verification/User_Service.thy ===== *)
theory User_Service
  imports Auth_Service Db_Steps Sample_Eval
begin

text \<open>
  \<open>internal/domain/users\<close>: profiles and presence over the user repository, as the servers wire
  it over Postgres.
\<close>

section \<open>Operations\<close>

record 'w user_service =
  us_repo :: "'w user_repository"
  us_rt :: "'w runtime"

definition NewUserService :: "'w runtime \<Rightarrow> 'w user_repository \<Rightarrow> 'w user_service" where
  "NewUserService rt repo = \<lparr>us_repo = repo, us_rt = rt\<rparr>"

definition not_found_for_NoRows :: "err + 'a \<Rightarrow> err + 'a" where
  "not_found_for_NoRows r =
     (case r of Inl e \<Rightarrow> Inl (if e = ErrNoRows then UserErr ErrUserNotFound else e) | Inr u \<Rightarrow> Inr u)"

definition user_GetByID :: "'w user_service \<Rightarrow> string \<Rightarrow> ('w, err + user) io" where
  "user_GetByID s i w = (case ur_GetByID (us_repo s) i w of (r, w1) \<Rightarrow> (not_found_for_NoRows r, w1))"

definition user_GetByEmail :: "'w user_service \<Rightarrow> string \<Rightarrow> ('w, err + user) io" where
  "user_GetByEmail s email w =
     (case ur_GetByEmail (us_repo s) email w of (r, w1) \<Rightarrow> (not_found_for_NoRows r, w1))"

definition user_UpdateStatus :: "'w user_service \<Rightarrow> string \<Rightarrow> user_status \<Rightarrow> ('w, err option) io" where
  "user_UpdateStatus s i status w =
     (if i = [] then (Some (NewErr ''users: id cannot be empty''), w)
      else if status = [] then (Some (NewErr ''users: status cannot be empty''), w)
      else case rt_now (us_rt s) w of (now, w1) \<Rightarrow> ur_UpdateStatus (us_repo s) i status now w1)"

definition api_users :: "env \<Rightarrow> world user_service" where
  "api_users E = NewUserService (go_runtime E) (NewUserRepository E)"

lemma api_users_simps [simp]:
  "us_repo (api_users E) = NewUserRepository E" "us_rt (api_users E) = go_runtime E"
  by (simp_all add: api_users_def NewUserService_def)

section \<open>The service over a repository\<close>

locale user_environment = step_relation R for R :: "'w \<Rightarrow> 'w \<Rightarrow> bool" +
  fixes s :: "'w user_service"
  assumes urepo_GetByID: "within R (ur_GetByID (us_repo s) i)"
    and urepo_GetByEmail: "within R (ur_GetByEmail (us_repo s) e)"
    and urepo_UpdateStatus: "within R (ur_UpdateStatus (us_repo s) i st t)"
    and uclock: "within R (rt_now (us_rt s))"
begin

lemma GetByID_within: "within R (user_GetByID s i)"
  by (rule withinI) (auto simp: user_GetByID_def split: prod.splits dest!: withinD[OF urepo_GetByID])

lemma GetByEmail_within: "within R (user_GetByEmail s e)"
  by (rule withinI) (auto simp: user_GetByEmail_def split: prod.splits dest!: withinD[OF urepo_GetByEmail])

lemma UpdateStatus_within: "within R (user_UpdateStatus s i st)"
  by (rule withinI) (auto simp: user_UpdateStatus_def R_refl split: prod.splits if_splits
      dest!: withinD[OF uclock] withinD[OF urepo_UpdateStatus] intro: R_trans)

end

abbreviation chat_tables :: "database \<Rightarrow> room list \<times> room_member list \<times> message list \<times> message_receipt list" where
  "chat_tables d \<equiv> (db_rooms d, db_members d, db_messages d, db_receipts d)"

lemma UserRepository_steps:
  "within (db_step p) (UserRepository_GetByID E i)"
  "within (db_step p) (UserRepository_GetByEmail E e)"
  "within (db_step chat_tables) (UserRepository_UpdateStatus E i st t)"
  "within (db_step chat_tables) (UserRepository_Create E u)"
proof -
  show "within (db_step chat_tables) (UserRepository_UpdateStatus E i st t)"
    by (rule withinI) (auto simp: UserRepository_UpdateStatus_def split: prod.splits
        dest!: withinD[OF within_pg_call[OF wf_update_user_status spares_user_status]])
  show "within (db_step chat_tables) (UserRepository_Create E u)"
    by (rule withinI) (auto simp: UserRepository_Create_def Let_def split: prod.splits
        dest!: withinD[OF within_pg_call[OF wf_insert_user spares_insert_user]] id_or_new_step
          time_or_now_step intro: db.R_trans)
qed (simp_all add: within_def UserRepository_GetByID_def UserRepository_GetByEmail_def
    within_pg_read[unfolded within_def, rule_format])

interpretation users: user_environment "db_step chat_tables" "api_users E" for E
  by unfold_locales (simp_all add: UserRepository_steps now_step)

section \<open>Presence\<close>

text \<open>
  A successful change of status sets the status and the time last seen, to a time within the
  call, of the user with that id and of no one else; any non-empty text is accepted as a status,
  and an unknown id is reported as a success that changes nothing.
\<close>

theorem update_status_effect:
  assumes "user_UpdateStatus (api_users E) i st w = (None, w')"
  shows "\<exists>u t. canon_uuid E i = Some u \<and> st \<noteq> [] \<and> w_wall w \<le> t \<and> t \<le> w_wall w' \<and>
    w_db w' = (w_db w)\<lparr>db_users := map (\<lambda>x. if usr_ID x = u
      then x\<lparr>usr_Status := st, usr_LastSeenAt := usec t\<rparr> else x) (db_users (w_db w))\<rparr>"
proof -
  let ?w1 = "pass E w"
  from assms have st: "st \<noteq> []" and
    c: "pg_call E (sql_update_user_status E i st (w_wall ?w1)) ?w1 = (Inr (), w')"
    by (auto simp: user_UpdateStatus_def UserRepository_UpdateStatus_def go_runtime_def Let_def
        err_of_None split: if_splits prod.splits)
  from pg_call_ok[OF c] obtain u where "canon_uuid E i = Some u"
    "w_db w' = (w_db w)\<lparr>db_users := map (\<lambda>x. if usr_ID x = u
      then x\<lparr>usr_Status := st, usr_LastSeenAt := usec (w_wall ?w1)\<rparr> else x) (db_users (w_db w))\<rparr>"
    by (auto simp: sql_update_user_status_def with_uuid_def split: option.splits)
  moreover have "w_wall ?w1 \<le> w_wall w'" using pg_call_pg_frame[OF c] by (simp add: pg_frame_def)
  ultimately show ?thesis using st pass_wall[of w E] by blast
qed

theorem update_status_effect_witness:
  "\<exists>w'. user_UpdateStatus (api_users sample_env) ''u-ann'' ''away'' sample_world = (None, w') \<and>
     map usr_Status (db_users (w_db w')) = [''away'', ''offline'']"
proof -
  have "\<exists>w'. user_UpdateStatus (api_users sample_env) ''u-ann'' ''away'' sample_world = (None, w')"
    by (simp add: user_UpdateStatus_def world_eval user_repo_eval Let_def)
  then obtain w' where u: "user_UpdateStatus (api_users sample_env) ''u-ann'' ''away'' sample_world = (None, w')" by blast
  from update_status_effect[OF u] obtain t where "w_db w' = (w_db sample_world)\<lparr>db_users :=
      map (\<lambda>x. if usr_ID x = ''u-ann'' then x\<lparr>usr_Status := ''away'', usr_LastSeenAt := usec t\<rparr> else x)
        (db_users (w_db sample_world))\<rparr>"
    by (auto simp: canon_sample)
  with u show ?thesis by (simp add: sample_world_def sample_user_def)
qed

end
