(* ===== verification/Use_Cases.thy ===== *)
theory Use_Cases
  imports Auth_Service Room_Service Message_Service User_Service
begin

text \<open>
  \<open>internal/usecase\<close>: the layer between the deliveries and the domain services. Every method
  calls the method of the service it wraps, with the same arguments.
\<close>

section \<open>AuthUseCase (auth\_usecase.go)\<close>

record 'w auth_usecase =
  uc_AuthService :: "'w auth_service"

definition NewAuthUseCase :: "'w auth_service \<Rightarrow> 'w auth_usecase" where
  "NewAuthUseCase s = \<lparr>uc_AuthService = s\<rparr>"

definition AuthUseCase_Register where
  "AuthUseCase_Register (uc :: 'w auth_usecase) a = auth_Register (uc_AuthService uc) a"

definition AuthUseCase_Login where
  "AuthUseCase_Login (uc :: 'w auth_usecase) a b = auth_Login (uc_AuthService uc) a b"

definition AuthUseCase_Refresh where
  "AuthUseCase_Refresh (uc :: 'w auth_usecase) a = auth_Refresh (uc_AuthService uc) a"

definition AuthUseCase_Logout where
  "AuthUseCase_Logout (uc :: 'w auth_usecase) a = auth_Logout (uc_AuthService uc) a"

definition AuthUseCase_ValidateAccessToken where
  "AuthUseCase_ValidateAccessToken (uc :: 'w auth_usecase) a = auth_ValidateAccessToken (uc_AuthService uc) a"

section \<open>UserUseCase (user\_usecase.go)\<close>

record 'w user_usecase =
  uc_UserService :: "'w user_service"

definition NewUserUseCase :: "'w user_service \<Rightarrow> 'w user_usecase" where
  "NewUserUseCase s = \<lparr>uc_UserService = s\<rparr>"

definition UserUseCase_GetProfile where
  "UserUseCase_GetProfile (uc :: 'w user_usecase) a = user_GetByID (uc_UserService uc) a"

definition UserUseCase_GetByEmail where
  "UserUseCase_GetByEmail (uc :: 'w user_usecase) a = user_GetByEmail (uc_UserService uc) a"

definition UserUseCase_UpdateStatus where
  "UserUseCase_UpdateStatus (uc :: 'w user_usecase) a b = user_UpdateStatus (uc_UserService uc) a b"

section \<open>RoomUseCase (room\_usecase.go)\<close>

record 'w room_usecase =
  uc_RoomService :: "'w room_service"

definition NewRoomUseCase :: "'w room_service \<Rightarrow> 'w room_usecase" where
  "NewRoomUseCase s = \<lparr>uc_RoomService = s\<rparr>"

definition RoomUseCase_Create where
  "RoomUseCase_Create (uc :: 'w room_usecase) a = room_Create (uc_RoomService uc) a"

definition RoomUseCase_AddMember where
  "RoomUseCase_AddMember (uc :: 'w room_usecase) a b c = room_AddMember (uc_RoomService uc) a b c"

definition RoomUseCase_RemoveMember where
  "RoomUseCase_RemoveMember (uc :: 'w room_usecase) a b = room_RemoveMember (uc_RoomService uc) a b"

definition RoomUseCase_ListMembers where
  "RoomUseCase_ListMembers (uc :: 'w room_usecase) a = room_ListMembers (uc_RoomService uc) a"

definition RoomUseCase_Search where
  "RoomUseCase_Search (uc :: 'w room_usecase) a b c = room_Search (uc_RoomService uc) a b c"

definition RoomUseCase_EnsureDirectRoom where
  "RoomUseCase_EnsureDirectRoom (uc :: 'w room_usecase) a b = room_EnsureDirectRoom (uc_RoomService uc) a b"

definition RoomUseCase_Delete where
  "RoomUseCase_Delete (uc :: 'w room_usecase) a b = room_Delete (uc_RoomService uc) a b"

section \<open>MessageUseCase (message\_usecase.go)\<close>

record 'w message_usecase =
  uc_MessageService :: "'w message_service"

definition NewMessageUseCase :: "'w message_service \<Rightarrow> 'w message_usecase" where
  "NewMessageUseCase s = \<lparr>uc_MessageService = s\<rparr>"

definition MessageUseCase_Send where
  "MessageUseCase_Send (uc :: 'w message_usecase) a = message_Send (uc_MessageService uc) a"

definition MessageUseCase_ListByRoom where
  "MessageUseCase_ListByRoom (uc :: 'w message_usecase) a b c = message_ListByRoom (uc_MessageService uc) a b c"

definition MessageUseCase_ListAround where
  "MessageUseCase_ListAround (uc :: 'w message_usecase) a b c = message_ListAround (uc_MessageService uc) a b c"

definition MessageUseCase_MarkDelivered where
  "MessageUseCase_MarkDelivered (uc :: 'w message_usecase) a b = message_MarkDelivered (uc_MessageService uc) a b"

definition MessageUseCase_MarkRead where
  "MessageUseCase_MarkRead (uc :: 'w message_usecase) a b = message_MarkRead (uc_MessageService uc) a b"

definition MessageUseCase_Search where
  "MessageUseCase_Search (uc :: 'w message_usecase) a b c d = message_Search (uc_MessageService uc) a b c d"

definition MessageUseCase_Edit where
  "MessageUseCase_Edit (uc :: 'w message_usecase) a b c = message_Edit (uc_MessageService uc) a b c"

definition MessageUseCase_Delete where
  "MessageUseCase_Delete (uc :: 'w message_usecase) a b = message_Delete (uc_MessageService uc) a b"

lemmas use_case_defs =
  AuthUseCase_Register_def AuthUseCase_Login_def AuthUseCase_Refresh_def AuthUseCase_Logout_def
  AuthUseCase_ValidateAccessToken_def NewAuthUseCase_def UserUseCase_GetProfile_def UserUseCase_GetByEmail_def
  UserUseCase_UpdateStatus_def NewUserUseCase_def RoomUseCase_Create_def RoomUseCase_AddMember_def
  RoomUseCase_RemoveMember_def RoomUseCase_ListMembers_def RoomUseCase_Search_def RoomUseCase_EnsureDirectRoom_def
  RoomUseCase_Delete_def NewRoomUseCase_def MessageUseCase_Send_def MessageUseCase_ListByRoom_def
  MessageUseCase_ListAround_def MessageUseCase_MarkDelivered_def MessageUseCase_MarkRead_def MessageUseCase_Search_def
  MessageUseCase_Edit_def MessageUseCase_Delete_def NewMessageUseCase_def

end
