(* ===== verification/Http_Handlers.thy ===== *)
theory Http_Handlers
  imports Http_Helpers Use_Cases
begin

text \<open>
  The REST handlers of \<open>internal/delivery/http\<close>, each a function of its use case and the gin
  context, with every early return. \<open>fmt\<close> is the text of a time in JSON.
\<close>

text \<open>The two ways a handler ends on the result of its use case.\<close>

definition reply_value ::
  "(err \<Rightarrow> int \<times> string) \<Rightarrow> ('a \<Rightarrow> response) \<Rightarrow> ((err + 'a) \<times> 'w) \<Rightarrow> response \<times> 'w" where
  "reply_value mapping ok rw =
     (case rw of (Inl e, w) \<Rightarrow> (respond_error mapping e, w) | (Inr x, w) \<Rightarrow> (ok x, w))"

definition reply_done ::
  "(err \<Rightarrow> int \<times> string) \<Rightarrow> response \<Rightarrow> (err option \<times> 'w) \<Rightarrow> response \<times> 'w" where
  "reply_done mapping ok rw =
     (case rw of (Some e, w) \<Rightarrow> (respond_error mapping e, w) | (None, w) \<Rightarrow> (ok, w))"

definition unauthorized :: response where
  "unauthorized = respondJSONError 401 ''unauthorized''"

definition invalid_JSON :: response where
  "invalid_JSON = respondBadRequest ''invalid JSON payload''"

section \<open>Auth (auth\_handler.go)\<close>

record 'w auth_handler =
  h_authUC :: "'w auth_usecase"

definition NewAuthHandler :: "'w auth_usecase \<Rightarrow> 'w auth_handler" where
  "NewAuthHandler uc = \<lparr>h_authUC = uc\<rparr>"

record register_request =
  rr_Username :: string
  rr_Email :: string
  rr_Password :: string

definition register_request_fields :: "register_request field list" where
  "register_request_fields =
     [(''username'', set_str (\<lambda>s r. r\<lparr>rr_Username := s\<rparr>)), (''email'', set_str (\<lambda>s r. r\<lparr>rr_Email := s\<rparr>)),
      (''password'', set_str (\<lambda>s r. r\<lparr>rr_Password := s\<rparr>))]"

definition AuthHandler_register ::
  "'w auth_handler \<Rightarrow> (time \<Rightarrow> string) \<Rightarrow> gin_context \<Rightarrow> ('w, response) io" where
  "AuthHandler_register h fmt c w =
     (case ShouldBindJSON register_request_fields \<lparr>rr_Username = [], rr_Email = [], rr_Password = []\<rparr> c of
        None \<Rightarrow> (invalid_JSON, w)
      | Some req \<Rightarrow>
          reply_value mapAuthError (\<lambda>user. c_JSON 201 (user_payload_json fmt (toUserPayload user)))
            (AuthUseCase_Register (h_authUC h)
               \<lparr>ri_Username = rr_Username req, ri_Email = rr_Email req, ri_Password = rr_Password req\<rparr> w))"

record login_request =
  lr_Email :: string
  lr_Password :: string

definition login_request_fields :: "login_request field list" where
  "login_request_fields =
     [(''email'', set_str (\<lambda>s r. r\<lparr>lr_Email := s\<rparr>)), (''password'', set_str (\<lambda>s r. r\<lparr>lr_Password := s\<rparr>))]"

definition tokens_reply :: "token_pair \<Rightarrow> response" where
  "tokens_reply tokens =
     c_JSON 200 (token_payload_json
       \<lparr>tp_AccessToken = AccessToken tokens, tp_RefreshToken = RefreshToken tokens\<rparr>)"

definition AuthHandler_login :: "'w auth_handler \<Rightarrow> gin_context \<Rightarrow> ('w, response) io" where
  "AuthHandler_login h c w =
     (case ShouldBindJSON login_request_fields \<lparr>lr_Email = [], lr_Password = []\<rparr> c of
        None \<Rightarrow> (invalid_JSON, w)
      | Some req \<Rightarrow>
          reply_value mapAuthError tokens_reply
            (AuthUseCase_Login (h_authUC h) (lr_Email req) (lr_Password req) w))"

text \<open>The bodies with one text field.\<close>

record text_request =
  tr_text :: string

definition text_request_fields :: "string \<Rightarrow> text_request field list" where
  "text_request_fields key = [(key, set_str (\<lambda>s r. r\<lparr>tr_text := s\<rparr>))]"

definition bind_text :: "string \<Rightarrow> gin_context \<Rightarrow> string option" where
  "bind_text key c = map_option tr_text (ShouldBindJSON (text_request_fields key) \<lparr>tr_text = []\<rparr> c)"

definition AuthHandler_refresh :: "'w auth_handler \<Rightarrow> gin_context \<Rightarrow> ('w, response) io" where
  "AuthHandler_refresh h c w =
     (case bind_text ''refresh_token'' c of
        None \<Rightarrow> (invalid_JSON, w)
      | Some refreshToken \<Rightarrow>
          reply_value mapAuthError tokens_reply (AuthUseCase_Refresh (h_authUC h) refreshToken w))"

definition AuthHandler_logout :: "'w auth_handler \<Rightarrow> gin_context \<Rightarrow> ('w, response) io" where
  "AuthHandler_logout h c w =
     (case bind_text ''user_id'' c of
        None \<Rightarrow> (invalid_JSON, w)
      | Some userID \<Rightarrow>
          if userID = [] then (respondBadRequest ''user_id is required'', w)
          else reply_done mapAuthError (c_Status 204) (AuthUseCase_Logout (h_authUC h) userID w))"

section \<open>Users (user\_handler.go)\<close>

record 'w user_handler =
  h_userUC :: "'w user_usecase"

definition NewUserHandler :: "'w user_usecase \<Rightarrow> 'w user_handler" where
  "NewUserHandler uc = \<lparr>h_userUC = uc\<rparr>"

definition user_reply :: "(time \<Rightarrow> string) \<Rightarrow> user \<Rightarrow> response" where
  "user_reply fmt u = c_JSON 200 (user_payload_json fmt (toUserPayload u))"

definition UserHandler_getProfile ::
  "'w user_handler \<Rightarrow> (time \<Rightarrow> string) \<Rightarrow> gin_context \<Rightarrow> ('w, response) io" where
  "UserHandler_getProfile h fmt c w =
     reply_value mapUserError (user_reply fmt)
       (UserUseCase_GetProfile (h_userUC h) (ctx_Param c ''userID'') w)"

definition UserHandler_getByEmail ::
  "'w user_handler \<Rightarrow> (time \<Rightarrow> string) \<Rightarrow> gin_context \<Rightarrow> ('w, response) io" where
  "UserHandler_getByEmail h fmt c w =
     (let email = c_Query c ''email'' in
      if email = [] then (respondBadRequest ''email query parameter is required'', w)
      else reply_value mapUserError (user_reply fmt) (UserUseCase_GetByEmail (h_userUC h) email w))"

definition UserHandler_updateStatus :: "'w user_handler \<Rightarrow> gin_context \<Rightarrow> ('w, response) io" where
  "UserHandler_updateStatus h c w =
     (case bind_text ''status'' c of
        None \<Rightarrow> (invalid_JSON, w)
      | Some status \<Rightarrow>
          if status = [] then (respondBadRequest ''status is required'', w)
          else reply_done mapUserError (c_Status 204)
                 (UserUseCase_UpdateStatus (h_userUC h) (ctx_Param c ''userID'') status w))"

section \<open>Rooms (room\_handler.go)\<close>

record 'w room_handler =
  h_roomUC :: "'w room_usecase"

definition NewRoomHandler :: "'w room_usecase \<Rightarrow> 'w room_handler" where
  "NewRoomHandler uc = \<lparr>h_roomUC = uc\<rparr>"

definition RoomHandler_search ::
  "'w room_handler \<Rightarrow> (time \<Rightarrow> string) \<Rightarrow> gin_context \<Rightarrow> ('w, response) io" where
  "RoomHandler_search h fmt c w =
     (case currentUserID c of
        None \<Rightarrow> (unauthorized, w)
      | Some userID \<Rightarrow>
          (case positive_param c ''limit'' 0 of
             None \<Rightarrow> (respondBadRequest ''invalid limit parameter'', w)
           | Some limit \<Rightarrow>
               reply_value mapRoomError
                 (\<lambda>rooms. c_JSON 200 (JObj [(''rooms'',
                    JArr (map (room_payload_json fmt) (toRoomPayloads rooms)))]))
                 (RoomUseCase_Search (h_roomUC h) userID (c_Query c ''q'') limit w)))"

record member_request =
  mr_UserID :: string
  mr_Role :: string

definition member_request_fields :: "member_request field list" where
  "member_request_fields =
     [(''user_id'', set_str (\<lambda>s r. r\<lparr>mr_UserID := s\<rparr>)), (''role'', set_str (\<lambda>s r. r\<lparr>mr_Role := s\<rparr>))]"

definition zero_member_request :: member_request where
  "zero_member_request = \<lparr>mr_UserID = [], mr_Role = []\<rparr>"

record create_room_request =
  crr_Name :: string
  crr_IsGroup :: bool
  crr_CreatorID :: string
  crr_Members :: "member_request list"

definition create_room_request_fields :: "create_room_request field list" where
  "create_room_request_fields =
     [(''name'', set_str (\<lambda>s r. r\<lparr>crr_Name := s\<rparr>)), (''is_group'', set_bool (\<lambda>b r. r\<lparr>crr_IsGroup := b\<rparr>)),
      (''creator_id'', set_str (\<lambda>s r. r\<lparr>crr_CreatorID := s\<rparr>)),
      (''members'', set_list member_request_fields zero_member_request (\<lambda>l r. r\<lparr>crr_Members := l\<rparr>))]"

definition to_member_input :: "member_request \<Rightarrow> room_member_input" where
  "to_member_input m = \<lparr>rmi_UserID = mr_UserID m, rmi_Role = mr_Role m\<rparr>"

definition RoomHandler_create ::
  "'w room_handler \<Rightarrow> (time \<Rightarrow> string) \<Rightarrow> gin_context \<Rightarrow> ('w, response) io" where
  "RoomHandler_create h fmt c w =
     (case ShouldBindJSON create_room_request_fields
             \<lparr>crr_Name = [], crr_IsGroup = False, crr_CreatorID = [], crr_Members = []\<rparr> c of
        None \<Rightarrow> (invalid_JSON, w)
      | Some req \<Rightarrow>
          reply_value mapRoomError (\<lambda>room. c_JSON 201 (room_payload_json fmt (toRoomPayload room)))
            (RoomUseCase_Create (h_roomUC h)
               \<lparr>cri_Name = crr_Name req, cri_IsGroup = crr_IsGroup req, cri_CreatorID = crr_CreatorID req,
                cri_Members = map to_member_input (crr_Members req)\<rparr> w))"

definition RoomHandler_ensureDirectRoom ::
  "'w room_handler \<Rightarrow> (time \<Rightarrow> string) \<Rightarrow> gin_context \<Rightarrow> ('w, response) io" where
  "RoomHandler_ensureDirectRoom h fmt c w =
     (case currentUserID c of
        None \<Rightarrow> (unauthorized, w)
      | Some userID \<Rightarrow>
          (case bind_text ''peer_user_id'' c of
             None \<Rightarrow> (invalid_JSON, w)
           | Some peer \<Rightarrow>
               reply_value mapRoomError
                 (\<lambda>(room, created). c_JSON (if created then 201 else 200)
                    (room_payload_json fmt (toRoomPayload room)))
                 (RoomUseCase_EnsureDirectRoom (h_roomUC h) userID peer w)))"

definition RoomHandler_addMember :: "'w room_handler \<Rightarrow> gin_context \<Rightarrow> ('w, response) io" where
  "RoomHandler_addMember h c w =
     (case ShouldBindJSON member_request_fields zero_member_request c of
        None \<Rightarrow> (invalid_JSON, w)
      | Some req \<Rightarrow>
          reply_done mapRoomError (c_Status 204)
            (RoomUseCase_AddMember (h_roomUC h) (ctx_Param c ''roomID'') (mr_UserID req) (mr_Role req) w))"

definition RoomHandler_removeMember :: "'w room_handler \<Rightarrow> gin_context \<Rightarrow> ('w, response) io" where
  "RoomHandler_removeMember h c w =
     reply_done mapRoomError (c_Status 204)
       (RoomUseCase_RemoveMember (h_roomUC h) (ctx_Param c ''roomID'') (ctx_Param c ''userID'') w)"

definition RoomHandler_listMembers :: "'w room_handler \<Rightarrow> gin_context \<Rightarrow> ('w, response) io" where
  "RoomHandler_listMembers h c w =
     reply_value mapRoomError
       (\<lambda>members. c_JSON 200 (JObj [(''members'',
          JArr (map room_member_payload_json (toRoomMemberPayloads members)))]))
       (RoomUseCase_ListMembers (h_roomUC h) (ctx_Param c ''roomID'') w)"

definition RoomHandler_deleteRoom :: "'w room_handler \<Rightarrow> gin_context \<Rightarrow> ('w, response) io" where
  "RoomHandler_deleteRoom h c w =
     (case currentUserID c of
        None \<Rightarrow> (unauthorized, w)
      | Some userID \<Rightarrow>
          reply_done mapRoomError (c_Status 204)
            (RoomUseCase_Delete (h_roomUC h) (ctx_Param c ''roomID'') userID w))"

section \<open>Messages (message\_handler.go)\<close>

record 'w message_handler =
  h_messageUC :: "'w message_usecase"

definition NewMessageHandler :: "'w message_usecase \<Rightarrow> 'w message_handler" where
  "NewMessageHandler uc = \<lparr>h_messageUC = uc\<rparr>"

record attachment_request =
  ar_URL :: string
  ar_MimeType :: string
  ar_SizeBytes :: int

definition attachment_request_fields :: "attachment_request field list" where
  "attachment_request_fields =
     [(''url'', set_str (\<lambda>s r. r\<lparr>ar_URL := s\<rparr>)), (''mime_type'', set_str (\<lambda>s r. r\<lparr>ar_MimeType := s\<rparr>)),
      (''size_bytes'', set_int64 (\<lambda>n r. r\<lparr>ar_SizeBytes := n\<rparr>))]"

record send_request =
  sr_Content :: string
  sr_Attachments :: "attachment_request list"

definition send_request_fields :: "send_request field list" where
  "send_request_fields =
     [(''content'', set_str (\<lambda>s r. r\<lparr>sr_Content := s\<rparr>)),
      (''attachments'', set_list attachment_request_fields \<lparr>ar_URL = [], ar_MimeType = [], ar_SizeBytes = 0\<rparr>
         (\<lambda>l r. r\<lparr>sr_Attachments := l\<rparr>))]"

definition to_attachment :: "attachment_request \<Rightarrow> attachment" where
  "to_attachment att =
     \<lparr>att_ID = [], att_MessageID = [], att_URL = ar_URL att, att_MimeType = ar_MimeType att,
      att_SizeBytes = ar_SizeBytes att\<rparr>"

definition MessageHandler_send ::
  "'w message_handler \<Rightarrow> (time \<Rightarrow> string) \<Rightarrow> gin_context \<Rightarrow> ('w, response) io" where
  "MessageHandler_send h fmt c w =
     (case ShouldBindJSON send_request_fields \<lparr>sr_Content = [], sr_Attachments = []\<rparr> c of
        None \<Rightarrow> (invalid_JSON, w)
      | Some req \<Rightarrow>
          (case currentUserID c of
             None \<Rightarrow> (unauthorized, w)
           | Some userID \<Rightarrow>
               reply_value mapMessageError
                 (\<lambda>msg. c_JSON 201 (message_payload_json fmt (toMessagePayload msg)))
                 (MessageUseCase_Send (h_messageUC h)
                    \<lparr>smi_RoomID = ctx_Param c ''roomID'', smi_SenderID = userID,
                     smi_Content = sr_Content req,
                     smi_Attachments = map to_attachment (sr_Attachments req)\<rparr> w)))"

definition messages_reply :: "(time \<Rightarrow> string) \<Rightarrow> message list \<Rightarrow> response" where
  "messages_reply fmt msgs =
     c_JSON 200 (JObj [(''messages'', JArr (map (message_payload_json fmt) (toMessagePayloads msgs)))])"

definition MessageHandler_listByRoom ::
  "'w message_handler \<Rightarrow> (time \<Rightarrow> string) \<Rightarrow> gin_context \<Rightarrow> ('w, response) io" where
  "MessageHandler_listByRoom h fmt c w =
     (let roomID = ctx_Param c ''roomID''; aroundID = c_Query c ''around_message_id'' in
      if aroundID \<noteq> []
      then (case positive_param c ''limit'' 0 of
              None \<Rightarrow> (respondBadRequest ''invalid limit parameter'', w)
            | Some limit \<Rightarrow>
                reply_value mapMessageError (messages_reply fmt)
                  (MessageUseCase_ListAround (h_messageUC h) roomID aroundID limit w))
      else (case parsePagination c of
              None \<Rightarrow> (respondBadRequest ''invalid pagination parameters'', w)
            | Some (page, limit) \<Rightarrow>
                reply_value mapMessageError (messages_reply fmt)
                  (MessageUseCase_ListByRoom (h_messageUC h) roomID page limit w)))"

definition MessageHandler_markDelivered :: "'w message_handler \<Rightarrow> gin_context \<Rightarrow> ('w, response) io" where
  "MessageHandler_markDelivered h c w =
     (case currentUserID c of
        None \<Rightarrow> (unauthorized, w)
      | Some userID \<Rightarrow>
          reply_done mapMessageError (c_Status 204)
            (MessageUseCase_MarkDelivered (h_messageUC h) (ctx_Param c ''messageID'') userID w))"

definition MessageHandler_markRead :: "'w message_handler \<Rightarrow> gin_context \<Rightarrow> ('w, response) io" where
  "MessageHandler_markRead h c w =
     (case currentUserID c of
        None \<Rightarrow> (unauthorized, w)
      | Some userID \<Rightarrow>
          reply_done mapMessageError (c_Status 204)
            (MessageUseCase_MarkRead (h_messageUC h) (ctx_Param c ''messageID'') userID w))"

text \<open>The room of the path is compared with the room of the message after the call.\<close>

definition room_checked :: "gin_context \<Rightarrow> (message \<Rightarrow> response) \<Rightarrow> message \<Rightarrow> response" where
  "room_checked c ok msg =
     (if msg_RoomID msg \<noteq> ctx_Param c ''roomID''
      then respondJSONError 404 ''messages: message not found'' else ok msg)"

definition MessageHandler_edit ::
  "'w message_handler \<Rightarrow> (time \<Rightarrow> string) \<Rightarrow> gin_context \<Rightarrow> ('w, response) io" where
  "MessageHandler_edit h fmt c w =
     (case currentUserID c of
        None \<Rightarrow> (unauthorized, w)
      | Some userID \<Rightarrow>
          (case bind_text ''content'' c of
             None \<Rightarrow> (invalid_JSON, w)
           | Some content \<Rightarrow>
               reply_value mapMessageError
                 (room_checked c (\<lambda>msg. c_JSON 200 (message_payload_json fmt (toMessagePayload msg))))
                 (MessageUseCase_Edit (h_messageUC h) (ctx_Param c ''messageID'') userID content w)))"

definition MessageHandler_remove :: "'w message_handler \<Rightarrow> gin_context \<Rightarrow> ('w, response) io" where
  "MessageHandler_remove h c w =
     (case currentUserID c of
        None \<Rightarrow> (unauthorized, w)
      | Some userID \<Rightarrow>
          reply_value mapMessageError (room_checked c (\<lambda>_. c_Status 204))
            (MessageUseCase_Delete (h_messageUC h) (ctx_Param c ''messageID'') userID w))"

definition MessageHandler_search ::
  "'w message_handler \<Rightarrow> (time \<Rightarrow> string) \<Rightarrow> gin_context \<Rightarrow> ('w, response) io" where
  "MessageHandler_search h fmt c w =
     (case currentUserID c of
        None \<Rightarrow> (unauthorized, w)
      | Some userID \<Rightarrow>
          (let query = TrimSpace (c_Query c ''q'') in
           if query = [] then (respondBadRequest ''query parameter q is required'', w)
           else case positive_param c ''limit'' 0 of
             None \<Rightarrow> (respondBadRequest ''invalid limit parameter'', w)
           | Some limit \<Rightarrow>
               reply_value mapMessageError (messages_reply fmt)
                 (MessageUseCase_Search (h_messageUC h) userID (c_Query c ''room_id'') query limit w)))"

end
