(* ===== verification/Middleware.thy ===== *)
theory Middleware
  imports Http_Helpers
begin

text \<open>
  \<open>pkg/middleware\<close>: bearer authentication, CORS and the limiter of requests per client. A
  middleware takes the rest of the chain as its argument and calls it or answers itself. The
  limiter's buckets (\<open>golang.org/x/time/rate\<close>) are a parameter: the state of a bucket, how a new
  one is made and what \<open>Allow\<close> answers at a time.
\<close>

section \<open>Authentication (auth.go)\<close>

definition extractBearerToken :: "string \<Rightarrow> string" where
  "extractBearerToken header =
     (let parts = splitn2 CHR '' '' header in
      if length parts \<noteq> 2 \<or> \<not> equal_fold_ascii (parts ! 0) ''Bearer'' then []
      else TrimSpace (parts ! 1))"

text \<open>The token of a request: of the \<open>Authorization\<close> header, or else of \<open>X-Auth-Token\<close>.\<close>

definition request_token :: "http_request \<Rightarrow> string" where
  "request_token r =
     (let token = extractBearerToken (rq_Authorization r)
      in if token = [] then TrimSpace (rq_XAuthToken r) else token)"

definition Auth_middleware ::
  "(string \<Rightarrow> ('w, err + string) io) option \<Rightarrow> (gin_context \<Rightarrow> ('w, response) io) \<Rightarrow>
   gin_context \<Rightarrow> ('w, response) io" where
  "Auth_middleware validator next c w =
     (case validator of
        None \<Rightarrow> (respondJSONError 500 ''auth middleware not configured'', w)
      | Some validate \<Rightarrow>
          (let token = request_token (ctx_req c) in
           if token = [] then (respondJSONError 401 ''missing bearer token'', w)
           else case validate token w of
             (Inl e, w1) \<Rightarrow> (respondJSONError 401 ''invalid access token'', w1)
           | (Inr userID, w1) \<Rightarrow> next (c\<lparr>ctx_userID := Some userID\<rparr>) w1))"

section \<open>CORS (cors.go)\<close>

definition parseAllowedOrigins :: "string \<Rightarrow> string list" where
  "parseAllowedOrigins val0 =
     (let val = (if blank val0 then ''https://chatterstack.vercel.app'' else val0)
      in filter (\<lambda>x. x \<noteq> []) (map TrimSpace (split_on CHR '','' val)))"

definition isAllowedOrigin :: "string \<Rightarrow> string list \<Rightarrow> bool" where
  "isAllowedOrigin origin allowed \<longleftrightarrow> origin \<in> set allowed"

definition cors_headers :: "string list \<Rightarrow> string \<Rightarrow> (string \<times> string) list" where
  "cors_headers allowed origin =
     (if origin \<noteq> [] \<and> isAllowedOrigin origin allowed
      then [(''Access-Control-Allow-Origin'', origin), (''Vary'', ''Origin''),
            (''Access-Control-Allow-Methods'', ''GET,POST,PUT,PATCH,DELETE,OPTIONS''),
            (''Access-Control-Allow-Headers'', ''Content-Type, Authorization, X-Auth-Token''),
            (''Access-Control-Allow-Credentials'', ''true''), (''Access-Control-Max-Age'', ''600'')]
      else [])"

definition with_headers :: "(string \<times> string) list \<Rightarrow> response \<Rightarrow> response" where
  "with_headers hs r = r\<lparr>rs_Header := hs @ rs_Header r\<rparr>"

definition CORS ::
  "string list \<Rightarrow> (http_request \<Rightarrow> ('w, response) io) \<Rightarrow> http_request \<Rightarrow> ('w, response) io" where
  "CORS allowed next r w =
     (let hs = cors_headers allowed (rq_Origin r) in
      if rq_Method r = ''OPTIONS'' then (with_headers hs (c_Status 200), w)
      else case next r w of (rsp, w1) \<Rightarrow> (with_headers hs rsp, w1))"

section \<open>The rate limiter (rate\_limit.go)\<close>

text \<open>
  A rate is the quotient of a number of requests and a window in nanoseconds; the library reads
  it as a floating-point number of requests per second.
\<close>

record 'l rate_lib =
  NewLimiter :: "int \<times> int \<Rightarrow> int \<Rightarrow> 'l"
  Allow :: "'l \<Rightarrow> time \<Rightarrow> bool \<times> 'l"

record rate_config =
  rlc_Requests :: int
  rlc_Window :: int
  rlc_Burst :: int

record 'l visitor =
  v_limiter :: 'l
  v_lastSeen :: time

record 'l rate_limiter =
  rl_limit :: "int \<times> int"
  rl_burst :: int
  rl_window :: int
  rl_visitors :: "string \<rightharpoonup> 'l visitor"

definition RateLimit :: "rate_config \<Rightarrow> 'l rate_limiter" where
  "RateLimit cfg =
     (let requests = (if rlc_Requests cfg \<le> 0 then 100 else rlc_Requests cfg);
          window = (if rlc_Window cfg \<le> 0 then 60 * 10 ^ 9 else rlc_Window cfg);
          burst = (if rlc_Burst cfg \<le> 0 then requests else rlc_Burst cfg)
      in \<lparr>rl_limit = (requests, window), rl_burst = burst, rl_window = window, rl_visitors = Map.empty\<rparr>)"

text \<open>\<open>getVisitor\<close> at time \<open>now\<close>: the bucket of the key and the table with its visitor marked seen.\<close>

definition getVisitor ::
  "'l rate_lib \<Rightarrow> string \<Rightarrow> time \<Rightarrow> 'l rate_limiter \<Rightarrow> 'l \<times> 'l rate_limiter" where
  "getVisitor lib key now rl =
     (case rl_visitors rl key of
        Some v \<Rightarrow>
          (v_limiter v, rl\<lparr>rl_visitors := (rl_visitors rl)(key \<mapsto> v\<lparr>v_lastSeen := now\<rparr>)\<rparr>)
      | None \<Rightarrow>
          (let limiter = NewLimiter lib (rl_limit rl) (rl_burst rl)
           in (limiter, rl\<lparr>rl_visitors := (rl_visitors rl)(key \<mapsto> \<lparr>v_limiter = limiter, v_lastSeen = now\<rparr>)\<rparr>)))"

text \<open>The bucket is shared with the table: what \<open>Allow\<close> takes from it, the visitor keeps.\<close>

definition store_limiter :: "string \<Rightarrow> 'l \<Rightarrow> 'l rate_limiter \<Rightarrow> 'l rate_limiter" where
  "store_limiter key limiter rl =
     rl\<lparr>rl_visitors := (rl_visitors rl)(key := map_option (\<lambda>v. v\<lparr>v_limiter := limiter\<rparr>) (rl_visitors rl key))\<rparr>"

definition rate_handle ::
  "'l rate_lib \<Rightarrow> string \<Rightarrow> time \<Rightarrow> 'l rate_limiter \<Rightarrow> bool \<times> 'l rate_limiter" where
  "rate_handle lib key now rl =
     (case getVisitor lib key now rl of (limiter, rl1) \<Rightarrow>
      case Allow lib limiter now of (ok, limiter1) \<Rightarrow> (ok, store_limiter key limiter1 rl1))"

text \<open>One turn of \<open>cleanup\<close>.\<close>

definition rate_cleanup :: "time \<Rightarrow> 'l rate_limiter \<Rightarrow> 'l rate_limiter" where
  "rate_cleanup now rl =
     (let cutoff = now + wrap64 (- rl_window rl * 2)
      in rl\<lparr>rl_visitors := (\<lambda>key. case rl_visitors rl key of
              None \<Rightarrow> None
            | Some v \<Rightarrow> if v_lastSeen v < cutoff then None else Some v)\<rparr>)"

definition too_many_requests :: response where
  "too_many_requests = respondJSONError 429 ''too many requests''"

section \<open>Every client has a limiter of its own\<close>

datatype rate_event = Request string time | Cleanup time

text \<open>The decisions on a history of requests and clean-ups, with the keys they are for.\<close>

fun rate_run ::
  "'l rate_lib \<Rightarrow> 'l rate_limiter \<Rightarrow> rate_event list \<Rightarrow> (string \<times> bool) list" where
  "rate_run lib rl [] = []"
| "rate_run lib rl (Request k t # es) =
     (case rate_handle lib k t rl of (ok, rl1) \<Rightarrow> (k, ok) # rate_run lib rl1 es)"
| "rate_run lib rl (Cleanup t # es) = rate_run lib (rate_cleanup t rl) es"

text \<open>
  The reference: one bucket for one client, made at its first request, with the time it was last
  used; it is thrown away at a clean-up more than two windows after that.
\<close>

fun solo_run ::
  "'l rate_lib \<Rightarrow> int \<times> int \<Rightarrow> int \<Rightarrow> int \<Rightarrow> string \<Rightarrow> ('l \<times> time) option \<Rightarrow> rate_event list \<Rightarrow> bool list" where
  "solo_run lib lim burst win k st [] = []"
| "solo_run lib lim burst win k st (Request k' t # es) =
     (if k' \<noteq> k then solo_run lib lim burst win k st es
      else case Allow lib (case st of None \<Rightarrow> NewLimiter lib lim burst | Some (b, _) \<Rightarrow> b) t of
        (ok, b1) \<Rightarrow> ok # solo_run lib lim burst win k (Some (b1, t)) es)"
| "solo_run lib lim burst win k st (Cleanup t # es) =
     solo_run lib lim burst win k
       (case st of None \<Rightarrow> None
        | Some (b, seen) \<Rightarrow> if seen < t + wrap64 (- win * 2) then None else Some (b, seen)) es"

definition solo_state :: "'l rate_limiter \<Rightarrow> string \<Rightarrow> ('l \<times> time) option" where
  "solo_state rl k = map_option (\<lambda>v. (v_limiter v, v_lastSeen v)) (rl_visitors rl k)"

lemma handle_static:
  "rate_handle lib k t rl = (ok, rl') \<Longrightarrow>
   rl_limit rl' = rl_limit rl \<and> rl_burst rl' = rl_burst rl \<and> rl_window rl' = rl_window rl"
  by (auto simp: rate_handle_def getVisitor_def store_limiter_def Let_def split: option.splits prod.splits)

lemma handle_other: "rate_handle lib k' t rl = (ok, rl') \<Longrightarrow> k' \<noteq> k \<Longrightarrow> solo_state rl' k = solo_state rl k"
  by (auto simp: rate_handle_def getVisitor_def store_limiter_def Let_def solo_state_def
      split: option.splits prod.splits)

lemma handle_own:
  assumes "rate_handle lib k t rl = (ok, rl')"
  shows "\<exists>b1. Allow lib (case solo_state rl k of None \<Rightarrow> NewLimiter lib (rl_limit rl) (rl_burst rl)
      | Some (b, _) \<Rightarrow> b) t = (ok, b1) \<and> solo_state rl' k = Some (b1, t)"
  using assms
  by (auto simp: rate_handle_def getVisitor_def store_limiter_def Let_def solo_state_def
      split: option.splits prod.splits)

lemma cleanup_static:
  "rl_limit (rate_cleanup t rl) = rl_limit rl" "rl_burst (rate_cleanup t rl) = rl_burst rl"
  "rl_window (rate_cleanup t rl) = rl_window rl"
  by (simp_all add: rate_cleanup_def Let_def)

lemma cleanup_own:
  "solo_state (rate_cleanup t rl) k =
     (case solo_state rl k of None \<Rightarrow> None
      | Some (b, seen) \<Rightarrow> if seen < t + wrap64 (- rl_window rl * 2) then None else Some (b, seen))"
  by (auto simp: rate_cleanup_def Let_def solo_state_def split: option.splits)

text \<open>
  C23: The shared table of the limiter decides the requests of each client exactly as a single
  bucket of that client would, which only a clean-up more than two windows after the client's last
  request throws away: the requests of other clients never change an answer.
\<close>

theorem rate_limit_per_client:
  "map snd (filter (\<lambda>d. fst d = k) (rate_run lib rl es))
     = solo_run lib (rl_limit rl) (rl_burst rl) (rl_window rl) k (solo_state rl k) es"
proof (induction es arbitrary: rl)
  case (Cons e es)
  show ?case
  proof (cases e)
    case (Request k' t)
    obtain ok rl1 where h: "rate_handle lib k' t rl = (ok, rl1)" by fastforce
    note IH = Cons.IH[of rl1, unfolded handle_static[OF h, THEN conjunct1]
        handle_static[OF h, THEN conjunct2, THEN conjunct1] handle_static[OF h, THEN conjunct2, THEN conjunct2]]
    show ?thesis
    proof (cases "k' = k")
      case True
      from handle_own[OF h] obtain b1 where b1:
        "Allow lib (case solo_state rl k' of None \<Rightarrow> NewLimiter lib (rl_limit rl) (rl_burst rl)
          | Some (b, _) \<Rightarrow> b) t = (ok, b1)" "solo_state rl1 k' = Some (b1, t)" by blast
      with IH True h show ?thesis by (simp add: Request)
    next
      case False
      with IH handle_other[OF h] h show ?thesis by (simp add: Request)
    qed
  next
    case (Cleanup t)
    with Cons.IH[of "rate_cleanup t rl"] show ?thesis by (simp add: cleanup_static cleanup_own)
  qed
qed simp

end
