(* ===== verification/Router.thy ===== *)
theory Router
  imports Http_Handlers Middleware
begin

text \<open>
  The routes of the API (\<open>router.go\<close> and the \<open>RegisterRoutes\<close> of the handlers) and the chain of a
  request as \<open>startAPIServer\<close> builds it: recovery, CORS, the rate limiter, the route, the
  authentication of the protected groups, the handler. gin's matching is taken for paths in
  canonical form: a literal segment matches itself and \<open>:name\<close> any one segment, so at most one
  route matches (\<open>routes_unambiguous\<close>); its redirects of other spellings are left out.
\<close>

record 'w services =
  svc_Auth :: "'w auth_usecase"
  svc_User :: "'w user_usecase"
  svc_Room :: "'w room_usecase"
  svc_Message :: "'w message_usecase"

datatype endpoint =
    Health
  | Auth_register | Auth_login | Auth_refresh | Auth_logout
  | User_getByEmail | User_getProfile | User_updateStatus
  | Room_search | Room_create | Room_ensureDirectRoom | Room_addMember | Room_removeMember
  | Room_listMembers | Room_deleteRoom
  | Message_listByRoom | Message_send | Message_markDelivered | Message_markRead | Message_edit
  | Message_remove | Message_search

datatype segment = Lit string | Par string

type_synonym route = "string \<times> segment list \<times> endpoint"

definition auth_routes :: "segment list \<Rightarrow> route list" where
  "auth_routes g =
     [(''POST'', g @ [Lit ''register''], Auth_register), (''POST'', g @ [Lit ''login''], Auth_login),
      (''POST'', g @ [Lit ''refresh''], Auth_refresh), (''POST'', g @ [Lit ''logout''], Auth_logout)]"

definition user_routes :: "segment list \<Rightarrow> route list" where
  "user_routes g =
     [(''GET'', g, User_getByEmail), (''GET'', g @ [Par ''userID''], User_getProfile),
      (''PATCH'', g @ [Par ''userID'', Lit ''status''], User_updateStatus)]"

definition room_routes :: "segment list \<Rightarrow> route list" where
  "room_routes g =
     [(''GET'', g, Room_search), (''POST'', g, Room_create),
      (''POST'', g @ [Lit ''direct''], Room_ensureDirectRoom),
      (''POST'', g @ [Par ''roomID'', Lit ''members''], Room_addMember),
      (''DELETE'', g @ [Par ''roomID'', Lit ''members'', Par ''userID''], Room_removeMember),
      (''GET'', g @ [Par ''roomID'', Lit ''members''], Room_listMembers),
      (''DELETE'', g @ [Par ''roomID''], Room_deleteRoom)]"

definition message_routes :: "segment list \<Rightarrow> route list" where
  "message_routes g =
     [(''GET'', g @ [Par ''roomID'', Lit ''messages''], Message_listByRoom),
      (''POST'', g @ [Par ''roomID'', Lit ''messages''], Message_send),
      (''POST'', g @ [Par ''roomID'', Lit ''messages'', Par ''messageID'', Lit ''deliver''], Message_markDelivered),
      (''POST'', g @ [Par ''roomID'', Lit ''messages'', Par ''messageID'', Lit ''read''], Message_markRead),
      (''PATCH'', g @ [Par ''roomID'', Lit ''messages'', Par ''messageID''], Message_edit),
      (''DELETE'', g @ [Par ''roomID'', Lit ''messages'', Par ''messageID''], Message_remove)]"

definition search_routes :: "segment list \<Rightarrow> route list" where
  "search_routes g = [(''GET'', g @ [Lit ''search''], Message_search)]"

definition open_routes :: "route list" where
  "open_routes = (''GET'', [Lit ''health''], Health) # auth_routes [Lit ''v1'', Lit ''auth'']"

definition protected_routes :: "route list" where
  "protected_routes =
     user_routes [Lit ''v1'', Lit ''users''] @ room_routes [Lit ''v1'', Lit ''rooms''] @
     message_routes [Lit ''v1'', Lit ''rooms''] @ search_routes [Lit ''v1'', Lit ''messages'']"

fun match_path :: "segment list \<Rightarrow> string list \<Rightarrow> bool" where
  "match_path [] [] = True"
| "match_path (Lit s # ps) (x # xs) = (s = x \<and> match_path ps xs)"
| "match_path (Par n # ps) (x # xs) = match_path ps xs"
| "match_path _ _ = False"

fun path_param :: "segment list \<Rightarrow> string list \<Rightarrow> string \<Rightarrow> string" where
  "path_param (Par n # ps) (x # xs) k = (if k = n then x else path_param ps xs k)"
| "path_param (Lit s # ps) (x # xs) k = path_param ps xs k"
| "path_param _ _ k = []"

definition matches :: "http_request \<Rightarrow> route \<Rightarrow> bool" where
  "matches r rt = (case rt of (meth, ps, e) \<Rightarrow> meth = rq_Method r \<and> match_path ps (rq_Path r))"

definition find_route :: "route list \<Rightarrow> http_request \<Rightarrow> (endpoint \<times> gin_context) option" where
  "find_route rs r =
     (case find (matches r) rs of
        None \<Rightarrow> None
      | Some (meth, ps, e) \<Rightarrow>
          Some (e, \<lparr>ctx_req = r, ctx_Param = path_param ps (rq_Path r), ctx_userID = None\<rparr>))"

definition call_handler ::
  "'w services \<Rightarrow> (time \<Rightarrow> string) \<Rightarrow> endpoint \<Rightarrow> gin_context \<Rightarrow> ('w, response) io" where
  "call_handler svc fmt e c =
     (let ah = NewAuthHandler (svc_Auth svc); uh = NewUserHandler (svc_User svc);
          rh = NewRoomHandler (svc_Room svc); mh = NewMessageHandler (svc_Message svc) in
      case e of
        Health \<Rightarrow> (\<lambda>w. (c_Status 200, w))
      | Auth_register \<Rightarrow> AuthHandler_register ah fmt c
      | Auth_login \<Rightarrow> AuthHandler_login ah c
      | Auth_refresh \<Rightarrow> AuthHandler_refresh ah c
      | Auth_logout \<Rightarrow> AuthHandler_logout ah c
      | User_getByEmail \<Rightarrow> UserHandler_getByEmail uh fmt c
      | User_getProfile \<Rightarrow> UserHandler_getProfile uh fmt c
      | User_updateStatus \<Rightarrow> UserHandler_updateStatus uh c
      | Room_search \<Rightarrow> RoomHandler_search rh fmt c
      | Room_create \<Rightarrow> RoomHandler_create rh fmt c
      | Room_ensureDirectRoom \<Rightarrow> RoomHandler_ensureDirectRoom rh fmt c
      | Room_addMember \<Rightarrow> RoomHandler_addMember rh c
      | Room_removeMember \<Rightarrow> RoomHandler_removeMember rh c
      | Room_listMembers \<Rightarrow> RoomHandler_listMembers rh c
      | Room_deleteRoom \<Rightarrow> RoomHandler_deleteRoom rh c
      | Message_listByRoom \<Rightarrow> MessageHandler_listByRoom mh fmt c
      | Message_send \<Rightarrow> MessageHandler_send mh fmt c
      | Message_markDelivered \<Rightarrow> MessageHandler_markDelivered mh c
      | Message_markRead \<Rightarrow> MessageHandler_markRead mh c
      | Message_edit \<Rightarrow> MessageHandler_edit mh fmt c
      | Message_remove \<Rightarrow> MessageHandler_remove mh c
      | Message_search \<Rightarrow> MessageHandler_search mh fmt c)"

text \<open>\<open>RegisterRoutes\<close>: the open routes, and the protected ones behind the authentication.\<close>

definition RegisterRoutes ::
  "'w services \<Rightarrow> (time \<Rightarrow> string) \<Rightarrow> http_request \<Rightarrow> ('w, response) io" where
  "RegisterRoutes svc fmt r w =
     (case find_route open_routes r of
        Some (e, c) \<Rightarrow> call_handler svc fmt e c w
      | None \<Rightarrow>
        (case find_route protected_routes r of
           Some (e, c) \<Rightarrow>
             Auth_middleware (Some (AuthUseCase_ValidateAccessToken (svc_Auth svc)))
               (call_handler svc fmt e) c w
         | None \<Rightarrow> (c_Status 404, w)))"

text \<open>The server: the limiter is consulted at the time of the run-time clock.\<close>

record ('w, 'l) api_server =
  srv_services :: "'w services"
  srv_rt :: "'w runtime"
  srv_origins :: "string list"
  srv_lib :: "'l rate_lib"

definition serve_api ::
  "('w, 'l) api_server \<Rightarrow> http_request \<Rightarrow> 'l rate_limiter \<Rightarrow> 'w \<Rightarrow> response \<times> 'l rate_limiter \<times> 'w" where
  "serve_api srv r rl w =
     (case CORS (srv_origins srv)
             (\<lambda>r (rl, w).
                case rt_now (srv_rt srv) w of (now, w1) \<Rightarrow>
                case rate_handle (srv_lib srv) (rq_ClientIP r) now rl of (ok, rl1) \<Rightarrow>
                if \<not> ok then (too_many_requests, (rl1, w1))
                else case RegisterRoutes (srv_services srv) (rt_fmt_time (srv_rt srv)) r w1 of
                  (rsp, w2) \<Rightarrow> (rsp, (rl1, w2)))
             r (rl, w) of
        (rsp, (rl1, w1)) \<Rightarrow> (rsp, rl1, w1))"

section \<open>No path has two routes\<close>

fun overlap :: "segment list \<Rightarrow> segment list \<Rightarrow> bool" where
  "overlap [] [] = True"
| "overlap (Lit s # ps) (Lit t # qs) = (s = t \<and> overlap ps qs)"
| "overlap (Par n # ps) (q # qs) = overlap ps qs"
| "overlap (p # ps) (Par n # qs) = overlap ps qs"
| "overlap _ _ = False"

lemma match_cons:
  "match_path (p # ps) xs \<longleftrightarrow>
     (\<exists>x xs'. xs = x # xs' \<and> (case p of Lit s \<Rightarrow> s = x | Par n \<Rightarrow> True) \<and> match_path ps xs')"
  by (cases p; cases xs) auto

lemma match_nil: "match_path [] xs \<longleftrightarrow> xs = []"
  by (cases xs) auto

lemma match_overlap: "match_path ps xs \<Longrightarrow> match_path qs xs \<Longrightarrow> overlap ps qs"
proof (induction ps arbitrary: qs xs)
  case Nil
  then show ?case by (cases qs) (auto simp: match_nil match_cons)
next
  case (Cons p ps)
  then obtain x xs' q qs' where "xs = x # xs'" "qs = q # qs'" "match_path ps xs'" "match_path qs' xs'"
    "case p of Lit s \<Rightarrow> s = x | Par n \<Rightarrow> True" "case q of Lit s \<Rightarrow> s = x | Par n \<Rightarrow> True"
    by (cases qs) (auto simp: match_nil match_cons)
  with Cons.IH show ?case by (cases p; cases q) auto
qed

fun clash_free :: "route list \<Rightarrow> bool" where
  "clash_free [] = True"
| "clash_free ((a, ps, e) # rs) =
     (list_all (\<lambda>(b, qs, _). \<not> (a = b \<and> overlap ps qs)) rs \<and> clash_free rs)"

lemma clash_free_match: "clash_free rs \<Longrightarrow> length (filter (matches r) rs) \<le> 1"
proof (induction rs)
  case (Cons x xs)
  obtain a ps e where x: "x = (a, ps, e)" by (cases x)
  show ?case
  proof (cases "matches r x")
    case True
    with Cons.prems x have "filter (matches r) xs = []"
      by (auto simp: filter_empty_conv matches_def list_all_iff dest: match_overlap)
    then show ?thesis by simp
  qed (use Cons x in auto)
qed simp

lemma routes_clash_free: "clash_free (open_routes @ protected_routes)"
  by (simp add: open_routes_def protected_routes_def auth_routes_def user_routes_def
      room_routes_def message_routes_def search_routes_def)

lemma find_filter: "find P xs = Some x \<Longrightarrow> x \<in> set (filter P xs)"
  by (induction xs) (auto split: if_splits)

lemma protected_not_open:
  assumes "find_route protected_routes r = Some x"
  shows "find_route open_routes r = None"
proof (rule ccontr)
  assume "find_route open_routes r \<noteq> None"
  then have "filter (matches r) open_routes \<noteq> []"
    by (auto simp: find_route_def split: option.splits dest!: find_filter)
  moreover from assms have "filter (matches r) protected_routes \<noteq> []"
    by (auto simp: find_route_def split: option.splits dest!: find_filter)
  ultimately have "2 \<le> length (filter (matches r) (open_routes @ protected_routes))"
    by (cases "filter (matches r) open_routes"; cases "filter (matches r) protected_routes") auto
  with clash_free_match[OF routes_clash_free, of r] show False by simp
qed

text \<open>
  At most one of the routes the handlers register matches a request, so the result of the
  routing does not depend on the order of registration or on the router's priorities.
\<close>

theorem routes_unambiguous: "length (filter (matches r) (open_routes @ protected_routes)) \<le> 1"
  by (rule clash_free_match) (rule routes_clash_free)

lemmas route_tables = open_routes_def protected_routes_def auth_routes_def user_routes_def
  room_routes_def message_routes_def search_routes_def

lemma protected_methods: "list_all (\<lambda>(m, _, _). m \<noteq> ''OPTIONS'') protected_routes"
  by (simp add: route_tables)

lemma find_route_from:
  assumes "find_route rs r = Some (e, c)"
  shows "\<exists>ps. (rq_Method r, ps, e) \<in> set rs \<and> match_path ps (rq_Path r) \<and>
    c = \<lparr>ctx_req = r, ctx_Param = path_param ps (rq_Path r), ctx_userID = None\<rparr>"
  using assms
  by (auto simp: find_route_def matches_def split: option.splits prod.splits dest!: find_filter)

lemma protected_not_preflight: "find_route protected_routes r = Some (e, c) \<Longrightarrow> rq_Method r \<noteq> ''OPTIONS''"
  using protected_methods by (auto simp: list_all_iff dest!: find_route_from)

end
