(* ===== verification/Http_Steps.thy ===== *)
theory Http_Steps
  imports Router Steps
begin

text \<open>
  The API over the use cases it is given: every request stays within a relation that the calls of
  the use cases and the clock stay within, and every answer has the shape the API promises.
\<close>

section \<open>Requests stay within what the use cases do\<close>

locale use_case_steps = step_relation R for R :: "'w \<Rightarrow> 'w \<Rightarrow> bool" +
  fixes svc :: "'w services" and rt :: "'w runtime"
  assumes uc_Register: "within R (AuthUseCase_Register (svc_Auth svc) i)"
    and uc_Login: "within R (AuthUseCase_Login (svc_Auth svc) a b)"
    and uc_Refresh: "within R (AuthUseCase_Refresh (svc_Auth svc) a)"
    and uc_Logout: "within R (AuthUseCase_Logout (svc_Auth svc) a)"
    and uc_Validate: "within R (AuthUseCase_ValidateAccessToken (svc_Auth svc) a)"
    and uc_GetProfile: "within R (UserUseCase_GetProfile (svc_User svc) a)"
    and uc_GetByEmail: "within R (UserUseCase_GetByEmail (svc_User svc) a)"
    and uc_UpdateStatus: "within R (UserUseCase_UpdateStatus (svc_User svc) a b)"
    and uc_RoomCreate: "within R (RoomUseCase_Create (svc_Room svc) r)"
    and uc_AddMember: "within R (RoomUseCase_AddMember (svc_Room svc) a b c)"
    and uc_RemoveMember: "within R (RoomUseCase_RemoveMember (svc_Room svc) a b)"
    and uc_ListMembers: "within R (RoomUseCase_ListMembers (svc_Room svc) a)"
    and uc_RoomSearch: "within R (RoomUseCase_Search (svc_Room svc) a b n)"
    and uc_Ensure: "within R (RoomUseCase_EnsureDirectRoom (svc_Room svc) a b)"
    and uc_RoomDelete: "within R (RoomUseCase_Delete (svc_Room svc) a b)"
    and uc_Send: "within R (MessageUseCase_Send (svc_Message svc) s)"
    and uc_ListByRoom: "within R (MessageUseCase_ListByRoom (svc_Message svc) a n m)"
    and uc_ListAround: "within R (MessageUseCase_ListAround (svc_Message svc) a b n)"
    and uc_MarkDelivered: "within R (MessageUseCase_MarkDelivered (svc_Message svc) a b)"
    and uc_MarkRead: "within R (MessageUseCase_MarkRead (svc_Message svc) a b)"
    and uc_Search: "within R (MessageUseCase_Search (svc_Message svc) a b c n)"
    and uc_Edit: "within R (MessageUseCase_Edit (svc_Message svc) a b c)"
    and uc_Delete: "within R (MessageUseCase_Delete (svc_Message svc) a b)"
    and uc_clock: "within R (rt_now rt)"
begin

lemma reply_value_step: "within R f \<Longrightarrow> R w (snd (reply_value mapping ok (f w)))"
  by (auto simp: within_def reply_value_def split: prod.splits sum.splits) (metis snd_conv)+

lemma reply_done_step: "within R f \<Longrightarrow> R w (snd (reply_done mapping ok (f w)))"
  by (auto simp: within_def reply_done_def split: prod.splits option.splits) (metis snd_conv)+

lemma auth_handlers_within:
  "within R (AuthHandler_register (NewAuthHandler (svc_Auth svc)) fmt c)"
  "within R (AuthHandler_login (NewAuthHandler (svc_Auth svc)) c)"
  "within R (AuthHandler_refresh (NewAuthHandler (svc_Auth svc)) c)"
  "within R (AuthHandler_logout (NewAuthHandler (svc_Auth svc)) c)"
  unfolding within_def AuthHandler_register_def AuthHandler_login_def AuthHandler_refresh_def
    AuthHandler_logout_def NewAuthHandler_def
  by (auto simp: R_refl reply_value_step reply_done_step uc_Register uc_Login uc_Refresh uc_Logout
      split: option.splits)

lemma user_handlers_within:
  "within R (UserHandler_getProfile (NewUserHandler (svc_User svc)) fmt c)"
  "within R (UserHandler_getByEmail (NewUserHandler (svc_User svc)) fmt c)"
  "within R (UserHandler_updateStatus (NewUserHandler (svc_User svc)) c)"
  unfolding within_def UserHandler_getProfile_def UserHandler_getByEmail_def
    UserHandler_updateStatus_def NewUserHandler_def
  by (auto simp: R_refl reply_value_step reply_done_step uc_GetProfile uc_GetByEmail uc_UpdateStatus Let_def
      split: option.splits)

lemma room_handlers_within:
  "within R (RoomHandler_search (NewRoomHandler (svc_Room svc)) fmt c)"
  "within R (RoomHandler_create (NewRoomHandler (svc_Room svc)) fmt c)"
  "within R (RoomHandler_ensureDirectRoom (NewRoomHandler (svc_Room svc)) fmt c)"
  "within R (RoomHandler_addMember (NewRoomHandler (svc_Room svc)) c)"
  "within R (RoomHandler_removeMember (NewRoomHandler (svc_Room svc)) c)"
  "within R (RoomHandler_listMembers (NewRoomHandler (svc_Room svc)) c)"
  "within R (RoomHandler_deleteRoom (NewRoomHandler (svc_Room svc)) c)"
  unfolding within_def RoomHandler_search_def RoomHandler_create_def RoomHandler_ensureDirectRoom_def
    RoomHandler_addMember_def RoomHandler_removeMember_def RoomHandler_listMembers_def
    RoomHandler_deleteRoom_def NewRoomHandler_def
  by (auto simp: R_refl reply_value_step reply_done_step uc_RoomSearch uc_RoomCreate uc_Ensure uc_AddMember
      uc_RemoveMember uc_ListMembers uc_RoomDelete split: option.splits)

lemma message_handlers_within:
  "within R (MessageHandler_send (NewMessageHandler (svc_Message svc)) fmt c)"
  "within R (MessageHandler_listByRoom (NewMessageHandler (svc_Message svc)) fmt c)"
  "within R (MessageHandler_markDelivered (NewMessageHandler (svc_Message svc)) c)"
  "within R (MessageHandler_markRead (NewMessageHandler (svc_Message svc)) c)"
  "within R (MessageHandler_edit (NewMessageHandler (svc_Message svc)) fmt c)"
  "within R (MessageHandler_remove (NewMessageHandler (svc_Message svc)) c)"
  "within R (MessageHandler_search (NewMessageHandler (svc_Message svc)) fmt c)"
  unfolding within_def MessageHandler_send_def MessageHandler_listByRoom_def MessageHandler_markDelivered_def
    MessageHandler_markRead_def MessageHandler_edit_def MessageHandler_remove_def
    MessageHandler_search_def NewMessageHandler_def
  by (auto simp: R_refl reply_value_step reply_done_step uc_Send uc_ListByRoom uc_ListAround uc_MarkDelivered
      uc_MarkRead uc_Edit uc_Delete uc_Search Let_def split: option.splits)

lemma call_handler_within: "within R (call_handler svc fmt e c)"
  by (cases e) (simp_all add: call_handler_def auth_handlers_within user_handlers_within
      room_handlers_within message_handlers_within within_done)

lemma Auth_within:
  assumes "\<And>c. within R (next c)"
  shows "within R (Auth_middleware (Some (AuthUseCase_ValidateAccessToken (svc_Auth svc))) next c)"
proof (rule withinI)
  fix w r w'
  assume "Auth_middleware (Some (AuthUseCase_ValidateAccessToken (svc_Auth svc))) next c w = (r, w')"
  with assms show "R w w'"
    by (auto simp: Auth_middleware_def Let_def R_refl split: if_splits prod.splits sum.splits
        dest!: withinD[OF uc_Validate] withinD[OF assms] intro: R_trans)
qed

lemma RegisterRoutes_within: "within R (RegisterRoutes svc fmt r)"
proof (rule withinI)
  fix w x w' assume "RegisterRoutes svc fmt r w = (x, w')"
  then show "R w w'"
    by (auto simp: RegisterRoutes_def R_refl split: option.splits prod.splits
        dest: withinD[OF call_handler_within] withinD[OF Auth_within[OF call_handler_within]])
qed

lemma serve_api_step:
  assumes "serve_api \<lparr>srv_services = svc, srv_rt = rt, srv_origins = os, srv_lib = lib\<rparr> r rl w = (rsp, rl', w')"
  shows "R w w'"
  using assms
  by (auto simp: serve_api_def CORS_def Let_def R_refl split: if_splits prod.splits
      dest!: withinD[OF uc_clock] withinD[OF RegisterRoutes_within] intro: R_trans)

end

section \<open>The shape of an answer\<close>

text \<open>
  An answer has one of the statuses of the API; 204 has no body; an error has a body with one
  text, which for an internal error is fixed, or none (a path without a route, a panic).
\<close>

definition answer_ok :: "response \<Rightarrow> bool" where
  "answer_ok r \<longleftrightarrow>
     rs_Status r \<in> {200, 201, 204, 400, 401, 403, 404, 409, 429, 500} \<and>
     (rs_Status r = 204 \<longrightarrow> rs_Body r = None) \<and>
     (400 \<le> rs_Status r \<longrightarrow> rs_Body r = None \<or>
       (\<exists>m. rs_Body r = Some (JObj [(''error'', JStr m)]) \<and>
            (rs_Status r = 500 \<longrightarrow> m = ''internal server error'')))"

definition error_mapping :: "(err \<Rightarrow> int \<times> string) \<Rightarrow> bool" where
  "error_mapping mapping \<longleftrightarrow> (\<forall>e. fst (mapping e) \<in> {400, 401, 403, 404, 409, 500})"

lemma mappings [simp]:
  "error_mapping mapAuthError" "error_mapping mapMessageError" "error_mapping mapRoomError"
  "error_mapping mapUserError"
  by (simp_all add: error_mapping_def mapAuthError_def mapMessageError_def mapRoomError_def
      map_room_sentinel_def mapUserError_def split: err.split)

lemma answer_error: "s \<in> {400, 401, 403, 404, 409, 429} \<Longrightarrow> answer_ok (respondJSONError s m)"
  by (auto simp: answer_ok_def respondJSONError_def c_JSON_def)

lemma answer_respond_error: "error_mapping mapping \<Longrightarrow> answer_ok (respond_error mapping e)"
proof -
  assume m: "error_mapping mapping"
  obtain s t where st: "mapping e = (s, t)" by fastforce
  with m have "s \<in> {400, 401, 403, 404, 409, 500}" by (metis error_mapping_def fst_conv)
  with st show ?thesis
    by (auto simp: respond_error_def recovered_def c_Status_def respondInternalServerError_def
        respondJSONError_def c_JSON_def answer_ok_def split: err.split)
qed

lemma answer_value: "error_mapping mapping \<Longrightarrow> (\<And>x. answer_ok (ok x)) \<Longrightarrow> answer_ok (fst (reply_value mapping ok rw))"
  by (auto simp: reply_value_def answer_respond_error split: prod.splits sum.splits)

lemma answer_done: "error_mapping mapping \<Longrightarrow> answer_ok ok \<Longrightarrow> answer_ok (fst (reply_done mapping ok rw))"
  by (auto simp: reply_done_def answer_respond_error split: prod.splits option.splits)

lemma answer_success: "s \<in> {200, 201} \<Longrightarrow> answer_ok (c_JSON s j)" "s \<in> {200, 204, 404} \<Longrightarrow> answer_ok (c_Status s)"
  by (auto simp: answer_ok_def c_JSON_def c_Status_def)

lemmas answers = answer_value answer_done answer_success answer_error

lemma answer_fixed: "answer_ok unauthorized" "answer_ok invalid_JSON" "answer_ok (respondBadRequest m)"
  "answer_ok (tokens_reply t)" "answer_ok (user_reply fmt u)" "answer_ok (messages_reply fmt ms)"
  "answer_ok too_many_requests"
  by (simp_all add: unauthorized_def invalid_JSON_def respondBadRequest_def tokens_reply_def
      user_reply_def messages_reply_def too_many_requests_def answers)

lemma answer_room_checked: "(\<And>x. answer_ok (ok x)) \<Longrightarrow> answer_ok (room_checked c ok m)"
  by (simp add: room_checked_def answers)

lemmas handler_defs = AuthHandler_register_def AuthHandler_login_def AuthHandler_refresh_def
  AuthHandler_logout_def UserHandler_getProfile_def UserHandler_getByEmail_def
  UserHandler_updateStatus_def RoomHandler_search_def RoomHandler_create_def
  RoomHandler_ensureDirectRoom_def RoomHandler_addMember_def RoomHandler_removeMember_def
  RoomHandler_listMembers_def RoomHandler_deleteRoom_def MessageHandler_send_def
  MessageHandler_listByRoom_def MessageHandler_markDelivered_def MessageHandler_markRead_def
  MessageHandler_edit_def MessageHandler_remove_def MessageHandler_search_def

lemma call_handler_answer: "answer_ok (fst (call_handler svc fmt e c w))"
  by (cases e) (auto simp: call_handler_def handler_defs Let_def answers answer_fixed answer_room_checked
      split: option.splits prod.splits intro!: answers)


end
