(* ===== verification/Auth_Sessions.thy ===== *)
theory Auth_Sessions
  imports Auth_Service
begin

text \<open>
  What the auth operations do to the session entries, for any cache that fulfils its contract.
  \<open>access_inv\<close> is the invariant of the access entries: a live access token of a user is the
  one its \<open>access-session\<close> entry names, and that entry lives at least as long. It makes
  logout and re-login reach the token they have to revoke.
\<close>

section \<open>The access invariant\<close>

type_synonym key_store = "string \<Rightarrow> (string \<times> time option) option"

definition outlives :: "time option \<Rightarrow> time option \<Rightarrow> bool" where
  "outlives x y =
     (case y of None \<Rightarrow> True
      | Some d \<Rightarrow> (case x of None \<Rightarrow> False | Some c \<Rightarrow> c \<le> d))"

definition access_inv :: "key_store \<Rightarrow> time \<Rightarrow> bool" where
  "access_inv S \<tau> \<longleftrightarrow>
     (\<forall>t u x. S (accessKey t) = Some (u, x) \<longrightarrow> alive x \<tau> \<longrightarrow>
        (\<exists>y. S (accessSessionKey u) = Some (t, y) \<and> outlives x y))"

text \<open>
  The session \<open>tp\<close> of \<open>u\<close>, opened since \<open>t0\<close>: its four entries, and no other live access
  token of \<open>u\<close>.
\<close>

definition session_open ::
  "'w auth_service \<Rightarrow> time \<Rightarrow> key_store \<Rightarrow> time \<Rightarrow> string \<Rightarrow> token_pair \<Rightarrow> bool" where
  "session_open s t0 S \<tau> u tp \<longleftrightarrow>
     (\<exists>t1. t0 \<le> t1 \<and> S (sessionKey u) = Some (RefreshToken tp, deadline (as_refreshTTL s) t1)) \<and>
     (\<exists>t2. t0 \<le> t2 \<and> S (refreshKey (RefreshToken tp)) = Some (u, deadline (as_refreshTTL s) t2)) \<and>
     (\<exists>t3. t0 \<le> t3 \<and> S (accessKey (AccessToken tp)) = Some (u, deadline (as_accessTTL s) t3)) \<and>
     (\<forall>b. live_value S \<tau> (accessKey b) = Some u \<longrightarrow> b = AccessToken tp) \<and>
     TrimSpace (AccessToken tp) = AccessToken tp \<and> AccessToken tp \<noteq> [] \<and>
     TrimSpace (RefreshToken tp) = RefreshToken tp \<and> RefreshToken tp \<noteq> []"

text \<open>No access token of \<open>u\<close> is live.\<close>

definition no_access :: "key_store \<Rightarrow> time \<Rightarrow> string \<Rightarrow> bool" where
  "no_access S \<tau> u \<longleftrightarrow> (\<forall>t. live_value S \<tau> (accessKey t) \<noteq> Some u)"

lemma live_value_Some:
  "live_value S \<tau> k = Some v \<longleftrightarrow> (\<exists>x. S k = Some (v, x) \<and> alive x \<tau>)"
  by (auto simp: live_value_def split: option.splits prod.splits if_splits)

lemma live_value_mono: "live_value S t' k = Some v \<Longrightarrow> t \<le> t' \<Longrightarrow> live_value S t k = Some v"
  by (auto simp: live_value_Some intro: alive_mono)

lemma live_value_None_mono: "live_value S t k = None \<Longrightarrow> t \<le> t' \<Longrightarrow> live_value S t' k = None"
  using live_value_mono[of S t' k _ t] by (cases "live_value S t' k") auto

lemma live_value_cong: "S k = S' k \<Longrightarrow> live_value S t k = live_value S' t k"
  by (simp add: live_value_def)

lemma outlives_alive: "outlives x y \<Longrightarrow> alive x t \<Longrightarrow> alive y t"
  by (auto simp: outlives_def alive_def split: option.splits)

lemma outlives_deadline: "t \<le> t' \<Longrightarrow> outlives (deadline ttl t) (deadline ttl t')"
  by (auto simp: outlives_def deadline_def)

lemma access_invD:
  "access_inv S t \<Longrightarrow> live_value S t (accessKey a) = Some u \<Longrightarrow>
   \<exists>y. S (accessSessionKey u) = Some (a, y)"
  unfolding access_inv_def live_value_Some by meson

lemma access_inv_mono: "access_inv S t \<Longrightarrow> t \<le> t' \<Longrightarrow> access_inv S t'"
  unfolding access_inv_def by (meson alive_mono)

lemma access_inv_empty [simp]: "access_inv (\<lambda>_. None) t"
  by (simp add: access_inv_def)

lemma no_access_mono: "no_access S t u \<Longrightarrow> t \<le> t' \<Longrightarrow> no_access S t' u"
  unfolding no_access_def by (meson live_value_mono)

lemma access_inv_other:
  assumes "access_inv S t"
    and "\<And>a. S' (accessKey a) = S (accessKey a)"
    and "\<And>a. S' (accessSessionKey a) = S (accessSessionKey a)"
  shows "access_inv S' t"
  using assms by (simp add: access_inv_def)

lemma access_inv_dead:
  assumes "access_inv S t" and "t \<le> t'" and "live_value S t' (accessSessionKey u) = None"
  shows "no_access S t' u"
  unfolding no_access_def
proof
  fix a
  show "live_value S t' (accessKey a) \<noteq> Some u"
  proof
    assume "live_value S t' (accessKey a) = Some u"
    then obtain x where x: "S (accessKey a) = Some (u, x)" "alive x t'"
      by (auto simp: live_value_Some)
    with assms(1,2) obtain y where "S (accessSessionKey u) = Some (a, y)" "outlives x y"
      unfolding access_inv_def by (meson alive_mono)
    with x(2) assms(3) show False
      by (auto simp: live_value_def dest: outlives_alive)
  qed
qed

lemma access_inv_revoke:
  assumes inv: "access_inv S t" and le: "t \<le> t'"
    and s: "S (accessSessionKey u) = Some (a, y)"
  defines "S' \<equiv> S(accessSessionKey u := None, accessKey a := None)"
  shows "access_inv S' t' \<and> no_access S' t' u"
proof
  show none: "no_access S' t' u"
    unfolding no_access_def
  proof
    fix b
    show "live_value S' t' (accessKey b) \<noteq> Some u"
    proof
      assume "live_value S' t' (accessKey b) = Some u"
      then obtain x where "b \<noteq> a" and x: "S (accessKey b) = Some (u, x)" "alive x t'"
        by (auto simp: S'_def live_value_Some split: if_splits)
      with inv le s show False unfolding access_inv_def by (metis alive_mono option.inject prod.inject)
    qed
  qed
  show "access_inv S' t'"
    unfolding access_inv_def
  proof (intro allI impI)
    fix b v x
    assume b: "S' (accessKey b) = Some (v, x)" "alive x t'"
    with none have "v \<noteq> u" by (auto simp: no_access_def live_value_Some)
    moreover from b have "S (accessKey b) = Some (v, x)" by (simp add: S'_def split: if_splits)
    ultimately show "\<exists>y. S' (accessSessionKey v) = Some (b, y) \<and> outlives x y"
      using inv b(2) le unfolding access_inv_def S'_def
      by (metis alive_mono auth_keys_simps(12) auth_keys_simps(3) fun_upd_other)
  qed
qed

text \<open>Entries of \<open>u\<close>, who has no live token, may disappear.\<close>

lemma access_inv_shrink:
  assumes inv: "access_inv S t" and none: "no_access S t u"
    and a: "\<And>b. S' (accessKey b) = S (accessKey b) \<or> S' (accessKey b) = None"
    and b: "\<And>v. v \<noteq> u \<Longrightarrow> S' (accessSessionKey v) = S (accessSessionKey v)"
  shows "access_inv S' t"
  unfolding access_inv_def
proof (intro allI impI)
  fix c v x
  assume c: "S' (accessKey c) = Some (v, x)" "alive x t"
  with a[of c] have S: "S (accessKey c) = Some (v, x)" by simp
  with none c(2) have "v \<noteq> u" by (auto simp: no_access_def live_value_Some)
  with S c(2) inv b show "\<exists>y. S' (accessSessionKey v) = Some (c, y) \<and> outlives x y"
    unfolding access_inv_def by simp
qed

text \<open>Both access entries written for \<open>u\<close>, who had no other live token.\<close>

lemma access_inv_grant:
  assumes inv: "access_inv S t" and none: "\<And>b. b \<noteq> a \<Longrightarrow> live_value S t (accessKey b) \<noteq> Some u"
    and le: "t \<le> t1" "t1 \<le> t2"
  shows "access_inv (S(accessKey a \<mapsto> (u, deadline ttl t1), accessSessionKey u \<mapsto> (a, deadline ttl t2))) t2"
  unfolding access_inv_def
proof (intro allI impI)
  fix b v x
  assume b: "(S(accessKey a \<mapsto> (u, deadline ttl t1), accessSessionKey u \<mapsto> (a, deadline ttl t2)))
      (accessKey b) = Some (v, x)" and al: "alive x t2"
  show "\<exists>y. (S(accessKey a \<mapsto> (u, deadline ttl t1), accessSessionKey u \<mapsto> (a, deadline ttl t2)))
      (accessSessionKey v) = Some (b, y) \<and> outlives x y"
  proof (cases "b = a")
    case True
    with b le show ?thesis by (auto intro: outlives_deadline)
  next
    case False
    with b have S: "S (accessKey b) = Some (v, x)" by simp
    moreover have "alive x t" using al le by (meson alive_mono order_trans)
    moreover from this S False none have "v \<noteq> u" by (auto simp: live_value_Some)
    ultimately show ?thesis using inv unfolding access_inv_def by auto
  qed
qed

section \<open>The service over any cache\<close>

text \<open>A call that leaves the cache alone and does not turn the clock back.\<close>

definition quiet :: "('w \<Rightarrow> key_store) \<Rightarrow> ('w \<Rightarrow> time) \<Rightarrow> ('w, 'a) io \<Rightarrow> bool" where
  "quiet store clock f \<longleftrightarrow> (\<forall>w. store (snd (f w)) = store w \<and> clock w \<le> clock (snd (f w)))"

lemma quietD:
  "quiet store clock f \<Longrightarrow> f w = (r, w') \<Longrightarrow> store w' = store w \<and> clock w \<le> clock w'"
  unfolding quiet_def by (metis snd_conv)

locale auth_environment = token_cache_contract C store clock
  for C :: "'w token_cache" and store and clock +
  fixes s :: "'w auth_service"
  assumes svc_cache: "as_cache s = C"
    and quiet_Create: "quiet store clock (ur_Create (as_users s) u)"
    and quiet_GetByEmail: "quiet store clock (ur_GetByEmail (as_users s) e)"
    and quiet_GetByID: "quiet store clock (ur_GetByID (as_users s) e)"
    and quiet_UpdateStatus: "quiet store clock (ur_UpdateStatus (as_users s) e st ts)"
    and quiet_now: "quiet store clock (rt_now (as_rt s))"
    and quiet_rand: "quiet store clock (rt_rand (as_rt s))"
    and quiet_gen: "quiet store clock (rt_bcrypt_gen (as_rt s) p)"
begin

lemmas quiet_calls = quiet_Create quiet_GetByEmail quiet_GetByID quiet_UpdateStatus
  quiet_now quiet_rand quiet_gen

lemma get_frame:
  "cache_Get C k w = (r, w') \<Longrightarrow> store w' = store w \<and> clock w \<le> clock w'"
  using get_store[of k w] get_clock[of w k] by simp

lemma set_time: "cache_Set C k v ttl w = (r, w') \<Longrightarrow> clock w \<le> clock w'"
  using set_clock[of w k v ttl] by simp

lemma quiet_access: "quiet store clock (GenerateAccessToken (as_rt s))"
  unfolding quiet_def GenerateAccessToken_def generateOpaqueToken_def
  using quiet_rand[unfolded quiet_def] by (auto split: prod.splits sum.splits) (metis snd_conv)+

lemma quiet_refresh: "quiet store clock (GenerateRefreshToken (as_rt s))"
  unfolding quiet_def GenerateRefreshToken_def generateOpaqueToken_def
  using quiet_rand[unfolded quiet_def] by (auto split: prod.splits sum.splits) (metis snd_conv)+

lemma quiet_hash: "quiet store clock (HashPassword (as_rt s) p)"
  unfolding quiet_def HashPassword_def
  using quiet_gen[unfolded quiet_def, of p] by (auto split: prod.splits sum.splits) (metis snd_conv)+

text \<open>\<open>ValidateAccessToken\<close> accepts only what the cache holds, and keeps the invariant if it answers.\<close>

lemma validate_accepts:
  assumes "auth_ValidateAccessToken s tok w = (Inr u, w')"
  shows "live_value (store w) (clock w) (accessKey (TrimSpace tok)) = Some u"
proof -
  from assms obtain w1 where "cache_Get C (accessKey (TrimSpace tok)) w = (Inr u, w1)"
    by (auto simp: auth_ValidateAccessToken_def extendAccess_def svc_cache Let_def
        split: sum.splits prod.splits if_splits option.splits)
  with get_hit get_frame show ?thesis by (meson live_value_mono)
qed

lemma extendAccess_store:
  assumes "extendAccess s a u w = (Inr v, w')"
  shows "\<exists>t1. clock w \<le> t1 \<and> t1 \<le> clock w' \<and> v = u \<and>
    store w' = (store w)(accessKey a \<mapsto> (u, deadline (as_accessTTL s) t1),
                         accessSessionKey u \<mapsto> (a, deadline (as_accessTTL s) (clock w')))"
proof -
  from assms obtain w1 where
    1: "cache_Set C (accessKey a) u (as_accessTTL s) w = (None, w1)" and
    2: "cache_Set C (accessSessionKey u) a (as_accessTTL s) w1 = (None, w')" and "v = u"
    by (auto simp: extendAccess_def svc_cache split: prod.splits option.splits)
  from set_ok[OF 1] set_ok[OF 2] set_time[OF 1] set_time[OF 2] \<open>v = u\<close> show ?thesis
    by (intro exI[of _ "clock w1"]) simp
qed

lemma validate_inv:
  assumes "auth_ValidateAccessToken s tok w = (Inr u, w')" and inv: "access_inv (store w) (clock w)"
  shows "access_inv (store w') (clock w')"
proof -
  let ?a = "TrimSpace tok"
  from assms(1) obtain w1 where
    g: "cache_Get C (accessKey ?a) w = (Inr u, w1)" and x: "extendAccess s ?a u w1 = (Inr u, w')"
    by (auto simp: auth_ValidateAccessToken_def extendAccess_def svc_cache Let_def
        split: sum.splits prod.splits if_splits option.splits)
  note fr = get_frame[OF g]
  from inv fr have inv1: "access_inv (store w1) (clock w1)" by (simp add: access_inv_mono)
  from get_hit[OF g] fr have "live_value (store w1) (clock w1) (accessKey ?a) = Some u" by simp
  then obtain y where sole: "store w1 (accessSessionKey u) = Some (?a, y)"
    using access_invD[OF inv1] by blast
  have "live_value (store w1) (clock w1) (accessKey b) \<noteq> Some u" if "b \<noteq> ?a" for b
    using access_invD[OF inv1, of b u] sole that by auto
  with extendAccess_store[OF x] access_inv_grant[OF inv1] show ?thesis by auto
qed

end

section \<open>The service over a cache whose deletions take effect\<close>

locale sure_auth = auth_environment C store clock s + deleting_cache C store clock
  for C :: "'w token_cache" and store and clock and s
begin

lemma discard_store [simp]: "store (discard_Delete C k w) = (store w)(k := None)"
  by (simp add: discard_Delete_def del_effect)

lemma discard_clock [simp]: "clock w \<le> clock (discard_Delete C k w)"
  by (simp add: discard_Delete_def del_clock)

lemma discard2_clock: "clock w \<le> clock (discard_Delete C k (discard_Delete C j w))"
  by (meson discard_clock order_trans)

lemma invalidateAccess_post:
  assumes "invalidateAccess s u w = (r, w')" and inv: "access_inv (store w) (clock w)"
  shows "clock w \<le> clock w' \<and> access_inv (store w') (clock w') \<and>
    (\<forall>v. store w' (sessionKey v) = store w (sessionKey v)) \<and>
    (r = None \<longrightarrow> no_access (store w') (clock w') u)"
proof (cases "cache_Get C (accessSessionKey u) w")
  case (Pair g w1)
  note fr = get_frame[OF Pair]
  show ?thesis
  proof (cases g)
    case (Inl e)
    with assms Pair have [simp]: "w' = w1" and r: "r = None \<Longrightarrow> e = ErrCacheMiss"
      by (auto simp: invalidateAccess_def svc_cache split: if_splits)
    have "no_access (store w1) (clock w1) u" if "r = None"
      using access_inv_dead[OF inv] get_miss[of "accessSessionKey u" w w1] Pair Inl r[OF that] fr
      by simp
    with fr inv show ?thesis by (auto intro: access_inv_mono)
  next
    case (Inr a)
    with assms Pair have r: "r = None"
      and w': "w' = discard_Delete C (accessKey a) (discard_Delete C (accessSessionKey u) w1)"
      by (auto simp: invalidateAccess_def svc_cache Let_def)
    from get_hit[of "accessSessionKey u" w a w1] Pair Inr
    obtain y where y: "store w (accessSessionKey u) = Some (a, y)" by (auto simp: live_value_Some)
    have le: "clock w \<le> clock w'" using fr discard2_clock w' by (metis order_trans)
    have "store w' = (store w)(accessSessionKey u := None, accessKey a := None)"
      using fr by (simp add: w')
    with access_inv_revoke[OF inv le y] le r show ?thesis by simp
  qed
qed

lemma invalidateSession_post:
  assumes "invalidateSession s u w = (r, w')" and inv: "access_inv (store w) (clock w)"
  shows "clock w \<le> clock w' \<and> access_inv (store w') (clock w') \<and>
    (r = None \<longrightarrow> no_access (store w') (clock w') u \<and>
       live_value (store w') (clock w') (sessionKey u) = None)"
proof (cases "cache_Get C (sessionKey u) w")
  case (Pair g w1)
  note fr = get_frame[OF Pair]
  show ?thesis
  proof (cases "\<exists>e. g = Inl e \<and> e \<noteq> ErrCacheMiss")
    case True
    with assms Pair fr show ?thesis
      by (auto simp: invalidateSession_def svc_cache intro: access_inv_mono)
  next
    case False
    then obtain w2 where go: "invalidateAccess s u w2 = (r, w')"
      and w2: "clock w \<le> clock w2" "access_inv (store w2) (clock w2)"
        "live_value (store w2) (clock w2) (sessionKey u) = None"
    proof (cases g)
      case (Inl e)
      with False have g: "g = Inl ErrCacheMiss" by auto
      with assms(1) Pair have "invalidateAccess s u w1 = (r, w')"
        by (simp add: invalidateSession_def svc_cache)
      moreover have "live_value (store w1) (clock w1) (sessionKey u) = None"
        using get_miss[of "sessionKey u" w w1] Pair g fr by simp
      ultimately show ?thesis using that[of w1] fr inv by (auto intro: access_inv_mono)
    next
      case (Inr t)
      let ?w2 = "discard_Delete C (refreshKey t) (discard_Delete C (sessionKey u) w1)"
      have le: "clock w \<le> clock ?w2" using fr discard2_clock by (meson order_trans)
      have st: "store ?w2 = (store w)(sessionKey u := None, refreshKey t := None)" using fr by simp
      have "access_inv (store ?w2) (clock ?w2)"
        unfolding st by (rule access_inv_mono[OF _ le], rule access_inv_other[OF inv]) auto
      moreover have "live_value (store ?w2) (clock ?w2) (sessionKey u) = None"
        unfolding st by (simp add: live_value_def)
      moreover have "invalidateAccess s u ?w2 = (r, w')"
        using assms(1) Pair Inr by (simp add: invalidateSession_def svc_cache Let_def)
      ultimately show ?thesis using that[of ?w2] le by blast
    qed
    from invalidateAccess_post[OF go w2(2)] w2 show ?thesis
      by (metis live_value_None_mono live_value_cong order_trans)
  qed
qed

text \<open>Invalidation only removes entries.\<close>

lemma discard_removes: "store (discard_Delete C k w) j = store w j \<or> store (discard_Delete C k w) j = None"
  by simp

lemma invalidateAccess_removes:
  "invalidateAccess s u w = (r, w') \<Longrightarrow> store w' k = store w k \<or> store w' k = None"
  by (auto simp: invalidateAccess_def svc_cache Let_def split: prod.splits sum.splits if_splits
      dest!: get_frame)

lemma invalidateSession_removes:
  "invalidateSession s u w = (r, w') \<Longrightarrow> store w' k = store w k \<or> store w' k = None"
  by (auto simp: invalidateSession_def svc_cache Let_def split: prod.splits sum.splits if_splits
      dest!: get_frame invalidateAccess_removes[where k = k])

lemma storeTokens_error:
  assumes "storeTokens s u a r w = (Inl e, w')"
    and inv: "access_inv (store w) (clock w)" and none: "no_access (store w) (clock w) u"
  shows "clock w \<le> clock w' \<and> access_inv (store w') (clock w')"
proof -
  let ?D = "discard_Delete C"
  have "clock w \<le> clock w' \<and>
      (\<forall>b. store w' (accessKey b) = store w (accessKey b) \<or> store w' (accessKey b) = None) \<and>
      (\<forall>v. v \<noteq> u \<longrightarrow> store w' (accessSessionKey v) = store w (accessSessionKey v))"
  proof (cases "cache_Set C (sessionKey u) r (as_refreshTTL s) w")
    case 1: (Pair r1 w1)
    show ?thesis
    proof (cases r1)
      case Some
      with assms(1) 1 have "w' = w1" by (simp add: storeTokens_def svc_cache)
      with 1 show ?thesis using set_other[OF 1] set_time[OF 1] by simp
    next
      case n1: None
      show ?thesis
      proof (cases "cache_Set C (refreshKey r) u (as_refreshTTL s) w1")
        case 2: (Pair r2 w2)
        have t2: "clock w \<le> clock w2" using set_time[OF 1] set_time[OF 2] by simp
        show ?thesis
        proof (cases r2)
          case Some
          with assms(1) 1 n1 2 have "w' = ?D (sessionKey u) w2"
            by (simp add: storeTokens_def svc_cache)
          with t2 show ?thesis
            using set_other[OF 1] set_other[OF 2] order_trans[OF t2 discard_clock] by simp
        next
          case n2: None
          show ?thesis
          proof (cases "cache_Set C (accessKey a) u (as_accessTTL s) w2")
            case 3: (Pair r3 w3)
            have t3: "clock w \<le> clock w3" using t2 set_time[OF 3] by simp
            show ?thesis
            proof (cases r3)
              case Some
              with assms(1) 1 n1 2 n2 3 have w':
                "w' = ?D (accessKey a) (?D (refreshKey r) (?D (sessionKey u) w3))"
                by (simp add: storeTokens_def svc_cache Let_def)
              with t3 have "clock w \<le> clock w'" by (meson discard_clock order_trans)
              with w' show ?thesis
                using set_other[OF 1] set_other[OF 2] set_other[OF 3] by simp
            next
              case n3: None
              show ?thesis
              proof (cases "cache_Set C (accessSessionKey u) a (as_accessTTL s) w3")
                case 4: (Pair r4 w4)
                with assms(1) 1 n1 2 n2 3 n3 have w':
                  "w' = ?D (accessSessionKey u) (?D (accessKey a)
                          (?D (refreshKey r) (?D (sessionKey u) w4)))"
                  by (cases r4) (simp_all add: storeTokens_def svc_cache Let_def)
                have "clock w \<le> clock w4" using t3 set_time[OF 4] by simp
                with w' have "clock w \<le> clock w'" by (meson discard_clock order_trans)
                with w' show ?thesis
                  using set_other[OF 1] set_other[OF 2] set_other[OF 3] set_other[OF 4] by simp
              qed
            qed
          qed
        qed
      qed
    qed
  qed
  with access_inv_shrink[OF inv none] show ?thesis by (meson access_inv_mono)
qed

text \<open>The entries of a session that \<open>storeTokens\<close> opened, and their deadlines.\<close>

lemma storeTokens_ok:
  assumes "storeTokens s u a r w = (Inr tp, w')"
    and inv: "access_inv (store w) (clock w)" and none: "no_access (store w) (clock w) u"
  shows "tp = \<lparr>AccessToken = a, RefreshToken = r\<rparr>"
    and "\<exists>t1 t2 t3. clock w \<le> t1 \<and> t1 \<le> t2 \<and> t2 \<le> t3 \<and> t3 \<le> clock w' \<and>
      store w' = (store w)(sessionKey u \<mapsto> (r, deadline (as_refreshTTL s) t1),
                           refreshKey r \<mapsto> (u, deadline (as_refreshTTL s) t2),
                           accessKey a \<mapsto> (u, deadline (as_accessTTL s) t3),
                           accessSessionKey u \<mapsto> (a, deadline (as_accessTTL s) (clock w')))"
    and "access_inv (store w') (clock w')"
    and "\<And>b. live_value (store w') (clock w') (accessKey b) = Some u \<Longrightarrow> b = a"
proof -
  from assms(1) obtain w1 w2 w3 where
    1: "cache_Set C (sessionKey u) r (as_refreshTTL s) w = (None, w1)" and
    2: "cache_Set C (refreshKey r) u (as_refreshTTL s) w1 = (None, w2)" and
    3: "cache_Set C (accessKey a) u (as_accessTTL s) w2 = (None, w3)" and
    4: "cache_Set C (accessSessionKey u) a (as_accessTTL s) w3 = (None, w')" and
    tp: "tp = \<lparr>AccessToken = a, RefreshToken = r\<rparr>"
    by (auto simp: storeTokens_def svc_cache Let_def split: prod.splits option.splits)
  note t = set_time[OF 1] set_time[OF 2] set_time[OF 3] set_time[OF 4]
  note st = set_ok[OF 1] set_ok[OF 2] set_ok[OF 3] set_ok[OF 4]
  show "tp = \<lparr>AccessToken = a, RefreshToken = r\<rparr>" by (fact tp)
  show "\<exists>t1 t2 t3. clock w \<le> t1 \<and> t1 \<le> t2 \<and> t2 \<le> t3 \<and> t3 \<le> clock w' \<and>
      store w' = (store w)(sessionKey u \<mapsto> (r, deadline (as_refreshTTL s) t1),
                           refreshKey r \<mapsto> (u, deadline (as_refreshTTL s) t2),
                           accessKey a \<mapsto> (u, deadline (as_accessTTL s) t3),
                           accessSessionKey u \<mapsto> (a, deadline (as_accessTTL s) (clock w')))"
    using t st by (intro exI[of _ "clock w1"] exI[of _ "clock w2"] exI[of _ "clock w3"]) simp
  have inv2: "access_inv (store w2) (clock w2)"
    using t st by (intro access_inv_mono[OF access_inv_other[OF inv]]) auto
  have none2: "live_value (store w2) (clock w2) (accessKey b) \<noteq> Some u" for b
  proof -
    have "store w2 (accessKey b) = store w (accessKey b)" using st by simp
    moreover have "no_access (store w) (clock w2) u"
      using no_access_mono[OF none] t by simp
    ultimately show ?thesis by (simp add: no_access_def live_value_def)
  qed
  show "access_inv (store w') (clock w')"
    using access_inv_grant[OF inv2 none2] t st by simp
  show "b = a" if "live_value (store w') (clock w') (accessKey b) = Some u" for b
  proof (rule ccontr)
    assume "b \<noteq> a"
    with that st have "live_value (store w2) (clock w') (accessKey b) = Some u"
      by (simp add: live_value_def)
    with none2 t show False by (meson live_value_mono order_trans)
  qed
qed

lemma issueTokens_split [consumes 2, case_names early stored]:
  assumes "issueTokens s usr w = (res, w')" and inv: "access_inv (store w) (clock w)"
  obtains (early) e where "res = Inl e" "clock w \<le> clock w'" "access_inv (store w') (clock w')"
    | (stored) a r w1 where "storeTokens s (usr_ID usr) a r w1 = (res, w')"
        "clock w \<le> clock w1" "access_inv (store w1) (clock w1)"
        "no_access (store w1) (clock w1) (usr_ID usr)"
        "TrimSpace a = a" "a \<noteq> []" "TrimSpace r = r" "r \<noteq> []"
proof (cases "invalidateSession s (usr_ID usr) w")
  case 1: (Pair r1 w1)
  note p1 = invalidateSession_post[OF 1 inv]
  show thesis
  proof (cases r1)
    case (Some e)
    with 1 assms(1) p1 show thesis by (intro early) (auto simp: issueTokens_def)
  next
    case None
    obtain n w2 where 2: "rt_now (as_rt s) w1 = (n, w2)" by fastforce
    obtain g3 w3 where 3: "GenerateAccessToken (as_rt s) w2 = (g3, w3)" by fastforce
    note q2 = quietD[OF quiet_now 2] quietD[OF quiet_access 3]
    show thesis
    proof (cases g3)
      case (Inl e)
      with 1 None 2 3 assms(1) q2 p1 show thesis
        by (intro early) (auto simp: issueTokens_def intro: access_inv_mono)
    next
      case a: (Inr a)
      obtain g4 w4 where 4: "GenerateRefreshToken (as_rt s) w3 = (g4, w4)" by fastforce
      note q3 = q2 quietD[OF quiet_refresh 4]
      show thesis
      proof (cases g4)
        case (Inl e)
        with 1 None 2 3 a 4 assms(1) q3 p1 show thesis
          by (intro early) (auto simp: issueTokens_def intro: access_inv_mono)
      next
        case r: (Inr r)
        with 1 None 2 3 a 4 assms(1) have "storeTokens s (usr_ID usr) a r w4 = (res, w')"
          by (simp add: issueTokens_def)
        with p1 None q3 access_token_trim[OF 3[unfolded a]] refresh_token_trim[OF 4[unfolded r]]
        show thesis by (intro stored) (auto intro: access_inv_mono no_access_mono)
      qed
    qed
  qed
qed

lemma issueTokens_inv:
  assumes "issueTokens s usr w = (res, w')" and inv: "access_inv (store w) (clock w)"
  shows "clock w \<le> clock w' \<and> access_inv (store w') (clock w')"
  using assms
proof (cases rule: issueTokens_split)
  case (stored a r w1)
  show ?thesis
  proof (cases res)
    case (Inl e)
    with stored storeTokens_error[of "usr_ID usr" a r w1 e w'] show ?thesis by auto
  next
    case (Inr tp)
    with stored storeTokens_ok(2,3)[of "usr_ID usr" a r w1 tp w'] show ?thesis by fastforce
  qed
qed simp

lemma issueTokens_opens:
  assumes "issueTokens s usr w = (Inr tp, w')" and inv: "access_inv (store w) (clock w)"
  shows "session_open s (clock w) (store w') (clock w') (usr_ID usr) tp"
  using assms
proof (cases rule: issueTokens_split)
  case (stored a r w1)
  note ok = storeTokens_ok[OF stored(1,3,4)]
  from ok(2) stored(2) obtain t1 t2 t3 where
    t: "clock w \<le> t1" "t1 \<le> t2" "t2 \<le> t3" and
    st: "store w' = (store w1)(sessionKey (usr_ID usr) \<mapsto> (r, deadline (as_refreshTTL s) t1),
           refreshKey r \<mapsto> (usr_ID usr, deadline (as_refreshTTL s) t2),
           accessKey a \<mapsto> (usr_ID usr, deadline (as_accessTTL s) t3),
           accessSessionKey (usr_ID usr) \<mapsto> (a, deadline (as_accessTTL s) (clock w')))"
    by (meson order_trans)
  then have "store w' (sessionKey (usr_ID usr)) = Some (r, deadline (as_refreshTTL s) t1)"
    "store w' (refreshKey r) = Some (usr_ID usr, deadline (as_refreshTTL s) t2)"
    "store w' (accessKey a) = Some (usr_ID usr, deadline (as_accessTTL s) t3)"
    by simp_all
  moreover have "clock w \<le> t2" "clock w \<le> t3" using t by simp_all
  ultimately show ?thesis
    using ok(1,4) stored(5-8) t(1) unfolding session_open_def by (intro conjI) auto
qed simp

lemma issueTokens_other_refresh:
  assumes "issueTokens s usr w = (Inr tp, w')" and "t \<noteq> RefreshToken tp"
  shows "store w' (refreshKey t) = store w (refreshKey t) \<or> store w' (refreshKey t) = None"
proof -
  obtain w1 where 1: "invalidateSession s (usr_ID usr) w = (None, w1)"
    using assms(1) by (auto simp: issueTokens_def split: prod.splits option.splits)
  obtain n w2 where 2: "rt_now (as_rt s) w1 = (n, w2)" by fastforce
  from assms(1) 1 2 obtain a w3 where 3: "GenerateAccessToken (as_rt s) w2 = (Inr a, w3)"
    by (auto simp: issueTokens_def split: prod.splits sum.splits)
  from assms(1) 1 2 3 obtain r w4 where 4: "GenerateRefreshToken (as_rt s) w3 = (Inr r, w4)"
    by (auto simp: issueTokens_def split: prod.splits sum.splits)
  from assms(1) 1 2 3 4 have "storeTokens s (usr_ID usr) a r w4 = (Inr tp, w')"
    by (simp add: issueTokens_def)
  then have "tp = \<lparr>AccessToken = a, RefreshToken = r\<rparr>"
    and st: "t \<noteq> r \<Longrightarrow> store w' (refreshKey t) = store w4 (refreshKey t)"
    by (auto simp: storeTokens_def svc_cache Let_def split: prod.splits option.splits
        dest!: set_ok)
  with assms(2) st quietD[OF quiet_now 2] quietD[OF quiet_access 3] quietD[OF quiet_refresh 4]
    invalidateSession_removes[OF 1, of "refreshKey t"] show ?thesis by simp
qed

lemma openSession_other_refresh:
  assumes "openSession s usr w = (Inr tp, w')" and "t \<noteq> RefreshToken tp"
  shows "store w' (refreshKey t) = store w (refreshKey t) \<or> store w' (refreshKey t) = None"
proof -
  obtain w1 where 1: "issueTokens s usr w = (Inr tp, w1)"
    using assms(1) by (auto simp: openSession_def split: prod.splits sum.splits option.splits)
  obtain n w2 where 2: "rt_now (as_rt s) w1 = (n, w2)" by fastforce
  obtain r w3 where
    3: "ur_UpdateStatus (as_users s) (usr_ID usr) UserStatusOnline n w2 = (r, w3)" by fastforce
  from assms(1) 1 2 3 have "w' = w3" by (auto simp: openSession_def split: option.splits)
  with issueTokens_other_refresh[OF 1 assms(2)] quietD[OF quiet_now 2]
    quietD[OF quiet_UpdateStatus 3] show ?thesis by simp
qed

lemma session_open_mono:
  "session_open s t0 S t u tp \<Longrightarrow> t0' \<le> t0 \<Longrightarrow> t \<le> t' \<Longrightarrow> session_open s t0' S t' u tp"
  unfolding session_open_def by (meson live_value_mono order_trans)

lemma openSession_post:
  assumes "openSession s usr w = (res, w')" and inv: "access_inv (store w) (clock w)"
  shows "clock w \<le> clock w' \<and> access_inv (store w') (clock w') \<and>
    (\<forall>tp. res = Inr tp \<longrightarrow> session_open s (clock w) (store w') (clock w') (usr_ID usr) tp)"
proof (cases "issueTokens s usr w")
  case 1: (Pair g w1)
  note i1 = issueTokens_inv[OF 1 inv]
  show ?thesis
  proof (cases g)
    case (Inl e)
    with 1 i1 assms(1) show ?thesis by (auto simp: openSession_def)
  next
    case g: (Inr tp)
    obtain n w2 where 2: "rt_now (as_rt s) w1 = (n, w2)" by fastforce
    obtain r w3 where
      3: "ur_UpdateStatus (as_users s) (usr_ID usr) UserStatusOnline n w2 = (r, w3)" by fastforce
    note q = quietD[OF quiet_now 2] quietD[OF quiet_UpdateStatus 3]
    have w': "w' = w3" and res: "\<And>tp'. res = Inr tp' \<Longrightarrow> tp' = tp"
      using assms(1) 1 g 2 3 by (auto simp: openSession_def split: option.splits)
    have le: "clock w1 \<le> clock w3" using q by simp
    from issueTokens_opens[OF 1[unfolded g] inv] session_open_mono[OF _ order_refl le] q
    have "session_open s (clock w) (store w3) (clock w3) (usr_ID usr) tp" by metis
    moreover have "access_inv (store w3) (clock w3)" using i1 q le access_inv_mono by metis
    ultimately show ?thesis using i1 le res by (auto simp: w')
  qed
qed

lemma login_split [consumes 1, case_names failed opened]:
  assumes "auth_Login s email pw w = (res, w')"
  obtains (failed) e where "res = Inl e" "store w' = store w" "clock w \<le> clock w'"
    | (opened) usr w1 where "openSession s usr w1 = (res, w')" "store w1 = store w"
        "clock w \<le> clock w1"
        "ur_GetByEmail (as_users s) (normalizeEmail (as_rt s) email) w = (Inr usr, w1)"
        "CompareHashAndPassword (as_rt s) (usr_PasswordHash usr) pw = None"
proof (cases "ur_GetByEmail (as_users s) (normalizeEmail (as_rt s) email) w")
  case (Pair g w1)
  note q = quietD[OF quiet_GetByEmail Pair]
  show thesis
  proof (cases "\<exists>usr. g = Inr usr \<and> normalizeEmail (as_rt s) email \<noteq> [] \<and> pw \<noteq> [] \<and>
      CompareHashAndPassword (as_rt s) (usr_PasswordHash usr) pw = None")
    case True
    then obtain usr where g: "g = Inr usr" "normalizeEmail (as_rt s) email \<noteq> []" "pw \<noteq> []"
      "CompareHashAndPassword (as_rt s) (usr_PasswordHash usr) pw = None" by blast
    with assms Pair have "openSession s usr w1 = (res, w')" by (simp add: auth_Login_def)
    with opened q g Pair show thesis by blast
  next
    case False
    with assms Pair q show thesis
      by (intro failed[of "projl res"])
        (auto simp: auth_Login_def Let_def split: sum.splits if_splits)
  qed
qed

lemma refresh_split [consumes 1, case_names failed opened]:
  assumes "auth_Refresh s tok w = (res, w')"
  obtains (failed) e where "res = Inl e" "store w' = store w" "clock w \<le> clock w'"
    | (opened) usr u w0 w1 where "openSession s usr w1 = (res, w')" "store w1 = store w"
        "clock w \<le> clock w1"
        "live_value (store w) (clock w) (refreshKey (TrimSpace tok)) = Some u"
        "live_value (store w) (clock w) (sessionKey u) = Some (TrimSpace tok)"
        "ur_GetByID (as_users s) u w0 = (Inr usr, w1)"
proof -
  let ?t = "TrimSpace tok"
  obtain g1 w1 where 1: "cache_Get C (refreshKey ?t) w = (g1, w1)" by fastforce
  note f1 = get_frame[OF 1]
  show thesis
  proof (cases "?t \<noteq> [] \<and> (\<exists>u. g1 = Inr u)")
    case False
    with assms 1 f1 show thesis
      by (intro failed[of "projl res"])
        (auto simp: auth_Refresh_def svc_cache Let_def split: sum.splits if_splits)
  next
    case True
    then obtain u where u: "g1 = Inr u" "?t \<noteq> []" by blast
    obtain g2 w2 where 2: "cache_Get C (sessionKey u) w1 = (g2, w2)" by fastforce
    note f2 = get_frame[OF 2]
    show thesis
    proof (cases "g2 = Inr ?t")
      case False
      with assms 1 u 2 f1 f2 show thesis
        by (intro failed[of "projl res"])
          (auto simp: auth_Refresh_def svc_cache Let_def split: sum.splits if_splits)
    next
      case g2: True
      obtain g3 w3 where 3: "ur_GetByID (as_users s) u w2 = (g3, w3)" by fastforce
      note f3 = quietD[OF quiet_GetByID 3]
      show thesis
      proof (cases g3)
        case (Inl e)
        with assms 1 u 2 g2 3 f1 f2 f3 show thesis
          by (intro failed[of "projl res"])
            (auto simp: auth_Refresh_def svc_cache Let_def split: if_splits)
      next
        case (Inr usr)
        with assms 1 u 2 g2 3 have "openSession s usr w3 = (res, w')"
          by (simp add: auth_Refresh_def svc_cache Let_def)
        moreover have "live_value (store w) (clock w) (refreshKey ?t) = Some u"
          using get_hit[OF 1[unfolded u(1)]] f1 live_value_mono by blast
        moreover have "live_value (store w) (clock w) (sessionKey u) = Some ?t"
          using get_hit[OF 2[unfolded g2]] f1 f2 live_value_mono by (metis order_trans)
        ultimately show thesis using opened[of usr w3 u w2] f1 f2 f3 3 Inr by (metis order_trans)
      qed
    qed
  qed
qed

lemma login_inv:
  "auth_Login s email pw w = (res, w') \<Longrightarrow> access_inv (store w) (clock w) \<Longrightarrow>
   clock w \<le> clock w' \<and> access_inv (store w') (clock w')"
  by (cases rule: login_split, assumption)
    (use openSession_post access_inv_mono in \<open>metis order_trans\<close>)+

lemma refresh_inv:
  "auth_Refresh s tok w = (res, w') \<Longrightarrow> access_inv (store w) (clock w) \<Longrightarrow>
   clock w \<le> clock w' \<and> access_inv (store w') (clock w')"
  by (cases rule: refresh_split, assumption)
    (use openSession_post access_inv_mono in \<open>metis order_trans\<close>)+

lemma logout_post:
  assumes "auth_Logout s uid w = (res, w')" and inv: "access_inv (store w) (clock w)"
  shows "clock w \<le> clock w' \<and> access_inv (store w') (clock w') \<and>
    (res = None \<longrightarrow> no_access (store w') (clock w') (TrimSpace uid) \<and>
       live_value (store w') (clock w') (sessionKey (TrimSpace uid)) = None)"
proof (cases "TrimSpace uid = []")
  case True
  with assms show ?thesis by (auto simp: auth_Logout_def)
next
  case False
  obtain r w1 where 1: "invalidateSession s (TrimSpace uid) w = (r, w1)" by fastforce
  note p = invalidateSession_post[OF 1 inv]
  show ?thesis
  proof (cases r)
    case (Some e)
    with False 1 p assms(1) show ?thesis by (auto simp: auth_Logout_def)
  next
    case None
    obtain n w2 where 2: "rt_now (as_rt s) w1 = (n, w2)" by fastforce
    from False 1 None 2 assms(1)
    have 3: "ur_UpdateStatus (as_users s) (TrimSpace uid) UserStatusOffline n w2 = (res, w')"
      by (simp add: auth_Logout_def)
    note q = quietD[OF quiet_now 2] quietD[OF quiet_UpdateStatus 3]
    then have "clock w1 \<le> clock w'" "store w' = store w1" by simp_all
    with p None show ?thesis
      by (metis access_inv_mono no_access_mono live_value_None_mono order_trans)
  qed
qed

lemma register_quiet:
  assumes "auth_Register s input w = (res, w')"
  shows "store w' = store w \<and> clock w \<le> clock w'"
proof -
  let ?em = "normalizeEmail (as_rt s) (ri_Email input)"
  obtain g w1 where 1: "ur_GetByEmail (as_users s) ?em w = (g, w1)" by fastforce
  obtain h w2 where 2: "HashPassword (as_rt s) (ri_Password input) w1 = (h, w2)" by fastforce
  note q = quietD[OF quiet_GetByEmail 1] quietD[OF quiet_hash 2]
  with assms 1 2 show ?thesis
    by (auto simp: auth_Register_def Let_def split: option.splits sum.splits if_splits prod.splits
        dest!: quietD[OF quiet_Create] intro: order_trans)
qed

end

section \<open>The service over a cache that answers every write\<close>

locale writing_auth = sure_auth C store clock s + writing_cache C store clock
  for C :: "'w token_cache" and store and clock and s
begin

lemma validate_inv_always:
  assumes "auth_ValidateAccessToken s tok w = (res, w')" and inv: "access_inv (store w) (clock w)"
  shows "clock w \<le> clock w' \<and> access_inv (store w') (clock w')"
proof (cases res)
  case (Inr u)
  from assms(1) have "clock w \<le> clock w'"
    by (auto simp: auth_ValidateAccessToken_def extendAccess_def svc_cache Let_def
        split: prod.splits sum.splits if_splits option.splits dest!: get_frame set_time)
  with validate_inv[OF assms(1)[unfolded Inr] inv] show ?thesis by simp
next
  case (Inl e)
  obtain g w1 where 1: "cache_Get C (accessKey (TrimSpace tok)) w = (g, w1)" by fastforce
  have set_None: "fst (cache_Set C k v t x) \<noteq> Some e'" for k v t x e' by (simp add: set_effect)
  have "store w' = store w \<and> clock w \<le> clock w'"
    using assms(1) Inl 1 get_frame[OF 1] set_None
    by (auto simp: auth_ValidateAccessToken_def extendAccess_def svc_cache Let_def
        split: prod.splits sum.splits if_splits option.splits) (metis fst_conv)+
  with inv show ?thesis by (simp add: access_inv_mono)
qed

end

end
