(* ===== verification/Auth_Properties.thy ===== *)
theory Auth_Properties
  imports Auth_Sessions Sample_Eval
begin

text \<open>
  The auth service as the API server wires it (\<open>cmd/server/main.go\<close>): over the Postgres user
  repository and the Redis cache. The locales of the session lemmas are interpreted on that
  wiring, and the properties of the service follow.
\<close>

section \<open>Wiring\<close>

definition api_auth :: "env \<Rightarrow> int \<Rightarrow> int \<Rightarrow> world auth_service" where
  "api_auth E accessTTL refreshTTL =
     NewAuthService (go_runtime E) (NewUserRepository E) (NewCache (redis_srv E))
       accessTTL refreshTTL"

lemma api_auth_simps [simp]:
  "as_users (api_auth E A R) = NewUserRepository E"
  "as_cache (api_auth E A R) = NewCache (redis_srv E)"
  "as_accessTTL (api_auth E A R) = A" "as_refreshTTL (api_auth E A R) = R"
  "as_rt (api_auth E A R) = go_runtime E"
  by (simp_all add: api_auth_def NewAuthService_def)

lemma frame_quiet: "(\<And>w r w'. f w = (r, w') \<Longrightarrow> pg_frame w w') \<Longrightarrow> quiet w_keys w_wall f"
  unfolding quiet_def pg_frame_def by (metis prod.collapse)

interpretation ra: auth_environment "NewCache (redis_srv E)" w_keys w_wall "api_auth E A R" for E A R
proof unfold_locales
  show "as_cache (api_auth E A R) = NewCache (redis_srv E)" by simp
  show "quiet w_keys w_wall (ur_Create (as_users (api_auth E A R)) u)" for u
    by (rule frame_quiet) (auto dest: user_create_frame)
  show "quiet w_keys w_wall (ur_GetByEmail (as_users (api_auth E A R)) e)" for e
    by (rule frame_quiet) (auto dest: user_reads_frame)
  show "quiet w_keys w_wall (ur_GetByID (as_users (api_auth E A R)) e)" for e
    by (rule frame_quiet) (auto dest: user_reads_frame)
  show "quiet w_keys w_wall (ur_UpdateStatus (as_users (api_auth E A R)) e st ts)" for e st ts
    by (rule frame_quiet) (auto dest: user_status_frame)
  show "quiet w_keys w_wall (rt_now (as_rt (api_auth E A R)))"
    by (simp add: quiet_def runtime_keys runtime_wall)
  show "quiet w_keys w_wall (rt_rand (as_rt (api_auth E A R)))"
    by (simp add: quiet_def runtime_keys runtime_wall)
  show "quiet w_keys w_wall (rt_bcrypt_gen (as_rt (api_auth E A R)) p)" for p
    by (simp add: quiet_def runtime_keys runtime_wall)
qed

interpretation rs: sure_auth "NewCache (redis_srv (sure_delete E))" w_keys w_wall
  "api_auth (sure_delete E) A R" for E A R
  by unfold_locales

interpretation rww: writing_auth "NewCache (redis_srv (sure_write E))" w_keys w_wall
  "api_auth (sure_write E) A R" for E A R
  by unfold_locales

lemma sure_delete_facilities [simp]:
  "go_runtime (sure_delete E) = go_runtime E" "pass (sure_delete E) = pass E"
  "pg_call (sure_delete E) f w = pg_call E f w"
  "canon_uuid (sure_delete E) = canon_uuid E"
  by (simp_all add: go_runtime_def sure_delete_def pass_def pg_call_def Let_def fun_eq_iff)

lemma calm_is_sure: "sure_delete (calm_redis E) = calm_redis E"
  by (simp add: calm_redis_def sure_delete_def cong: if_cong)

lemma get_by_email_found:
  "UserRepository_GetByEmail E e w = (Inr usr, w1) \<Longrightarrow>
   usr \<in> set (db_users (w_db w)) \<and> usr_Email usr = e"
  by (auto simp: UserRepository_GetByEmail_def sql_user_by_email_def
      dest!: pg_call_ok head_row_Inr)

lemma get_by_id_found:
  "UserRepository_GetByID E i w = (Inr usr, w1) \<Longrightarrow>
   usr \<in> set (db_users (w_db w)) \<and> canon_uuid E i = Some (usr_ID usr)"
  by (auto simp: UserRepository_GetByID_def sql_user_by_id_def with_uuid_def split: option.splits
      dest!: pg_call_ok head_row_Inr)

lemma validation_db:
  "auth_ValidateAccessToken (api_auth E A R) tok w = (r, w') \<Longrightarrow> w_db w' = w_db w \<and> w_log w' = w_log w"
  by (auto simp: auth_ValidateAccessToken_def extendAccess_def Let_def redis_defs
      split: if_splits sum.splits option.splits prod.splits fate.splits)

section \<open>Login\<close>

text \<open>
  After a successful login of a user, in a state where the access invariant holds and with
  deletions that reach Redis, the access token just issued is the only one that validates as
  that user, whatever text is presented; and the user is one whose stored address is the
  normalised one and whose stored hash the password matches.
\<close>

theorem login_sole_access_token:
  assumes "access_inv (w_keys w) (w_wall w)"
    and "auth_Login (api_auth (sure_delete E) A R) email pw w = (Inr tp, w1)"
  shows "\<exists>usr \<in> set (db_users (w_db w)).
    usr_Email usr = normalizeEmail (go_runtime E) email \<and>
    CompareHashAndPassword (go_runtime E) (usr_PasswordHash usr) pw = None \<and>
    (\<forall>tok w2. auth_ValidateAccessToken (api_auth (sure_delete E) A R) tok w1 = (Inr (usr_ID usr), w2)
        \<longrightarrow> TrimSpace tok = AccessToken tp)"
  using assms(2)
proof (cases rule: rs.login_split)
  case (opened usr w0)
  from opened(2,3) assms(1) have "access_inv (w_keys w0) (w_wall w0)"
    by (simp add: access_inv_mono)
  from rs.openSession_post[OF opened(1) this]
  have "session_open (api_auth (sure_delete E) A R) (w_wall w0) (w_keys w1) (w_wall w1) (usr_ID usr) tp"
    by simp
  then have "TrimSpace tok = AccessToken tp"
    if "auth_ValidateAccessToken (api_auth (sure_delete E) A R) tok w1 = (Inr (usr_ID usr), w2)" for tok w2
    using ra.validate_accepts[OF that] by (simp add: session_open_def)
  moreover have "usr \<in> set (db_users (w_db w))" "usr_Email usr = normalizeEmail (go_runtime E) email"
    using opened(4) get_by_email_found[of "sure_delete E" _ w usr w0] by auto
  ultimately show ?thesis using opened(5) by (auto intro!: bexI[of _ usr])
qed simp

abbreviation sample_auth :: "world auth_service" where
  "sample_auth \<equiv> api_auth (sure_delete sample_env) 1000 100000"

lemmas auth_eval = api_auth_def NewAuthService_def auth_Login_def auth_Refresh_def auth_Logout_def
  auth_ValidateAccessToken_def extendAccess_def openSession_def issueTokens_def storeTokens_def
  invalidateSession_def invalidateAccess_def discard_Delete_def normalizeEmail_def
  GenerateAccessToken_def GenerateRefreshToken_def generateOpaqueToken_def
  HashPassword_def CompareHashAndPassword_def passwordMinLength_def

lemma sample_email: "normalizeEmail (go_runtime E) ''Ann@x'' = ''ann@x''"
proof -
  have "ToLower u ''Ann@x'' = ''ann@x''" for u by code_simp
  then show ?thesis
    by (simp add: normalizeEmail_def go_runtime_def TrimSpace_graphic graphic_def)
qed

lemma sample_login:
  "\<exists>tp w1. auth_Login sample_auth ''Ann@x'' ''password1'' sample_world = (Inr tp, w1) \<and>
     w_wall w1 < 1100 \<and>
     live_value (w_keys w1) (w_wall w1) (accessKey (AccessToken tp)) = Some ''u-ann''"
  unfolding auth_Login_def api_auth_simps sure_delete_facilities sample_email
  by (simp add: world_eval auth_eval user_repo_eval)

theorem login_sole_access_token_witness:
  "\<exists>tp w1. auth_Login sample_auth ''Ann@x'' ''password1'' sample_world = (Inr tp, w1) \<and>
    (\<exists>usr \<in> set (db_users (w_db sample_world)).
      usr_Email usr = normalizeEmail (go_runtime sample_env) ''Ann@x'' \<and>
      CompareHashAndPassword (go_runtime sample_env) (usr_PasswordHash usr) ''password1'' = None \<and>
      (\<forall>tok w2. auth_ValidateAccessToken sample_auth tok w1 = (Inr (usr_ID usr), w2)
          \<longrightarrow> TrimSpace tok = AccessToken tp))"
proof -
  obtain tp w1 where l: "auth_Login sample_auth ''Ann@x'' ''password1'' sample_world = (Inr tp, w1)"
    using sample_login by blast
  have "access_inv (w_keys sample_world) (w_wall sample_world)" by (simp add: sample_world_def)
  from login_sole_access_token[OF this l] l show ?thesis by blast
qed

lemma login_token_trimmed:
  assumes "access_inv (w_keys w) (w_wall w)"
    and "auth_Login (api_auth (calm_redis E) A R) email pw w = (Inr tp, w1)"
  shows "TrimSpace (AccessToken tp) = AccessToken tp \<and> AccessToken tp \<noteq> []"
proof -
  have l: "auth_Login (api_auth (sure_delete (calm_redis E)) A R) email pw w = (Inr tp, w1)"
    using assms(2) by (simp add: calm_is_sure)
  show ?thesis using l
  proof (cases rule: rs.login_split)
    case (opened usr w0)
    from opened(2,3) assms(1) have "access_inv (w_keys w0) (w_wall w0)"
      by (simp add: access_inv_mono)
    from rs.openSession_post[OF opened(1) this] show ?thesis by (simp add: session_open_def)
  qed simp
qed

text \<open>
  What a login opens, when Redis answers: in every later world with the same keys, as long as the access
  lifetime has not passed since the login began, the access token validates as the user.
\<close>

lemma login_opens:
  assumes "access_inv (w_keys w) (w_wall w)"
    and "auth_Login (api_auth (calm_redis E) A R) email pw w = (Inr tp, w1)"
    and "w_keys v = w_keys w1" and "w_wall (pass (calm_redis E) v) < w_wall w + A"
  shows "\<exists>usr \<in> set (db_users (w_db w)). usr_Email usr = normalizeEmail (go_runtime E) email \<and>
    CompareHashAndPassword (go_runtime E) (usr_PasswordHash usr) pw = None \<and>
    (\<exists>w2. auth_ValidateAccessToken (api_auth (calm_redis E) A R) (AccessToken tp) v
            = (Inr (usr_ID usr), w2))"
proof -
  let ?E = "calm_redis E"
  have l: "auth_Login (api_auth (sure_delete ?E) A R) email pw w = (Inr tp, w1)"
    using assms(2) by (simp add: calm_is_sure)
  show ?thesis using l
  proof (cases rule: rs.login_split)
    case (opened usr w0)
    from opened(2,3) assms(1) have "access_inv (w_keys w0) (w_wall w0)"
      by (simp add: access_inv_mono)
    from rs.openSession_post[OF opened(1) this] have so: "session_open (api_auth ?E A R) (w_wall w0)
        (w_keys w1) (w_wall w1) (usr_ID usr) tp" by (simp add: calm_is_sure)
    then obtain t where t: "w_wall w0 \<le> t"
      "w_keys w1 (accessKey (AccessToken tp)) = Some (usr_ID usr, deadline A t)"
      by (auto simp: session_open_def)
    with assms(3,4) opened(3)
    have "live_value (w_keys v) (w_wall (pass ?E v)) (accessKey (AccessToken tp)) = Some (usr_ID usr)"
      by (auto simp: live_value_def alive_def deadline_def)
    then have g: "cache_Get (NewCache (redis_srv ?E)) (accessKey (AccessToken tp)) v
        = (Inr (usr_ID usr), pass ?E v)" by (rule calm_get)
    obtain w2 where s1: "cache_Set (NewCache (redis_srv ?E)) (accessKey (AccessToken tp))
        (usr_ID usr) A (pass ?E v) = (None, w2)" using calm_set by blast
    obtain w3 where s2: "cache_Set (NewCache (redis_srv ?E)) (accessSessionKey (usr_ID usr))
        (AccessToken tp) A w2 = (None, w3)" using calm_set by blast
    from so g s1 s2 have "auth_ValidateAccessToken (api_auth ?E A R) (AccessToken tp) v
        = (Inr (usr_ID usr), w3)"
      by (simp add: auth_ValidateAccessToken_def extendAccess_def session_open_def)
    moreover have "go_runtime ?E = go_runtime E" by (simp add: go_runtime_def calm_redis_def pass_def)
    ultimately show ?thesis
      using opened(4,5) get_by_email_found[of "sure_delete ?E" _ w usr w0]
      by (auto simp: calm_is_sure intro!: bexI[of _ usr])
  qed simp
qed

text \<open>
  With a Redis that answers, the access token a login returns is accepted for its user as
  long as the time that passed since the login began is less than the access lifetime.
\<close>

theorem login_token_accepted:
  assumes "access_inv (w_keys w) (w_wall w)"
    and "auth_Login (api_auth (calm_redis E) A R) email pw w = (Inr tp, w1)"
    and "w_wall (pass (calm_redis E) w1) < w_wall w + A"
  shows "\<exists>usr \<in> set (db_users (w_db w)). usr_Email usr = normalizeEmail (go_runtime E) email \<and>
    (\<exists>w2. auth_ValidateAccessToken (api_auth (calm_redis E) A R) (AccessToken tp) w1
            = (Inr (usr_ID usr), w2))"
  using login_opens[OF assms(1,2) refl assms(3)] by blast

lemma sample_calm: "calm_redis sample_env = sample_env" "sure_delete sample_env = sample_env"
  by (simp_all add: calm_redis_def sure_delete_def sample_env_def cong: if_cong)

theorem login_token_accepted_witness:
  "\<exists>tp w1 u w2. auth_Login sample_auth ''Ann@x'' ''password1'' sample_world = (Inr tp, w1) \<and>
     auth_ValidateAccessToken sample_auth (AccessToken tp) w1 = (Inr u, w2)"
proof -
  obtain tp w1 where l: "auth_Login sample_auth ''Ann@x'' ''password1'' sample_world = (Inr tp, w1)"
    and "w_wall w1 < 1100" using sample_login by blast
  have i: "access_inv (w_keys sample_world) (w_wall sample_world)" by (simp add: sample_world_def)
  have t: "w_wall (pass (calm_redis sample_env) w1) < w_wall sample_world + 1000"
    using \<open>w_wall w1 < 1100\<close> by (simp add: pass_def sample_calm sample_world_def) (simp add: sample_env_def)
  from l have l': "auth_Login (api_auth (calm_redis sample_env) 1000 100000)
      ''Ann@x'' ''password1'' sample_world = (Inr tp, w1)" by (simp add: sample_calm)
  from login_token_accepted[OF i l' t] l show ?thesis by (auto simp: sample_calm)
qed

text \<open>
  An unknown address and a wrong password are answered alike, so the reply does not tell
  which addresses have accounts; and neither issues a token or touches the session entries.
\<close>

theorem login_credentials_alike:
  assumes "normalizeEmail (as_rt s) email \<noteq> []" and "pw \<noteq> []"
    and "ur_GetByEmail (as_users s) (normalizeEmail (as_rt s) email) w = (r, w1)"
    and "r = Inl ErrNoRows \<or>
      (\<exists>usr. r = Inr usr \<and> CompareHashAndPassword (as_rt s) (usr_PasswordHash usr) pw \<noteq> None)"
  shows "auth_Login s email pw w = (Inl (AuthErr ErrInvalidCredentials), w1)"
  using assms by (auto simp: auth_Login_def)

theorem login_credentials_alike_witness:
  "fst (auth_Login sample_auth ''Ann@x'' ''password2'' sample_world)
     = Inl (AuthErr ErrInvalidCredentials)"
proof -
  have e: "normalizeEmail (as_rt sample_auth) ''Ann@x'' = ''ann@x''" by (simp add: sample_email)
  obtain w1 where g: "ur_GetByEmail (as_users sample_auth) ''ann@x'' sample_world
      = (Inr (sample_user ''ann''), w1)"
    by (simp add: world_eval user_repo_eval)
  have "CompareHashAndPassword (as_rt sample_auth) (usr_PasswordHash (sample_user ''ann''))
      ''password2'' \<noteq> None"
    by (simp add: world_eval auth_eval)
  with login_credentials_alike[of sample_auth "''Ann@x''" "''password2''" sample_world
      "Inr (sample_user ''ann'')" w1] g e
  show ?thesis by simp
qed

section \<open>Refresh and logout\<close>


text \<open>A world in which Ann has a session.\<close>

definition session_world :: world where
  "session_world = sample_world\<lparr>w_keys := (\<lambda>_. None)(
     sessionKey ''u-ann'' \<mapsto> (''r0'', None), refreshKey ''r0'' \<mapsto> (''u-ann'', None),
     accessKey ''a0'' \<mapsto> (''u-ann'', None), accessSessionKey ''u-ann'' \<mapsto> (''a0'', None))\<rparr>"

lemma session_world_inv: "access_inv (w_keys session_world) (w_wall session_world)"
  by (auto simp: session_world_def access_inv_def outlives_def split: if_splits)

lemma trim_r0: "TrimSpace ''r0'' = ''r0''" "TrimSpace ''a0'' = ''a0''"
    "TrimSpace ''u-ann'' = ''u-ann''"
  by (simp_all add: TrimSpace_graphic graphic_def)

lemmas session_eval = session_world_def auth_eval world_eval user_repo_eval trim_r0

lemma sample_refresh:
  "\<exists>tp w1. auth_Refresh sample_auth ''r0'' session_world = (Inr tp, w1) \<and> RefreshToken tp \<noteq> ''r0''"
  by (simp add: session_eval Let_def)




section \<open>All reachable states\<close>

text \<open>The requests the API server passes to the service, in any order.\<close>

datatype auth_request =
    ReqRegister register_input
  | ReqLogin string string
  | ReqRefresh string
  | ReqLogout string
  | ReqValidate string

fun serve_auth :: "'w auth_service \<Rightarrow> auth_request \<Rightarrow> 'w \<Rightarrow> 'w" where
  "serve_auth s (ReqRegister input) w = snd (auth_Register s input w)"
| "serve_auth s (ReqLogin email pw) w = snd (auth_Login s email pw w)"
| "serve_auth s (ReqRefresh tok) w = snd (auth_Refresh s tok w)"
| "serve_auth s (ReqLogout uid) w = snd (auth_Logout s uid w)"
| "serve_auth s (ReqValidate tok) w = snd (auth_ValidateAccessToken s tok w)"

lemma sure_write_is_sure: "sure_delete (sure_write E) = sure_write E"
  by (simp add: sure_write_def sure_delete_def cong: if_cong)

lemma serve_auth_inv:
  assumes "access_inv (w_keys w) (w_wall w)"
  shows "access_inv (w_keys (serve_auth (api_auth (sure_write E) A R) req w))
           (w_wall (serve_auth (api_auth (sure_write E) A R) req w))"
proof -
  let ?s = "api_auth (sure_write E) A R"
  note inv = assms
  show ?thesis
  proof (cases req)
    case (ReqRegister input)
    then show ?thesis using rww.register_quiet[of E A R input w "fst (auth_Register ?s input w)"
        "snd (auth_Register ?s input w)"] inv by (simp add: access_inv_mono)
  next
    case (ReqLogin email pw)
    then show ?thesis using rww.login_inv[of E A R email pw w "fst (auth_Login ?s email pw w)"
        "snd (auth_Login ?s email pw w)"] inv by simp
  next
    case (ReqRefresh tok)
    then show ?thesis using rww.refresh_inv[of E A R tok w "fst (auth_Refresh ?s tok w)"
        "snd (auth_Refresh ?s tok w)"] inv by simp
  next
    case (ReqLogout uid)
    then show ?thesis using rww.logout_post[of E A R uid w "fst (auth_Logout ?s uid w)"
        "snd (auth_Logout ?s uid w)"] inv by simp
  next
    case (ReqValidate tok)
    then show ?thesis
      using rww.validate_inv_always[of E A R tok w "fst (auth_ValidateAccessToken ?s tok w)"
          "snd (auth_ValidateAccessToken ?s tok w)"] inv by simp
  qed
qed


lemma sample_write: "sure_write sample_env = sample_env"
  by (simp add: sure_write_def sample_env_def cong: if_cong)


section \<open>What the ordering and the discarded errors allow\<close>



text \<open>
  The errors of the deletions are discarded. When Redis does not carry them out, a logout
  leaves every session entry in place, and can still report success.
\<close>

theorem logout_without_deletes_keeps_entries:
  assumes "\<And>n. \<exists>e. redis_fate E DEL n = LostRequest e"
  shows "w_keys (snd (auth_Logout (api_auth E A R) uid w)) = w_keys w"
proof -
  let ?s = "api_auth E A R" and ?C = "NewCache (redis_srv E)"
  have del: "w_keys (discard_Delete ?C k v) = w_keys v" for k v
    using assms[of "w_tick v"] by (auto simp: discard_Delete_def redis_defs acts_def)
  have get: "cache_Get ?C k v = (r, v') \<Longrightarrow> w_keys v' = w_keys v" for k v r v'
    using ra.get_frame by blast
  have acc: "invalidateAccess ?s u v = (r, v') \<Longrightarrow> w_keys v' = w_keys v" for u v r v'
    by (auto simp: invalidateAccess_def Let_def del split: prod.splits sum.splits if_splits dest!: get)
  have inv: "invalidateSession ?s u v = (r, v') \<Longrightarrow> w_keys v' = w_keys v" for u v r v'
    by (auto simp: invalidateSession_def Let_def del split: prod.splits sum.splits if_splits
        dest!: get acc)
  have status: "UserRepository_UpdateStatus E i st t v = (r, v') \<Longrightarrow> w_keys v' = w_keys v" for i st t v r v'
    using user_status_frame by (auto simp: pg_frame_def)
  have now: "rt_now (go_runtime E) v = (t, v') \<Longrightarrow> w_keys v' = w_keys v" for t v v'
    using runtime_keys(1)[of E v] by simp
  show ?thesis
    by (auto simp: auth_Logout_def Let_def split: prod.splits option.splits dest!: inv now)
      (metis prod.collapse status)
qed

definition deaf_env :: env where
  "deaf_env = sample_env\<lparr>redis_fate := (\<lambda>op n. if op = DEL then LostRequest (ExtErr ''i/o timeout'') else Done)\<rparr>"

theorem logout_without_deletes_keeps_entries_witness:
  "\<exists>w1. auth_Logout (api_auth deaf_env 1000 100000) ''u-ann'' session_world = (None, w1) \<and>
     w_keys w1 = w_keys session_world"
proof -
  have "\<exists>w1. auth_Logout (api_auth deaf_env 1000 100000) ''u-ann'' session_world = (None, w1)"
    by (simp add: session_eval deaf_env_def Let_def)
  moreover have "\<exists>e. redis_fate deaf_env DEL n = LostRequest e" for n by (simp add: deaf_env_def)
  ultimately show ?thesis
    using logout_without_deletes_keeps_entries[of deaf_env 1000 100000 "''u-ann''" session_world]
    by (metis snd_conv)
qed

section \<open>Registration\<close>

text \<open>
  A successful registration adds exactly one user: with the trimmed name, the normalised
  address no stored user had, a hash made from the password, which has at least eight bytes,
  and the status \<open>offline\<close>; the user returned is that user without the hash.
\<close>

theorem register_adds_user:
  assumes "auth_Register (api_auth E A R) input w = (Inr u, w1)"
  shows "\<exists>usr n. db_users (w_db w1) = db_users (w_db w) @ [usr] \<and>
     usr_Username usr = TrimSpace (ri_Username input) \<and> usr_Username usr \<noteq> [] \<and>
     usr_Email usr = normalizeEmail (go_runtime E) (ri_Email input) \<and>
     usr_Email usr \<notin> usr_Email ` set (db_users (w_db w)) \<and>
     bcrypt_gen E n (ri_Password input) = Inr (usr_PasswordHash usr) \<and>
     8 \<le> length (ri_Password input) \<and> usr_Status usr = UserStatusOffline \<and>
     usr_PasswordHash u = [] \<and> usr_Username u = usr_Username usr \<and> usr_Email u = usr_Email usr"
proof -
  let ?em = "normalizeEmail (go_runtime E) (ri_Email input)"
  have v: "validateRegisterInput input = None"
    using assms by (auto simp: auth_Register_def split: option.splits)
  then have name: "TrimSpace (ri_Username input) \<noteq> []"
    by (auto simp: validateRegisterInput_def split: if_splits)
  from assms v obtain w2 where g: "UserRepository_GetByEmail E ?em w = (Inl ErrNoRows, w2)"
    by (auto simp: auth_Register_def Let_def split: prod.splits sum.splits if_splits)
  from user_reads_frame(2)[OF g] have d2: "w_db w2 = w_db w" by simp
  from assms v g obtain h w3 where h: "HashPassword (go_runtime E) (ri_Password input) w2 = (Inr h, w3)"
    by (auto simp: auth_Register_def Let_def split: prod.splits sum.splits)
  then have len: "8 \<le> length (ri_Password input)"
    and gen: "bcrypt_gen E (w_tick w2) (ri_Password input) = Inr h" and d3: "w_db w3 = w_db w2"
    by (auto simp: HashPassword_def passwordMinLength_def go_runtime_def split: if_splits sum.splits)
  let ?new = "\<lparr>usr_ID = [], usr_Username = TrimSpace (ri_Username input), usr_Email = ?em,
      usr_PasswordHash = h, usr_Status = UserStatusOffline, usr_LastSeenAt = 0, usr_CreatedAt = 0\<rparr>"
  from assms v g h obtain u' where c: "UserRepository_Create E ?new w3 = ((None, u'), w1)"
    and u: "u = u'\<lparr>usr_PasswordHash := []\<rparr>"
    by (auto simp: auth_Register_def Let_def split: prod.splits option.splits)
  obtain i w4 where 4: "id_or_new E [] w3 = (i, w4)" by fastforce
  obtain t w5 where 5: "time_or_now E 0 w4 = (t, w5)" by fastforce
  let ?row = "?new\<lparr>usr_ID := i, usr_CreatedAt := t\<rparr>"
  from c 4 5 have u': "u' = ?row" and p: "pg_call E (sql_insert_user E ?row) w5 = (Inr (), w1)"
    by (auto simp: UserRepository_Create_def Let_def err_of_None split: prod.splits)
  from pg_call_ok[OF p, symmetric] id_or_new_frame[OF 4] time_or_now_frame[OF 5] d2 d3
  obtain usr where "db_users (w_db w1) = db_users (w_db w) @ [usr]"
    and "usr_Username usr = TrimSpace (ri_Username input)" "usr_Email usr = ?em"
      "usr_PasswordHash usr = h" "usr_Status usr = UserStatusOffline"
      "?em \<notin> usr_Email ` set (db_users (w_db w))"
    by (auto simp: sql_insert_user_def with_uuid_def split: option.splits if_splits)
  with name len gen u u' show ?thesis by (intro exI[of _ usr] exI[of _ "w_tick w2"]) auto
qed

theorem register_adds_user_witness:
  "\<exists>u w1 usr. auth_Register sample_auth
       \<lparr>ri_Username = ''cy'', ri_Email = ''cy@x'', ri_Password = ''password1''\<rparr> sample_world = (Inr u, w1) \<and>
     db_users (w_db w1) = db_users (w_db sample_world) @ [usr] \<and> usr_PasswordHash u = []"
proof -
  have e: "ToLower f ''cy@x'' = ''cy@x''" for f by code_simp
  have t: "TrimSpace ''cy'' = ''cy''" "TrimSpace ''cy@x'' = ''cy@x''"
    by (simp_all add: TrimSpace_graphic graphic_def)
  let ?in = "\<lparr>ri_Username = ''cy'', ri_Email = ''cy@x'', ri_Password = ''password1''\<rparr>"
  have "\<exists>u w1. auth_Register sample_auth ?in sample_world = (Inr u, w1)"
    by (simp add: auth_Register_def validateRegisterInput_def e t world_eval auth_eval user_repo_eval)
  then obtain u w1 where r: "auth_Register sample_auth ?in sample_world = (Inr u, w1)" by blast
  from register_adds_user[OF r] r show ?thesis by blast
qed

end
