(* ===== verification/Auth_Steps.thy ===== *)
theory Auth_Steps
  imports Steps Auth_Service
begin

text \<open>
  Every operation of the auth service stays within a relation that its calls to the repository,
  the cache and the run-time facilities stay within.
\<close>

locale auth_steps = step_relation R for R :: "'w \<Rightarrow> 'w \<Rightarrow> bool" +
  fixes s :: "'w auth_service"
  assumes acache_Get: "within R (cache_Get (as_cache s) k)"
    and acache_Set: "within R (cache_Set (as_cache s) k v ttl)"
    and acache_Delete: "within R (cache_Delete (as_cache s) k)"
    and ausers_Create: "within R (ur_Create (as_users s) u)"
    and ausers_GetByID: "within R (ur_GetByID (as_users s) i)"
    and ausers_GetByEmail: "within R (ur_GetByEmail (as_users s) e)"
    and ausers_UpdateStatus: "within R (ur_UpdateStatus (as_users s) i st t)"
    and aclock: "within R (rt_now (as_rt s))"
    and arand: "within R (rt_rand (as_rt s))"
    and abcrypt: "within R (rt_bcrypt_gen (as_rt s) p)"
begin

lemma discard_step: "R w (discard_Delete (as_cache s) k w)"
  using acache_Delete by (simp add: within_def discard_Delete_def)

lemma discard_after: "R a w \<Longrightarrow> R a (discard_Delete (as_cache s) k w)"
  by (rule R_trans[OF _ discard_step])

lemmas cache_steps = withinD[OF acache_Get] withinD[OF acache_Set]

lemma invalidateAccess_within: "within R (invalidateAccess s u)"
  by (rule withinI)
    (auto simp: invalidateAccess_def Let_def split: prod.splits sum.splits if_splits
      dest!: cache_steps intro: discard_after)

lemma invalidateSession_within: "within R (invalidateSession s u)"
  by (rule withinI)
    (auto simp: invalidateSession_def Let_def split: prod.splits sum.splits if_splits
      dest!: cache_steps withinD[OF invalidateAccess_within] intro: discard_after R_trans)

lemma storeTokens_within: "within R (storeTokens s u a b)"
  by (rule withinI, auto simp: storeTokens_def Let_def split: prod.splits option.splits
      dest!: cache_steps)
    (meson discard_after R_trans)+

lemma token_steps:
  "within R (GenerateAccessToken (as_rt s))" "within R (GenerateRefreshToken (as_rt s))"
  "within R (HashPassword (as_rt s) p)"
  by (rule withinI, auto simp: GenerateAccessToken_def GenerateRefreshToken_def HashPassword_def
      generateOpaqueToken_def R_refl split: prod.splits sum.splits if_splits
      dest!: withinD[OF arand] withinD[OF abcrypt])+

lemma issueTokens_within: "within R (issueTokens s u)"
  by (rule withinI, auto simp: issueTokens_def split: prod.splits option.splits sum.splits
      dest!: withinD[OF invalidateSession_within] withinD[OF storeTokens_within]
        withinD[OF token_steps(1)] withinD[OF token_steps(2)] withinD[OF aclock])
    (meson R_trans)+

lemma openSession_within: "within R (openSession s u)"
  by (rule withinI)
    (auto simp: openSession_def split: prod.splits option.splits sum.splits
      dest!: withinD[OF issueTokens_within] withinD[OF aclock] withinD[OF ausers_UpdateStatus]
      intro: R_trans)

lemma Register_within: "within R (auth_Register s input)"
  by (rule withinI)
    (auto simp: auth_Register_def Let_def R_refl split: prod.splits option.splits sum.splits if_splits
      dest!: withinD[OF ausers_GetByEmail] withinD[OF token_steps(3)] withinD[OF ausers_Create]
      intro: R_trans)

lemma Login_within: "within R (auth_Login s email pw)"
  by (rule withinI)
    (auto simp: auth_Login_def Let_def R_refl split: prod.splits sum.splits if_splits
      dest!: withinD[OF ausers_GetByEmail] withinD[OF openSession_within] intro: R_trans)

lemma Refresh_within: "within R (auth_Refresh s tok)"
  by (rule withinI)
    (auto simp: auth_Refresh_def Let_def R_refl split: prod.splits sum.splits if_splits
      dest!: cache_steps withinD[OF ausers_GetByID] withinD[OF openSession_within] intro: R_trans)

lemma Logout_within: "within R (auth_Logout s u)"
  by (rule withinI)
    (auto simp: auth_Logout_def Let_def R_refl split: prod.splits option.splits if_splits
      dest!: withinD[OF invalidateSession_within] withinD[OF aclock] withinD[OF ausers_UpdateStatus]
      intro: R_trans)

lemma Validate_within: "within R (auth_ValidateAccessToken s tok)"
  by (rule withinI)
    (auto simp: auth_ValidateAccessToken_def extendAccess_def Let_def R_refl
      split: prod.splits option.splits sum.splits if_splits dest!: cache_steps intro: R_trans)

lemmas auth_within = Register_within Login_within Refresh_within Logout_within Validate_within

end

end
