(* ===== verification/Message_Repo.thy ===== *)
theory Message_Repo
  imports User_Repo
begin

text \<open>
  \<open>internal/repository/postgres/message_repo.go\<close> over the message tables: what each method
  sends, the loops over the rows and the slices \<open>ListAround\<close> builds.
\<close>

section \<open>Slices\<close>

text \<open>
  \<open>make([]models.Message, 0, n)\<close> panics when the capacity is negative or the 152-byte elements
  would not fit the 48-bit address space.
\<close>

definition makeslice_ok :: "int \<Rightarrow> bool" where
  "makeslice_ok n \<longleftrightarrow> 0 \<le> n \<and> n * 152 \<le> 2 ^ 48"

definition makeslice_panic :: err where
  "makeslice_panic = GoPanic ''runtime error: makeslice: cap out of range''"

text \<open>
  The loop that reverses a slice in place: \<open>i\<close> runs up from 0 and \<open>j\<close> down from the last
  index, swapping while \<open>i < j\<close>.
\<close>

function swap_loop :: "'a list \<Rightarrow> int \<Rightarrow> int \<Rightarrow> 'a list" where
  "swap_loop xs i j =
     (if i < j then swap_loop (xs[nat i := xs ! nat j, nat j := xs ! nat i]) (i + 1) (j - 1)
      else xs)"
  by pat_completeness auto

termination
  by (relation "measure (\<lambda>(xs, i, j). nat (j - i))") auto

declare swap_loop.simps [simp del]

definition reverse_in_place :: "'a list \<Rightarrow> 'a list" where
  "reverse_in_place xs = swap_loop xs 0 (int (length xs) - 1)"

lemma swap_loop_segment:
  "swap_loop (as @ ys @ bs) (int (length as)) (int (length as) + int (length ys) - 1)
     = as @ rev ys @ bs"
proof (induction "length ys" arbitrary: as ys bs rule: less_induct)
  case less
  show ?case
  proof (cases "length ys \<le> 1")
    case True
    then have "rev ys = ys" by (cases ys) auto
    with True show ?thesis by (subst swap_loop.simps) auto
  next
    case False
    then obtain a ms b where ys: "ys = a # ms @ [b]"
      by (metis One_nat_def append_butlast_last_id le_SucI length_0_conv length_Cons linear
          list.exhaust list.size(3) not_less_eq_eq)
    let ?i = "int (length as)" and ?j = "int (length as) + int (length ys) - 1"
    have j: "nat ?j = length as + Suc (length ms)" by (simp add: ys)
    have nb: "(as @ ys @ bs) ! nat ?j = b"
      unfolding j by (simp add: ys nth_append)
    have na: "(as @ ys @ bs) ! nat ?i = a" by (simp add: ys nth_append)
    have step: "(as @ ys @ bs)[nat ?i := b, nat ?j := a] = (as @ [b]) @ ms @ (a # bs)"
      unfolding j by (simp add: ys list_update_append)
    have "?i < ?j" using False by simp
    then have "swap_loop (as @ ys @ bs) ?i ?j
        = swap_loop ((as @ [b]) @ ms @ (a # bs)) (?i + 1) (?j - 1)"
      by (subst swap_loop.simps) (simp only: na nb step if_True)
    also have "\<dots> = (as @ [b]) @ rev ms @ (a # bs)"
      using less[of ms "as @ [b]" "a # bs"] by (simp add: ys add.commute)
    also have "\<dots> = as @ rev ys @ bs" by (simp add: ys)
    finally show ?thesis .
  qed
qed

lemma reverse_in_place_rev: "reverse_in_place xs = rev xs"
  using swap_loop_segment[of "[]" xs "[]"] by (simp add: reverse_in_place_def)

section \<open>Methods\<close>

text \<open>\<open>Create\<close> fills in id, times and status of its argument, then inserts the row.\<close>

definition MessageRepository_Create :: "env \<Rightarrow> message \<Rightarrow> (world, err option \<times> message) io" where
  "MessageRepository_Create E msg w =
     (case id_or_new E (msg_ID msg) w of (i, w1) \<Rightarrow>
      case time_or_now E (msg_CreatedAt msg) w1 of (t, w2) \<Rightarrow>
      (let msg' = msg\<lparr>msg_ID := i, msg_CreatedAt := t,
             msg_UpdatedAt := (if IsZero (msg_UpdatedAt msg) then t else msg_UpdatedAt msg),
             msg_Status := (if msg_Status msg = [] then MessageStatusSent else msg_Status msg)\<rparr> in
       case pg_call E (sql_insert_message E msg') w2 of (r, w3) \<Rightarrow> ((err_of r, msg'), w3)))"

definition MessageRepository_ListByRoom ::
  "env \<Rightarrow> string \<Rightarrow> int \<Rightarrow> int \<Rightarrow> (world, err + message list) io" where
  "MessageRepository_ListByRoom E roomID limit offset w =
     pg_call E (sql_list_messages E (w_tick w) roomID limit offset) w"

definition list_before ::
  "env \<Rightarrow> string \<Rightarrow> time \<Rightarrow> int \<Rightarrow> (world, err + message list) io" where
  "list_before E roomID t before w =
     (if \<not> makeslice_ok before then (Inl makeslice_panic, w)
      else if before > 0
      then (case pg_call E (sql_messages_before E (w_tick w) roomID t before) w of
              (Inl e, w1) \<Rightarrow> (Inl e, w1)
            | (Inr ms, w1) \<Rightarrow> (Inr (reverse_in_place ms), w1))
      else (Inr [], w))"

definition list_after ::
  "env \<Rightarrow> string \<Rightarrow> time \<Rightarrow> int \<Rightarrow> (world, err + message list) io" where
  "list_after E roomID t after w =
     (if \<not> makeslice_ok after then (Inl makeslice_panic, w)
      else if after > 0 then pg_call E (sql_messages_after E (w_tick w) roomID t after) w
      else (Inr [], w))"

definition MessageRepository_ListAround ::
  "env \<Rightarrow> string \<Rightarrow> string \<Rightarrow> int \<Rightarrow> int \<Rightarrow> (world, err + message list) io" where
  "MessageRepository_ListAround E roomID messageID before after w =
     (case pg_call E (sql_message_by_id E messageID) w of
        (Inl e, w1) \<Rightarrow> (Inl e, w1)
      | (Inr target, w1) \<Rightarrow>
          if msg_RoomID target \<noteq> roomID then (Inl ErrNoRows, w1)
          else (case list_before E roomID (msg_CreatedAt target) before w1 of
                  (Inl e, w2) \<Rightarrow> (Inl e, w2)
                | (Inr beforeMsgs, w2) \<Rightarrow>
                    (case list_after E roomID (msg_CreatedAt target) after w2 of
                       (Inl e, w3) \<Rightarrow> (Inl e, w3)
                     | (Inr afterMsgs, w3) \<Rightarrow> (Inr (beforeMsgs @ [target] @ afterMsgs), w3))))"

definition MessageRepository_UpdateStatus ::
  "env \<Rightarrow> string \<Rightarrow> message_status \<Rightarrow> (world, err option) io" where
  "MessageRepository_UpdateStatus E i status w =
     (case pg_call E (sql_update_message_status E i status) w of (r, w1) \<Rightarrow> (err_of r, w1))"

definition MessageRepository_UpsertReceipt ::
  "env \<Rightarrow> message_receipt \<Rightarrow> (world, err option) io" where
  "MessageRepository_UpsertReceipt E receipt w =
     (case id_or_new E (rcp_ID receipt) w of (i, w1) \<Rightarrow>
      case pg_call E (sql_upsert_receipt E (receipt\<lparr>rcp_ID := i\<rparr>)) w1 of (r, w2) \<Rightarrow>
        (err_of r, w2))"

definition MessageRepository_Search ::
  "env \<Rightarrow> string \<Rightarrow> string \<Rightarrow> string \<Rightarrow> int \<Rightarrow> (world, err + message list) io" where
  "MessageRepository_Search E userID roomID query limit w =
     pg_call E (sql_search_messages E (w_tick w) userID roomID query limit) w"

definition MessageRepository_GetByID :: "env \<Rightarrow> string \<Rightarrow> (world, err + message) io" where
  "MessageRepository_GetByID E i w = pg_call E (sql_message_by_id E i) w"

text \<open>\<open>NOW()\<close> is the server's clock during the call.\<close>

definition MessageRepository_UpdateContent ::
  "env \<Rightarrow> string \<Rightarrow> string \<Rightarrow> (world, err + message) io" where
  "MessageRepository_UpdateContent E i content w =
     pg_call E (sql_update_content E i content (w_wall (pass E w))) w"

definition MessageRepository_Delete :: "env \<Rightarrow> string \<Rightarrow> (world, err option) io" where
  "MessageRepository_Delete E i w =
     (case pg_call E (sql_delete_message E i) w of (r, w1) \<Rightarrow> (err_of r, w1))"

end
