(* ===== verification/Room_Repo.thy ===== *)
theory Room_Repo
  imports User_Repo
begin

text \<open>
  \<open>internal/repository/postgres/room_repo.go\<close> over the room tables. \<open>Create\<close> runs in a
  transaction: its statements work on a view of their own, which replaces the tables when the
  commit is carried out and is dropped by the deferred rollback otherwise.
\<close>

section \<open>Transactions (db.go)\<close>

definition pg_begin :: "env \<Rightarrow> (world, err + database) io" where
  "pg_begin E w =
     (case pg_fate E (w_tick w) of
        Done \<Rightarrow> (Inr (w_db w), pass E w)
      | LostRequest e \<Rightarrow> (Inl (conn_err e), pass E w)
      | LostReply e \<Rightarrow> (Inl (conn_err e), pass E w))"

definition pg_commit :: "env \<Rightarrow> database \<Rightarrow> (world, err option) io" where
  "pg_commit E d w =
     (case pg_fate E (w_tick w) of
        Done \<Rightarrow> (None, (pass E w)\<lparr>w_db := d\<rparr>)
      | LostRequest e \<Rightarrow> (Some (conn_err e), pass E w)
      | LostReply e \<Rightarrow> (Some (conn_err e), (pass E w)\<lparr>w_db := d\<rparr>))"

text \<open>The error of the rollback is discarded; a transaction that was committed is closed.\<close>

definition rollback :: "env \<Rightarrow> world \<Rightarrow> world" where
  "rollback E w = pass E w"

section \<open>Methods\<close>

fun tx_insert_members ::
  "env \<Rightarrow> string \<Rightarrow> room_member list \<Rightarrow> database \<Rightarrow> world \<Rightarrow> (err option \<times> database) \<times> world" where
  "tx_insert_members E roomID [] d w = ((None, d), w)"
| "tx_insert_members E roomID (m # ms) d w =
     (case id_or_new E (mem_ID m) w of (i, w1) \<Rightarrow>
      case tx_call E (sql_insert_member E (m\<lparr>mem_ID := i, mem_RoomID := roomID\<rparr>)) d w1 of
        ((Inl e, d1), w2) \<Rightarrow> ((Some e, d1), w2)
      | ((Inr _, d1), w2) \<Rightarrow> tx_insert_members E roomID ms d1 w2)"

definition RoomRepository_Create ::
  "env \<Rightarrow> room \<Rightarrow> room_member list \<Rightarrow> (world, err option \<times> room) io" where
  "RoomRepository_Create E room members w =
     (case pg_begin E w of
        (Inl e, w1) \<Rightarrow> ((Some e, room), w1)
      | (Inr d0, w1) \<Rightarrow>
         (case id_or_new E (rm_ID room) w1 of (i, w2) \<Rightarrow>
          case time_or_now E (rm_CreatedAt room) w2 of (t, w3) \<Rightarrow>
          (let room' = room\<lparr>rm_ID := i, rm_CreatedAt := t\<rparr> in
           case tx_call E (sql_insert_room E room') d0 w3 of
             ((Inl e, _), w4) \<Rightarrow> ((Some e, room'), rollback E w4)
           | ((Inr _, d1), w4) \<Rightarrow>
              (case tx_insert_members E i members d1 w4 of
                 ((Some e, _), w5) \<Rightarrow> ((Some e, room'), rollback E w5)
               | ((None, d2), w5) \<Rightarrow>
                  (case pg_commit E d2 w5 of (r, w6) \<Rightarrow> ((r, room'), w6))))))"

definition RoomRepository_AddMember :: "env \<Rightarrow> room_member \<Rightarrow> (world, err option) io" where
  "RoomRepository_AddMember E member w =
     (case id_or_new E (mem_ID member) w of (i, w1) \<Rightarrow>
      case pg_call E (sql_upsert_member E (member\<lparr>mem_ID := i\<rparr>)) w1 of (r, w2) \<Rightarrow> (err_of r, w2))"

definition RoomRepository_RemoveMember :: "env \<Rightarrow> string \<Rightarrow> string \<Rightarrow> (world, err option) io" where
  "RoomRepository_RemoveMember E roomID userID w =
     (case pg_call E (sql_delete_member E roomID userID) w of (r, w1) \<Rightarrow> (err_of r, w1))"

definition RoomRepository_GetByID :: "env \<Rightarrow> string \<Rightarrow> (world, err + room) io" where
  "RoomRepository_GetByID E roomID w = pg_call E (sql_room_by_id E roomID) w"

definition RoomRepository_Delete :: "env \<Rightarrow> string \<Rightarrow> (world, err option) io" where
  "RoomRepository_Delete E roomID w =
     (case pg_call E (sql_delete_room E roomID) w of
        (Inl e, w1) \<Rightarrow> (Some e, w1)
      | (Inr n, w1) \<Rightarrow> if n = 0 then (Some ErrNoRows, w1) else (None, w1))"

definition RoomRepository_ListMembers ::
  "env \<Rightarrow> string \<Rightarrow> (world, err + room_member list) io" where
  "RoomRepository_ListMembers E roomID w = pg_call E (sql_members_of E (w_tick w) roomID) w"

definition RoomRepository_Search ::
  "env \<Rightarrow> string \<Rightarrow> string \<Rightarrow> int \<Rightarrow> (world, err + room list) io" where
  "RoomRepository_Search E userID query limit w =
     pg_call E (sql_search_rooms E (w_tick w) userID query limit) w"

definition RoomRepository_FindDirectRoom ::
  "env \<Rightarrow> string \<Rightarrow> string \<Rightarrow> (world, err + room) io" where
  "RoomRepository_FindDirectRoom E userA userB w =
     pg_call E (sql_find_direct_room E (w_tick w) [userA, userB]) w"

section \<open>The transaction is all or nothing\<close>

lemma tx_call_ok: "tx_call E f d w = ((Inr v, d'), w') \<Longrightarrow> f d = (Inr v, d') \<and> w_db w' = w_db w"
  by (auto simp: tx_call_def Let_def split: fate.splits)

lemma tx_call_db: "tx_call E f d w = (r, w') \<Longrightarrow> w_db w' = w_db w \<and> pg_frame w w'"
  by (auto simp: tx_call_def Let_def pg_frame_def split: fate.splits)

lemma tx_insert_members_world:
  "tx_insert_members E roomID ms d w = (r, w') \<Longrightarrow> w_db w' = w_db w \<and> pg_frame w w'"
proof (induction ms arbitrary: d w)
  case (Cons m ms)
  obtain i w1 where 1: "id_or_new E (mem_ID m) w = (i, w1)" by fastforce
  obtain q d1 w2 where
    2: "tx_call E (sql_insert_member E (m\<lparr>mem_ID := i, mem_RoomID := roomID\<rparr>)) d w1 = ((q, d1), w2)"
    by (metis prod.collapse)
  show ?case
    using Cons.prems Cons.IH[of d1 w2] 1 2 id_or_new_frame[OF 1] tx_call_db[OF 2]
    by (auto split: sum.splits intro: pg_frame_trans)
qed auto

lemma sql_insert_member_ok:
  "sql_insert_member E m d = (Inr (), d') \<Longrightarrow>
   \<exists>i r u. canon_uuid E (mem_RoomID m) = Some r \<and> canon_uuid E (mem_UserID m) = Some u \<and>
     d' = d\<lparr>db_members := db_members d @
       [\<lparr>mem_ID = i, mem_RoomID = r, mem_UserID = u, mem_Role = mem_Role m\<rparr>]\<rparr>"
  by (auto simp: sql_insert_member_def put_member_def with_uuid_def
      split: option.splits if_splits)

text \<open>The members a successful run of the loop has added, in order.\<close>

lemma tx_insert_members_rows:
  "tx_insert_members E roomID ms d w = ((None, d'), w') \<Longrightarrow>
   \<exists>rows. d' = d\<lparr>db_members := db_members d @ rows\<rparr> \<and>
     map mem_UserID rows = map (\<lambda>m. the (canon_uuid E (mem_UserID m))) ms \<and>
     map mem_Role rows = map mem_Role ms \<and>
     list_all (\<lambda>m. canon_uuid E (mem_UserID m) \<noteq> None) ms \<and>
     list_all (\<lambda>m. Some (mem_RoomID m) = canon_uuid E roomID) rows"
proof (induction ms arbitrary: d w)
  case Nil
  then show ?case by simp
next
  case (Cons m ms)
  obtain i w1 where 1: "id_or_new E (mem_ID m) w = (i, w1)" by fastforce
  let ?m = "m\<lparr>mem_ID := i, mem_RoomID := roomID\<rparr>"
  from Cons.prems 1 obtain d1 w2 where
    2: "tx_call E (sql_insert_member E ?m) d w1 = ((Inr (), d1), w2)" and
    3: "tx_insert_members E roomID ms d1 w2 = ((None, d'), w')"
    by (auto split: prod.splits sum.splits)
  from sql_insert_member_ok[of E ?m d d1] tx_call_ok[OF 2] obtain j r u where
    row: "canon_uuid E roomID = Some r" "canon_uuid E (mem_UserID m) = Some u"
      "d1 = d\<lparr>db_members := db_members d @
         [\<lparr>mem_ID = j, mem_RoomID = r, mem_UserID = u, mem_Role = mem_Role m\<rparr>]\<rparr>" by auto
  from Cons.IH[OF 3] obtain rows where
    "d' = d1\<lparr>db_members := db_members d1 @ rows\<rparr>"
    "map mem_UserID rows = map (\<lambda>m. the (canon_uuid E (mem_UserID m))) ms"
    "map mem_Role rows = map mem_Role ms" "list_all (\<lambda>m. canon_uuid E (mem_UserID m) \<noteq> None) ms"
    "list_all (\<lambda>m. Some (mem_RoomID m) = canon_uuid E roomID) rows" by blast
  with row show ?case
    by (intro exI[of _ "\<lparr>mem_ID = j, mem_RoomID = r, mem_UserID = u, mem_Role = mem_Role m\<rparr> # rows"]) simp
qed

end
