(* ===== verification/Room_Properties.thy ===== *)
theory Room_Properties
  imports Room_Service Room_Repo Db_Steps Sample_Eval
begin

text \<open>
  The room service as both servers wire it (\<open>cmd/server/main.go\<close>): over the Postgres room
  repository and the Redis publisher.
\<close>

section \<open>Wiring\<close>

definition NewRoomRepository :: "env \<Rightarrow> world room_repository" where
  "NewRoomRepository E =
     \<lparr>rr_Create = RoomRepository_Create E, rr_AddMember = RoomRepository_AddMember E,
      rr_RemoveMember = RoomRepository_RemoveMember E,
      rr_ListMembers = RoomRepository_ListMembers E, rr_Search = RoomRepository_Search E,
      rr_FindDirectRoom = RoomRepository_FindDirectRoom E,
      rr_GetByID = RoomRepository_GetByID E, rr_Delete = RoomRepository_Delete E\<rparr>"

definition api_rooms :: "env \<Rightarrow> world room_service" where
  "api_rooms E = NewRoomService (go_runtime E) (NewRoomRepository E) (Some (PubSub_Publish (redis_srv E)))"

lemma api_rooms_simps [simp]:
  "rr_Create (rs_repo (api_rooms E)) = RoomRepository_Create E"
  "rr_AddMember (rs_repo (api_rooms E)) = RoomRepository_AddMember E"
  "rr_RemoveMember (rs_repo (api_rooms E)) = RoomRepository_RemoveMember E"
  "rr_ListMembers (rs_repo (api_rooms E)) = RoomRepository_ListMembers E"
  "rr_Search (rs_repo (api_rooms E)) = RoomRepository_Search E"
  "rr_FindDirectRoom (rs_repo (api_rooms E)) = RoomRepository_FindDirectRoom E"
  "rr_GetByID (rs_repo (api_rooms E)) = RoomRepository_GetByID E"
  "rr_Delete (rs_repo (api_rooms E)) = RoomRepository_Delete E"
  "rs_pub (api_rooms E) = Some (PubSub_Publish (redis_srv E))"
  "rs_rt (api_rooms E) = go_runtime E"
  by (simp_all add: api_rooms_def NewRoomService_def NewRoomRepository_def)

section \<open>The creation of a room in the tables\<close>

lemma sql_insert_room_ok:
  "sql_insert_room E r d = (Inr (), d') \<Longrightarrow>
   \<exists>i c. canon_uuid E (rm_ID r) = Some i \<and> canon_uuid E (rm_CreatedBy r) = Some c \<and>
     i \<notin> set (map rm_ID (db_rooms d)) \<and>
     d' = d\<lparr>db_rooms := db_rooms d @
       [r\<lparr>rm_ID := i, rm_CreatedBy := c, rm_CreatedAt := usec (rm_CreatedAt r)\<rparr>]\<rparr>"
  by (auto simp: sql_insert_room_def with_uuid_def split: option.splits if_splits)

text \<open>Two ways a creation can end: nothing has changed, or the room and all its members are there.\<close>

definition room_rows :: "env \<Rightarrow> room \<Rightarrow> room_member list \<Rightarrow> room \<Rightarrow> room_member list \<Rightarrow> bool" where
  "room_rows E room members row rows \<longleftrightarrow>
     canon_uuid E (rm_ID room) = Some (rm_ID row) \<and> rm_Name row = rm_Name room \<and>
     rm_IsGroup row = rm_IsGroup room \<and>
     canon_uuid E (rm_CreatedBy room) = Some (rm_CreatedBy row) \<and>
     map (\<lambda>m. Some (mem_UserID m)) rows = map (\<lambda>m. canon_uuid E (mem_UserID m)) members \<and>
     map mem_Role rows = map mem_Role members \<and>
     (\<forall>m \<in> set rows. mem_RoomID m = rm_ID row)"

text \<open>The statements of the transaction, when all of them succeed.\<close>

lemma create_statements:
  assumes "tx_call E (sql_insert_room E room) d w = ((Inr u, d1), w1)"
    and "tx_insert_members E (rm_ID room) members d1 w1 = ((None, d2), w2)"
  shows "\<exists>row rows. d2 = d\<lparr>db_rooms := db_rooms d @ [row], db_members := db_members d @ rows\<rparr> \<and>
    room_rows E room members row rows \<and> rm_ID row \<notin> set (map rm_ID (db_rooms d))"
proof -
  have "sql_insert_room E room d = (Inr (), d1)" using tx_call_ok[OF assms(1)] by simp
  from sql_insert_room_ok[OF this] obtain j c where j: "canon_uuid E (rm_ID room) = Some j"
    "canon_uuid E (rm_CreatedBy room) = Some c" "j \<notin> set (map rm_ID (db_rooms d))"
    "d1 = d\<lparr>db_rooms := db_rooms d @
       [room\<lparr>rm_ID := j, rm_CreatedBy := c, rm_CreatedAt := usec (rm_CreatedAt room)\<rparr>]\<rparr>"
    by auto
  from tx_insert_members_rows[OF assms(2)] obtain rows where
    d2: "d2 = d1\<lparr>db_members := db_members d1 @ rows\<rparr>" and
    rows: "map mem_UserID rows = map (\<lambda>m. the (canon_uuid E (mem_UserID m))) members"
    "map mem_Role rows = map mem_Role members"
    "list_all (\<lambda>m. canon_uuid E (mem_UserID m) \<noteq> None) members"
    "list_all (\<lambda>m. Some (mem_RoomID m) = canon_uuid E (rm_ID room)) rows" by blast
  have "map (\<lambda>m. Some (mem_UserID m)) rows = map Some (map mem_UserID rows)" by simp
  also have "\<dots> = map (\<lambda>m. canon_uuid E (mem_UserID m)) members"
    using rows(1,3) by (auto simp: list_all_iff)
  finally have "room_rows E room members
      (room\<lparr>rm_ID := j, rm_CreatedBy := c, rm_CreatedAt := usec (rm_CreatedAt room)\<rparr>) rows"
    using rows j by (simp add: room_rows_def list_all_iff)
  with d2 j show ?thesis
    by (intro exI[of _ "room\<lparr>rm_ID := j, rm_CreatedBy := c, rm_CreatedAt := usec (rm_CreatedAt room)\<rparr>"]
        exI[of _ rows]) simp
qed

lemma RoomRepository_Create_effect:
  assumes "RoomRepository_Create E room members w = ((r, room'), w')"
  shows "(r \<noteq> None \<and> w_db w' = w_db w) \<or>
    (\<exists>row rows. w_db w' = (w_db w)\<lparr>db_rooms := db_rooms (w_db w) @ [row],
                                   db_members := db_members (w_db w) @ rows\<rparr> \<and>
       room_rows E room' members row rows \<and> rm_ID row \<notin> set (map rm_ID (db_rooms (w_db w))) \<and>
       rm_Name room' = rm_Name room \<and> rm_IsGroup room' = rm_IsGroup room \<and>
       rm_CreatedBy room' = rm_CreatedBy room)"
proof -
  obtain b w1 where 1: "pg_begin E w = (b, w1)" by fastforce
  obtain i w2 where 2: "id_or_new E (rm_ID room) w1 = (i, w2)" by fastforce
  obtain t w3 where 3: "time_or_now E (rm_CreatedAt room) w2 = (t, w3)" by fastforce
  let ?room = "room\<lparr>rm_ID := i, rm_CreatedAt := t\<rparr>"
  obtain q d1 w4 where 4: "tx_call E (sql_insert_room E ?room) (w_db w) w3 = ((q, d1), w4)"
    by (metis prod.collapse)
  obtain p d2 w5 where 5: "tx_insert_members E i members d1 w4 = ((p, d2), w5)"
    by (metis prod.collapse)
  have b: "(\<exists>e. b = Inl e) \<or> b = Inr (w_db w)" and w1: "w_db w1 = w_db w"
    using 1 by (auto simp: pg_begin_def split: fate.splits)
  have db: "w_db w4 = w_db w" "w_db w5 = w_db w"
    using tx_call_db[OF 4] id_or_new_frame[OF 2] time_or_now_frame[OF 3] w1
      tx_insert_members_world[OF 5] by simp_all
  show ?thesis
  proof (cases "b = Inr (w_db w) \<and> (\<exists>u. q = Inr u) \<and> p = None")
    case False
    with assms b w1 db 1 2 3 4 5 show ?thesis
      by (cases q) (auto simp: RoomRepository_Create_def Let_def rollback_def)
  next
    case True
    then obtain u where [simp]: "b = Inr (w_db w)" "q = Inr u" "p = None" by blast
    have c: "pg_commit E d2 w5 = (r, w')" and room': "room' = ?room"
      using assms 1 2 3 4 5 by (auto simp: RoomRepository_Create_def Let_def split: prod.splits)
    then have "w_db w' = w_db w \<and> r \<noteq> None \<or> w_db w' = d2"
      using db by (auto simp: pg_commit_def split: fate.splits)
    with create_statements[of E ?room "w_db w" w3 u d1 w4 members d2 w5] 4 5 room'
    show ?thesis by auto
  qed
qed

section \<open>The service keeps the constraints and the users\<close>

lemma tx_call_wf:
  "tx_call E f d w = ((r, d'), w') \<Longrightarrow> keeps_wf f \<Longrightarrow> wf_db d \<Longrightarrow> wf_db d'"
  by (auto simp: tx_call_def Let_def keeps_wf_def split: fate.splits)

lemma tx_insert_members_wf:
  "tx_insert_members E i ms d w = ((r, d'), w') \<Longrightarrow> wf_db d \<Longrightarrow> wf_db d'"
proof (induction ms arbitrary: d w)
  case (Cons m ms)
  obtain j w1 where 1: "id_or_new E (mem_ID m) w = (j, w1)" by fastforce
  obtain q d1 w2 where
    2: "tx_call E (sql_insert_member E (m\<lparr>mem_ID := j, mem_RoomID := i\<rparr>)) d w1 = ((q, d1), w2)"
    by (metis prod.collapse)
  from tx_call_wf[OF 2 wf_insert_member Cons.prems(2)] have "wf_db d1" .
  with Cons 1 2 show ?case by (auto split: sum.splits)
qed auto

lemma pg_begin_frame: "pg_begin E w = (r, w') \<Longrightarrow> pg_frame w w' \<and> w_db w' = w_db w"
  by (auto simp: pg_begin_def split: fate.splits)

lemma pg_begin_step: "pg_begin E w = (r, w') \<Longrightarrow> db_step p w w' \<and> (\<forall>d. r = Inr d \<longrightarrow> d = w_db w)"
  by (auto simp: pg_begin_def db_step_def announces_quiet split: fate.splits)

lemma RoomRepository_Create_step: "within (db_step db_users) (RoomRepository_Create E room members)"
proof (rule withinI)
  fix w r w' assume c: "RoomRepository_Create E room members w = (r, w')"
  obtain q room' where r: "r = (q, room')" by fastforce
  obtain b w1 where 1: "pg_begin E w = (b, w1)" by fastforce
  obtain i w2 where 2: "id_or_new E (rm_ID room) w1 = (i, w2)" by fastforce
  obtain t w3 where 3: "time_or_now E (rm_CreatedAt room) w2 = (t, w3)" by fastforce
  let ?ins = "sql_insert_room E (room\<lparr>rm_ID := i, rm_CreatedAt := t\<rparr>)"
  obtain x d1 w4 where 4: "tx_call E ?ins (w_db w) w3 = ((x, d1), w4)" by (metis prod.collapse)
  obtain y d2 w5 where 5: "tx_insert_members E i members d1 w4 = ((y, d2), w5)" by (metis prod.collapse)
  have fr: "pg_frame w w1" "pg_frame w1 w2" "pg_frame w2 w3" "pg_frame w3 w4" "pg_frame w4 w5"
    using pg_begin_frame[OF 1] id_or_new_frame[OF 2] time_or_now_frame[OF 3] tx_call_db[OF 4]
      tx_insert_members_world[OF 5] by simp_all
  note f4 = pg_frame_trans[OF pg_frame_trans[OF pg_frame_trans[OF fr(1,2)] fr(3)] fr(4)]
  note f5 = f4 pg_frame_trans[OF f4 fr(5)]
  have wf2: "wf_db (w_db w) \<Longrightarrow> wf_db d2"
    using tx_insert_members_wf[OF 5] tx_call_wf[OF 4 wf_insert_room] by blast
  have "b = Inr d \<Longrightarrow> d = w_db w" for d using pg_begin_step[OF 1] by blast
  with c 1 2 3 4 5 fr(1) f5 have "pg_frame w w' \<and> w_db w' \<in> {w_db w1, w_db w4, w_db w5, d2}"
    by (auto simp: RoomRepository_Create_def Let_def rollback_def pg_commit_def pg_frame_def pass_def
        split: sum.splits option.splits prod.splits fate.splits)
  moreover have "w_db w1 = w_db w" using pg_begin_frame[OF 1] by simp
  moreover from this have "w_db w4 = w_db w" "w_db w5 = w_db w"
    using tx_call_db[OF 4] id_or_new_frame[OF 2] time_or_now_frame[OF 3]
      tx_insert_members_world[OF 5] by simp_all
  ultimately show "db_step db_users w w'"
    using wf2 RoomRepository_Create_effect[OF c[unfolded r]]
    by (auto simp: db_step_def pg_frame_def announces_quiet)
qed

lemma RoomRepository_steps:
  "within (db_step db_users) (RoomRepository_AddMember E m)"
  "within (db_step db_users) (RoomRepository_RemoveMember E i u)"
  "within (db_step db_users) (RoomRepository_Delete E i)"
  "within (db_step p) (RoomRepository_GetByID E i)"
  "within (db_step p) (RoomRepository_ListMembers E i)"
  "within (db_step p) (RoomRepository_Search E u q l)"
  "within (db_step p) (RoomRepository_FindDirectRoom E a b)"
proof -
  note calls = withinD[OF within_pg_call[OF wf_upsert_member spares_room_writes(1)]]
    withinD[OF within_pg_call[OF wf_delete_member spares_room_writes(2)]]
    withinD[OF within_pg_call[OF wf_delete_room spares_room_writes(3)]]
  show "within (db_step db_users) (RoomRepository_AddMember E m)"
    by (rule withinI) (auto simp: RoomRepository_AddMember_def split: prod.splits
        dest!: calls(1) id_or_new_step intro: db.R_trans)
  show "within (db_step db_users) (RoomRepository_RemoveMember E i u)"
    by (rule withinI) (auto simp: RoomRepository_RemoveMember_def split: prod.splits dest!: calls(2))
  show "within (db_step db_users) (RoomRepository_Delete E i)"
    by (rule withinI) (auto simp: RoomRepository_Delete_def split: prod.splits sum.splits if_splits
        dest!: calls(3))
qed (simp_all add: within_def RoomRepository_GetByID_def RoomRepository_ListMembers_def
    RoomRepository_Search_def RoomRepository_FindDirectRoom_def
    within_pg_read[unfolded within_def, rule_format])

lemma publishRoomAdded_step:
  "within (db_step p) (publishRoomAdded s (PubSub_Publish (redis_srv E)) room u)"
proof -
  have "service_channel (userChannel u)" by (auto simp: service_channel_def userChannel_def)
  from publish_step[OF this] show ?thesis by (simp add: within_def publishRoomAdded_def)
qed

interpretation rooms: room_environment "db_step db_users" "api_rooms E" for E
  by unfold_locales
    (auto simp: RoomRepository_Create_step RoomRepository_steps publishRoomAdded_step)

section \<open>Creating a room\<close>

lemma announce_db: "w_db (snd (announce_members (api_rooms E) (PubSub_Publish (redis_srv E)) room ms w)) = w_db w"
proof (induction ms arbitrary: w)
  case (Cons m ms)
  then show ?case
    by (simp add: publishRoomAdded_def PubSub_Publish_def redis_srv_def srv_publish_def Let_def)
qed simp

lemma room_Create_split:
  assumes "room_Create (api_rooms E) input w = (res, w')"
  obtains (failed) e where "res = Inl e" "w_db w' = w_db w"
  | (unsure) e room' row rows where "res = Inl e"
      "w_db w' = (w_db w)\<lparr>db_rooms := db_rooms (w_db w) @ [row], db_members := db_members (w_db w) @ rows\<rparr>"
      "room_rows E room' (buildMembers (map_rank E (w_tick w)) input) row rows"
      "rm_ID row \<notin> rm_ID ` set (db_rooms (w_db w))"
      "rm_Name room' = TrimSpace (cri_Name input)" "rm_IsGroup room' = cri_IsGroup input"
      "rm_CreatedBy room' = cri_CreatorID input"
  | (created) room' row rows where "res = Inr room'"
      "w_db w' = (w_db w)\<lparr>db_rooms := db_rooms (w_db w) @ [row], db_members := db_members (w_db w) @ rows\<rparr>"
      "room_rows E room' (buildMembers (map_rank E (w_tick w)) input) row rows"
      "rm_ID row \<notin> rm_ID ` set (db_rooms (w_db w))"
      "rm_Name room' = TrimSpace (cri_Name input)" "rm_IsGroup room' = cri_IsGroup input"
      "rm_CreatedBy room' = cri_CreatorID input"
proof -
  let ?ms = "buildMembers (map_rank E (w_tick w)) input"
  let ?room = "\<lparr>rm_ID = [], rm_Name = TrimSpace (cri_Name input), rm_IsGroup = cri_IsGroup input,
                rm_CreatedBy = cri_CreatorID input, rm_CreatedAt = 0\<rparr>"
  obtain r room' w1 where c: "RoomRepository_Create E ?room ?ms w = ((r, room'), w1)"
    by (metis prod.collapse)
  have rk: "rt_map_rank (go_runtime E) w = map_rank E (w_tick w)" by (simp add: go_runtime_def)
  show thesis
  proof (cases "TrimSpace (cri_Name input) = [] \<or> blank (cri_CreatorID input)")
    case True
    with assms show thesis by (auto simp: room_Create_def Let_def intro: failed split: if_splits)
  next
    case False
    with assms c rk have "(\<exists>e. r = Some e \<and> res = Inl e \<and> w' = w1) \<or> (r = None \<and> res = Inr room' \<and> w_db w' = w_db w1)"
      using announce_db[of E room' ?ms w1]
      by (cases r) (auto simp: room_Create_def Let_def split: prod.splits)
    with RoomRepository_Create_effect[OF c] show thesis
      by (elim disjE exE conjE) (simp_all add: failed unsure created)
  qed
qed

text \<open>The member rows of a new room: the ids of the request and the creator, who is an admin.\<close>

lemma room_rows_members:
  assumes "room_rows E room (buildMembers rank input) row rows"
    and "rm_CreatedBy room = cri_CreatorID input"
  shows "Some ` mem_UserID ` set rows = canon_uuid E ` insert (cri_CreatorID input)
      {u. u \<noteq> [] \<and> (\<exists>m \<in> set (cri_Members input). u = TrimSpace (rmi_UserID m))}"
    and "\<exists>m \<in> set rows. mem_UserID m = rm_CreatedBy row \<and> mem_Role m = RoomRoleAdmin"
proof -
  let ?ms = "buildMembers rank input"
  have "Some ` mem_UserID ` set rows = set (map (\<lambda>m. Some (mem_UserID m)) rows)"
    by (simp add: image_image)
  also have "\<dots> = canon_uuid E ` mem_UserID ` set ?ms"
    using assms by (simp add: room_rows_def image_image)
  finally show "Some ` mem_UserID ` set rows = canon_uuid E ` insert (cri_CreatorID input)
      {u. u \<noteq> [] \<and> (\<exists>m \<in> set (cri_Members input). u = TrimSpace (rmi_UserID m))}"
    by (simp only: buildMembers_users)
  have len: "length rows = length ?ms" using assms by (metis length_map room_rows_def)
  have at: "Some (mem_UserID (rows ! k)) = canon_uuid E (mem_UserID (?ms ! k)) \<and>
      mem_Role (rows ! k) = mem_Role (?ms ! k)" if "k < length rows" for k
    using that assms len unfolding room_rows_def by (metis nth_map)
  obtain k where "k < length ?ms" "?ms ! k = new_member (cri_CreatorID input) RoomRoleAdmin"
    using buildMembers_creator by (metis in_set_conv_nth)
  with at[of k] len assms show "\<exists>m \<in> set rows. mem_UserID m = rm_CreatedBy row \<and> mem_Role m = RoomRoleAdmin"
    by (intro bexI[of _ "rows ! k"]) (auto simp: room_rows_def new_member_def)
qed

lemma room_rows_distinct:
  assumes "room_rows E room ms row rows"
    and "wf_db (d\<lparr>db_rooms := rs, db_members := db_members d @ rows\<rparr>)"
  shows "distinct (map mem_UserID rows)"
  using assms by (auto simp: wf_db_def room_rows_def distinct_map inj_on_def)

text \<open>
  C8: Creating a room is all or nothing: afterwards either the tables are unchanged and an error
  was returned, or there is one more room, with the trimmed name and the given creator, and its
  members are exactly the creator and the non-blank ids of the request, each of them once, with
  the creator as an admin.
\<close>

theorem create_room_all_or_nothing:
  assumes "wf_db (w_db w)" and "room_Create (api_rooms E) input w = (res, w')"
  shows "(w_db w' = w_db w \<and> (\<exists>e. res = Inl e)) \<or>
    (\<exists>row rows. w_db w' = (w_db w)\<lparr>db_rooms := db_rooms (w_db w) @ [row],
                                    db_members := db_members (w_db w) @ rows\<rparr> \<and>
       rm_Name row = TrimSpace (cri_Name input) \<and> rm_IsGroup row = cri_IsGroup input \<and>
       canon_uuid E (cri_CreatorID input) = Some (rm_CreatedBy row) \<and>
       (\<forall>m \<in> set rows. mem_RoomID m = rm_ID row) \<and>
       distinct (map mem_UserID rows) \<and>
       Some ` mem_UserID ` set rows = canon_uuid E ` insert (cri_CreatorID input)
         {u. u \<noteq> [] \<and> (\<exists>m \<in> set (cri_Members input). u = TrimSpace (rmi_UserID m))} \<and>
       (\<exists>m \<in> set rows. mem_UserID m = rm_CreatedBy row \<and> mem_Role m = RoomRoleAdmin))"
proof -
  have wf: "wf_db (w_db w')"
    using withinD[OF rooms.Create_within assms(2)] assms(1) by (simp add: db_step_def)
  show ?thesis using assms(2)
  proof (cases rule: room_Create_split)
    case (unsure e room' row rows)
    with wf room_rows_members[OF unsure(3)] room_rows_distinct[OF unsure(3)] show ?thesis
      by (intro disjI2 exI[of _ row] exI[of _ rows]) (simp add: room_rows_def)
  next
    case (created room' row rows)
    with wf room_rows_members[OF created(3)] room_rows_distinct[OF created(3)] show ?thesis
      by (intro disjI2 exI[of _ row] exI[of _ rows]) (simp add: room_rows_def)
  qed simp
qed

lemmas room_eval = api_rooms_def NewRoomService_def NewRoomRepository_def room_Create_def
  RoomRepository_Create_def pg_begin_def pg_commit_def rollback_def tx_call_def id_or_new_def
  time_or_now_def IsZero_def sql_insert_room_def sql_insert_member_def put_member_def
  same_member_def usec_def publishRoomAdded_def PubSub_Publish_def buildMembers_def new_member_def

lemma sample_wf: "wf_db (w_db sample_world)"
  by (simp add: sample_world_def sample_user_def wf_db_def)

lemma sample_trims [simp]:
  "TrimSpace ''u-ann'' = ''u-ann''" "TrimSpace ''u-bob'' = ''u-bob''" "TrimSpace ''team'' = ''team''"
  "TrimSpace ''u-BOB'' = ''u-BOB''" "TrimSpace ''r1'' = ''r1''" "TrimSpace ''m1'' = ''m1''"
  by (simp_all add: TrimSpace_graphic graphic_def)

definition team_input :: create_room_input where
  "team_input = \<lparr>cri_Name = ''team'', cri_IsGroup = True, cri_CreatorID = ''u-ann'',
     cri_Members = [\<lparr>rmi_UserID = ''u-bob'', rmi_Role = []\<rparr>]\<rparr>"

lemma sample_create: "\<exists>r w'. room_Create (api_rooms sample_env) team_input sample_world = (Inr r, w')"
  by (simp add: team_input_def room_eval world_eval Let_def RoomRoleAdmin_def RoomRoleMember_def)

theorem create_room_all_or_nothing_witness:
  "\<exists>w' row. (\<exists>r. room_Create (api_rooms sample_env) team_input sample_world = (Inr r, w')) \<and>
     db_rooms (w_db w') = [row] \<and> rm_Name row = ''team'' \<and> rm_CreatedBy row = ''u-ann'' \<and>
     mem_UserID ` set (db_members (w_db w')) = {''u-ann'', ''u-bob''}"
proof -
  obtain r w' where c: "room_Create (api_rooms sample_env) team_input sample_world = (Inr r, w')"
    using sample_create by blast
  from create_room_all_or_nothing[OF sample_wf c] obtain row rows where
    row: "w_db w' = (w_db sample_world)\<lparr>db_rooms := [row], db_members := rows\<rparr>"
      "rm_Name row = TrimSpace (cri_Name team_input)"
      "canon_uuid sample_env (cri_CreatorID team_input) = Some (rm_CreatedBy row)"
      "Some ` mem_UserID ` set rows = canon_uuid sample_env ` insert (cri_CreatorID team_input)
         {u. u \<noteq> [] \<and> (\<exists>m \<in> set (cri_Members team_input). u = TrimSpace (rmi_UserID m))}"
    by (auto simp: sample_world_def)
  have "{u. u \<noteq> [] \<and> (\<exists>m \<in> set (cri_Members team_input). u = TrimSpace (rmi_UserID m))} = {''u-bob''}"
    by (auto simp: team_input_def)
  with row(4) have "Some ` mem_UserID ` set rows = Some ` {''u-ann'', ''u-bob''}"
    by (simp add: team_input_def canon_sample)
  then have "mem_UserID ` set rows = {''u-ann'', ''u-bob''}" by (simp only: inj_image_eq_iff[OF inj_Some])
  moreover from row have "rm_CreatedBy row = ''u-ann''" "rm_Name row = ''team''"
    by (simp_all add: team_input_def canon_sample)
  moreover from row have "db_rooms (w_db w') = [row]" by simp
  moreover from row have "db_members (w_db w') = rows" by simp
  ultimately show ?thesis using c
    by (intro exI[of _ w'] exI[of _ row] conjI exI[of _ r]) simp_all
qed

section \<open>Direct rooms\<close>

definition direct_rooms :: "string \<Rightarrow> string \<Rightarrow> database \<Rightarrow> room list" where
  "direct_rooms a b d = filter (is_direct_room [a, b] d) (db_rooms d)"

lemma is_direct_room_cong: "set ids = set ids' \<Longrightarrow> is_direct_room ids = is_direct_room ids'"
  by (simp add: is_direct_room_def fun_eq_iff)

lemma direct_rooms_commute: "direct_rooms a b = direct_rooms b a"
proof -
  have "is_direct_room [a, b] = is_direct_room [b, a]"
    by (rule is_direct_room_cong) (simp add: insert_commute)
  then show ?thesis by (intro ext) (simp only: direct_rooms_def)
qed

lemma direct_rooms_pair: "normalizePair a b = (p, q) \<Longrightarrow> direct_rooms p q = direct_rooms a b"
  using direct_rooms_commute by (auto simp: normalizePair_def split: if_splits)

lemma FindDirectRoom_found:
  "RoomRepository_FindDirectRoom E a b w = (Inr r, w') \<Longrightarrow>
   r \<in> set (direct_rooms a b (w_db w)) \<and> w_db w' = w_db w"
  unfolding RoomRepository_FindDirectRoom_def
  by (frule pg_call_ok, drule pg_call_reads)
    (auto simp: sql_find_direct_room_def direct_rooms_def dest!: head_row_Inr)

lemma FindDirectRoom_none:
  "RoomRepository_FindDirectRoom E a b w = (Inl ErrNoRows, w') \<Longrightarrow>
   direct_rooms a b (w_db w) = [] \<and> w_db w' = w_db w"
proof -
  assume "RoomRepository_FindDirectRoom E a b w = (Inl ErrNoRows, w')"
  then have c: "pg_call E (sql_find_direct_room E (w_tick w) [a, b]) w = (Inl ErrNoRows, w')"
    by (simp add: RoomRepository_FindDirectRoom_def)
  from pg_call_NoRows[OF c] have "arrange E (w_tick w) rm_ID (direct_rooms a b (w_db w)) = []"
    by (auto simp: sql_find_direct_room_def direct_rooms_def dest: head_row_Inl)
  then have "direct_rooms a b (w_db w) = []" by (metis arrange_set set_empty)
  with pg_call_reads[OF c] show ?thesis by simp
qed

lemma FindDirectRoom_Done:
  assumes "direct_rooms a b (w_db w) = [r]" and "pg_fate E (w_tick w) = Done"
  shows "\<exists>w'. RoomRepository_FindDirectRoom E a b w = (Inr r, w') \<and> w_db w' = w_db w"
proof -
  have "sql_find_direct_room E (w_tick w) [a, b] (w_db w) = (Inr r, w_db w)"
    using assms(1) by (simp add: sql_find_direct_room_def direct_rooms_def arrange_def head_row_def)
  with assms(2) show ?thesis
    by (simp add: RoomRepository_FindDirectRoom_def pg_call_def Let_def)
qed

text \<open>The rows of the new direct room make it the direct room of the pair.\<close>

lemma direct_input_members:
  assumes "TrimSpace b = b" and "b \<noteq> []" and "a \<noteq> b"
  shows "mset (buildMembers rank (direct_room_input a b)) =
    {# new_member a RoomRoleAdmin, new_member b RoomRoleMember #}"
  using assms
  by (simp add: buildMembers_def direct_room_input_def Let_def RoomRoleMember_def split: prod.split)

lemma wf_member_room: "wf_db d \<Longrightarrow> m \<in> set (db_members d) \<Longrightarrow> mem_RoomID m \<in> rm_ID ` set (db_rooms d)"
  by (simp add: wf_db_def list_all_iff)

lemma wf_member_user: "wf_db d \<Longrightarrow> m \<in> set (db_members d) \<Longrightarrow> mem_UserID m \<in> usr_ID ` set (db_users d)"
  by (simp add: wf_db_def list_all_iff)

lemma new_direct_room:
  assumes wf: "wf_db d" and fresh: "rm_ID row \<notin> rm_ID ` set (db_rooms d)"
    and rows: "\<forall>m \<in> set rows. mem_RoomID m = rm_ID row" "mset (map mem_UserID rows) = {# a, b #}"
    and "a \<noteq> b" "\<not> rm_IsGroup row"
  shows "direct_rooms a b (d\<lparr>db_rooms := db_rooms d @ [row], db_members := db_members d @ rows\<rparr>)
    = direct_rooms a b d @ [row]"
proof -
  let ?d = "d\<lparr>db_rooms := db_rooms d @ [row], db_members := db_members d @ rows\<rparr>"
  have none: "filter (\<lambda>m. mem_RoomID m = rm_ID row \<and> P m) (db_members d) = []" for P
    unfolding filter_empty_conv using wf_member_room[OF wf] fresh by metis
  have users: "mem_UserID ` set rows = {a, b}" using arg_cong[OF rows(2), of set_mset] by simp
  have all: "filter (\<lambda>m. mem_RoomID m = rm_ID row) rows = rows"
    "filter (\<lambda>m. mem_RoomID m = rm_ID row \<and> mem_UserID m \<in> {a, b}) rows = rows"
    using rows(1) users by (auto simp: filter_id_conv)
  have len: "length rows = 2" using arg_cong[OF rows(2), of size] by simp
  have two: "length (remdups (map mem_UserID rows)) = 2"
  proof -
    have "card (set (map mem_UserID rows)) = 2" using users assms(5) by simp
    then show ?thesis by (simp add: length_remdups_card_conv)
  qed
  have new: "is_direct_room [a, b] ?d row"
    using none[of "\<lambda>_. True"] none[of "\<lambda>m. mem_UserID m \<in> {a, b}"] all len two assms(6)
    by (simp add: is_direct_room_def)
  have old: "is_direct_room [a, b] ?d r = is_direct_room [a, b] d r" if "r \<in> set (db_rooms d)" for r
  proof -
    have "rm_ID r \<noteq> rm_ID row" using that fresh by (metis image_eqI)
    then have "filter (\<lambda>m. mem_RoomID m = rm_ID r \<and> P m) rows = []" for P
      using rows(1) by (auto simp: filter_empty_conv)
    from this[of "\<lambda>_. True"] this[of "\<lambda>m. mem_UserID m \<in> set [a, b]"] show ?thesis
      by (simp add: is_direct_room_def)
  qed
  show ?thesis using new old by (simp add: direct_rooms_def cong: filter_cong)
qed

lemma ensure_split:
  assumes "room_EnsureDirectRoom (api_rooms E) a0 b0 w = (Inr (r, c), w1)"
  obtains (found) "\<not> c" "r \<in> set (direct_rooms (TrimSpace a0) (TrimSpace b0) (w_db w))" "w_db w1 = w_db w"
  | (made) w2 where "c" "direct_rooms (TrimSpace a0) (TrimSpace b0) (w_db w) = []" "w_db w2 = w_db w"
      "room_Create (api_rooms E) (direct_room_input (TrimSpace a0) (TrimSpace b0)) w2 = (Inr r, w1)"
proof -
  obtain p q where pq: "normalizePair (TrimSpace a0) (TrimSpace b0) = (p, q)" by fastforce
  note dr = direct_rooms_pair[OF pq]
  obtain f w2 where f: "RoomRepository_FindDirectRoom E p q w = (f, w2)" by fastforce
  show thesis
  proof (cases f)
    case (Inr x)
    with assms pq f show thesis
      using found FindDirectRoom_found[of E p q w x w2] dr
      by (auto simp: room_EnsureDirectRoom_def Let_def split: if_splits)
  next
    case (Inl e)
    with assms pq f show thesis
      using made FindDirectRoom_none[of E p q w w2] dr
      by (auto simp: room_EnsureDirectRoom_def Let_def split: if_splits prod.splits sum.splits)
  qed
qed

lemma ensure_distinct:
  assumes "room_EnsureDirectRoom (api_rooms E) a0 b0 w = (Inr x, w1)"
  shows "TrimSpace a0 \<noteq> [] \<and> TrimSpace b0 \<noteq> [] \<and> TrimSpace a0 \<noteq> TrimSpace b0"
  using assms by (auto simp: room_EnsureDirectRoom_def Let_def split: if_splits)

lemma created_room_id:
  assumes "room_Create (api_rooms E) input w = (Inr r, w1)"
  shows "\<exists>n. rm_ID r = uuid_at E n"
proof -
  have "\<exists>n. rm_ID room' = uuid_at E n"
    if "RoomRepository_Create E room ms w = ((None, room'), w2)" "rm_ID room = []" for room ms room' w2
    using that by (auto simp: RoomRepository_Create_def Let_def id_or_new_def new_uuid_def
        split: prod.splits sum.splits option.splits)
  with assms show ?thesis
    by (fastforce simp: room_Create_def Let_def split: if_splits prod.splits option.splits)
qed

text \<open>The direct room of a pair whose ids are in canonical form, after it was ensured.\<close>

lemma ensure_leaves_one:
  assumes wf: "wf_db (w_db w)"
    and canon: "canon_uuid E (TrimSpace a0) = Some (TrimSpace a0)"
      "canon_uuid E (TrimSpace b0) = Some (TrimSpace b0)"
      "\<And>n. canon_uuid E (uuid_at E n) = Some (uuid_at E n)"
    and one: "length (direct_rooms (TrimSpace a0) (TrimSpace b0) (w_db w)) \<le> 1"
    and ens: "room_EnsureDirectRoom (api_rooms E) a0 b0 w = (Inr (r, c), w1)"
  shows "\<exists>row. direct_rooms (TrimSpace a0) (TrimSpace b0) (w_db w1) = [row] \<and> rm_ID row = rm_ID r"
  using ens
proof (cases rule: ensure_split)
  case found
  then obtain x xs where x: "direct_rooms (TrimSpace a0) (TrimSpace b0) (w_db w) = x # xs"
    by (cases "direct_rooms (TrimSpace a0) (TrimSpace b0) (w_db w)") auto
  with one have "xs = []" by simp
  with x found show ?thesis by auto
next
  case (made w2)
  let ?a = "TrimSpace a0" and ?b = "TrimSpace b0"
  let ?ms = "buildMembers (map_rank E (w_tick w2)) (direct_room_input ?a ?b)"
  note ab = ensure_distinct[OF ens]
  from made(4) show ?thesis
  proof (cases rule: room_Create_split)
    case (created room' row rows)
    have ms: "mset (map mem_UserID ?ms) = {# ?a, ?b #}"
      using direct_input_members[of ?b ?a "map_rank E (w_tick w2)"] ab by (simp add: new_member_def)
    then have "set (map mem_UserID ?ms) = {?a, ?b}" by (metis set_mset_add_mset_insert set_mset_empty set_mset_mset)
    then have "mem_UserID m \<in> {?a, ?b}" if "m \<in> set ?ms" for m using that by (metis imageI list.set_map)
    with canon(1,2) have "canon_uuid E (mem_UserID m) = Some (mem_UserID m)" if "m \<in> set ?ms" for m
      using that by (metis insert_iff empty_iff)
    then have "map (\<lambda>m. canon_uuid E (mem_UserID m)) ?ms = map (\<lambda>m. Some (mem_UserID m)) ?ms"
      by (intro map_cong) simp_all
    then have "map Some (map mem_UserID rows) = map Some (map mem_UserID ?ms)"
      using created(3) by (simp add: room_rows_def comp_def)
    then have "map mem_UserID rows = map mem_UserID ?ms" by (metis inj_map_eq_map inj_Some)
    with ms have users: "mset (map mem_UserID rows) = {# ?a, ?b #}" by simp
    have "direct_rooms ?a ?b (w_db w1) = direct_rooms ?a ?b (w_db w2) @ [row]"
      unfolding created(2)
    proof (rule new_direct_room)
      show "\<forall>m \<in> set rows. mem_RoomID m = rm_ID row" using created(3) by (simp add: room_rows_def)
      show "\<not> rm_IsGroup row"
        using created(3,6) by (simp add: room_rows_def direct_room_input_def split: prod.splits)
    qed (use wf made(3) created(4) users ab in simp_all)
    moreover have "rm_ID row = rm_ID r"
      using created_room_id[OF made(4)] canon(3) created(1,3) by (auto simp: room_rows_def)
    ultimately show ?thesis using made(2,3) by simp
  qed simp_all
qed

text \<open>
  C28: Ensuring the direct room of two users is idempotent and does not depend on who asks: for
  ids in canonical form and a pair with at most one direct room so far, once one of the two has
  ensured the room, the other one's request (its query answered) finds the very same room,
  reports that it was not created, and changes nothing.
\<close>

theorem direct_room_idempotent:
  assumes "wf_db (w_db w)"
    and "canon_uuid E (TrimSpace a) = Some (TrimSpace a)"
    and "canon_uuid E (TrimSpace b) = Some (TrimSpace b)"
    and "\<And>n. canon_uuid E (uuid_at E n) = Some (uuid_at E n)"
    and "length (direct_rooms (TrimSpace a) (TrimSpace b) (w_db w)) \<le> 1"
    and "room_EnsureDirectRoom (api_rooms E) a b w = (Inr (r, c), w1)"
    and "pg_fate E (w_tick w1) = Done"
  shows "\<exists>r2 w2. room_EnsureDirectRoom (api_rooms E) b a w1 = (Inr (r2, False), w2) \<and>
    rm_ID r2 = rm_ID r \<and> w_db w2 = w_db w1"
proof -
  obtain p q where pq: "normalizePair (TrimSpace a) (TrimSpace b) = (p, q)" by fastforce
  then have qp: "normalizePair (TrimSpace b) (TrimSpace a) = (p, q)" by (simp add: normalizePair_commute)
  from ensure_leaves_one[OF assms(1-6)] obtain row where
    row: "direct_rooms p q (w_db w1) = [row]" "rm_ID row = rm_ID r"
    unfolding direct_rooms_pair[OF pq] by blast
  from FindDirectRoom_Done[OF row(1) assms(7)] obtain w2 where
    "RoomRepository_FindDirectRoom E p q w1 = (Inr row, w2)" "w_db w2 = w_db w1" by blast
  with row qp ensure_distinct[OF assms(6)] show ?thesis
    by (auto simp: room_EnsureDirectRoom_def Let_def)
qed

lemma sample_ensure:
  "\<exists>r w1. room_EnsureDirectRoom (api_rooms sample_env) ''u-ann'' ''u-bob'' sample_world = (Inr (r, True), w1)"
  by (simp add: room_EnsureDirectRoom_def normalizePair_def direct_room_input_def room_eval world_eval
      Let_def RoomRepository_FindDirectRoom_def sql_find_direct_room_def arrange_def TrimSpace_graphic
      graphic_def RoomRoleAdmin_def RoomRoleMember_def)

theorem direct_room_idempotent_witness:
  "\<exists>r w1 r2 w2. room_EnsureDirectRoom (api_rooms sample_env) ''u-ann'' ''u-bob'' sample_world = (Inr (r, True), w1) \<and>
     room_EnsureDirectRoom (api_rooms sample_env) ''u-bob'' ''u-ann'' w1 = (Inr (r2, False), w2) \<and>
     rm_ID r2 = rm_ID r"
proof -
  obtain r w1 where e: "room_EnsureDirectRoom (api_rooms sample_env) ''u-ann'' ''u-bob'' sample_world
      = (Inr (r, True), w1)" using sample_ensure by blast
  have "pg_fate sample_env (w_tick w1) = Done" by (simp add: sample_env_def)
  moreover have "canon_uuid sample_env (uuid_at sample_env n) = Some (uuid_at sample_env n)" for n
    by (simp add: sample_env_def)
  moreover have "length (direct_rooms ''u-ann'' ''u-bob'' (w_db sample_world)) \<le> 1"
    by (simp add: direct_rooms_def sample_world_def)
  ultimately show ?thesis
    using direct_room_idempotent[OF sample_wf, of sample_env "''u-ann''" "''u-bob''" r True w1] e
    by (fastforce simp: canon_sample)
qed

lemma no_direct_room:
  assumes "\<And>m. m \<in> set (db_members d) \<Longrightarrow> mem_UserID m \<noteq> b"
  shows "direct_rooms a b d = []"
proof -
  have "\<not> is_direct_room [a, b] d r" for r
  proof
    let ?us = "map mem_UserID (filter (\<lambda>m. mem_RoomID m = rm_ID r \<and> mem_UserID m \<in> set [a, b]) (db_members d))"
    assume "is_direct_room [a, b] d r"
    then have "card (set ?us) = 2" by (simp only: is_direct_room_def length_remdups_card_conv)
    moreover have "set ?us \<subseteq> {a}" using assms by auto
    then have "card (set ?us) \<le> 1" using card_mono[of "{a}" "set ?us"] by simp
    ultimately show False by simp
  qed
  then show ?thesis by (simp add: direct_rooms_def)
qed

text \<open>An environment whose \<open>uuid\<close> type reads letters of either case.\<close>

definition shouting_env :: env where
  "shouting_env = sample_env\<lparr>canon_uuid := (\<lambda>s. Some (if s = ''u-BOB'' then ''u-bob'' else s))\<rparr>"

lemma shouting_ensure:
  "\<exists>r w1. room_EnsureDirectRoom (api_rooms shouting_env) ''u-ann'' ''u-BOB'' sample_world = (Inr (r, True), w1)"
  by (simp add: shouting_env_def room_EnsureDirectRoom_def normalizePair_def direct_room_input_def room_eval
      world_eval Let_def RoomRepository_FindDirectRoom_def sql_find_direct_room_def arrange_def
      TrimSpace_graphic graphic_def RoomRoleAdmin_def RoomRoleMember_def)

text \<open>
  The search for a direct room compares ids as text. A peer id that is not spelt as it is
  stored (a UUID in capital letters, say) never matches, so ensuring the direct room of such a
  peer always makes another one, whatever rooms the two already share.
\<close>

theorem direct_room_alias_duplicates:
  assumes "wf_db (w_db w)"
    and "TrimSpace b \<notin> usr_ID ` set (db_users (w_db w))"
    and "room_EnsureDirectRoom (api_rooms E) a b w = (Inr (r, c), w1)"
  shows "c \<and> length (db_rooms (w_db w1)) = Suc (length (db_rooms (w_db w)))"
proof -
  have none: "direct_rooms (TrimSpace a) (TrimSpace b) (w_db w) = []"
    by (rule no_direct_room) (use wf_member_user[OF assms(1)] assms(2) in metis)
  from assms(3) show ?thesis
  proof (cases rule: ensure_split)
    case found
    with none show ?thesis by simp
  next
    case (made w2)
    from made(4,1,3) show ?thesis by (cases rule: room_Create_split) simp_all
  qed
qed

theorem direct_room_alias_duplicates_witness:
  "\<exists>r w1. room_EnsureDirectRoom (api_rooms shouting_env) ''u-ann'' ''u-BOB'' sample_world = (Inr (r, True), w1) \<and>
     length (db_rooms (w_db w1)) = 1"
proof -
  obtain r w1 where e: "room_EnsureDirectRoom (api_rooms shouting_env) ''u-ann'' ''u-BOB'' sample_world
      = (Inr (r, True), w1)" using shouting_ensure by blast
  have "TrimSpace ''u-BOB'' \<notin> usr_ID ` set (db_users (w_db sample_world))"
    by (simp add: sample_world_def sample_user_def)
  from direct_room_alias_duplicates[OF sample_wf this e] e show ?thesis
    by (simp add: sample_world_def)
qed

section \<open>Deleting a room\<close>

lemma RoomRepository_GetByID_found:
  "RoomRepository_GetByID E i w = (Inr room, w') \<Longrightarrow>
   room \<in> set (db_rooms (w_db w)) \<and> canon_uuid E i = Some (rm_ID room) \<and> w_db w' = w_db w"
  unfolding RoomRepository_GetByID_def
  by (frule pg_call_ok, drule pg_call_reads[OF _ reads_only_stmts(3)])
    (auto simp: sql_room_by_id_def with_uuid_def split: option.splits dest!: head_row_Inr)

definition without_room :: "string \<Rightarrow> database \<Rightarrow> database" where
  "without_room i d = d\<lparr>db_rooms := filter (\<lambda>r. rm_ID r \<noteq> i) (db_rooms d),
     db_members := filter (\<lambda>m. mem_RoomID m \<noteq> i) (db_members d),
     db_messages := filter (\<lambda>m. msg_RoomID m \<noteq> i) (db_messages d),
     db_receipts := receipts_without (map msg_ID (filter (\<lambda>m. msg_RoomID m = i) (db_messages d)))
       (db_receipts d)\<rparr>"

lemma sql_delete_room_effect:
  "canon_uuid E s = Some i \<Longrightarrow>
   sql_delete_room E s d = (Inr (length (filter (\<lambda>r. rm_ID r = i) (db_rooms d))), without_room i d)"
  by (simp add: sql_delete_room_def with_uuid_def without_room_def)

lemma RoomRepository_Delete_effect:
  assumes "RoomRepository_Delete E s w = (r, w')" and "canon_uuid E s = Some i"
  shows "w_db w' = w_db w \<and> r \<noteq> None \<or> w_db w' = without_room i (w_db w)"
proof -
  obtain q w1 where c: "pg_call E (sql_delete_room E s) w = (q, w1)" by fastforce
  with assms(1) have w1: "w' = w1" and r: "r = None \<Longrightarrow> \<exists>n. q = Inr n"
    by (auto simp: RoomRepository_Delete_def split: sum.splits if_splits)
  show ?thesis
  proof (cases r)
    case None
    with r c w1 show ?thesis
      using pg_call_ok sql_delete_room_effect[OF assms(2), of "w_db w"] by fastforce
  next
    case (Some e)
    with pg_call_db[OF c] w1 sql_delete_room_effect[OF assms(2), of "w_db w"] show ?thesis by auto
  qed
qed

text \<open>
  C19: Only its creator can delete a room. Whatever the answer, either the tables are unchanged,
  or the requester is the creator of the room and the room is gone with exactly its own
  members, messages and receipts; a success is always the latter.
\<close>

theorem delete_room_by_creator:
  assumes "room_Delete (api_rooms E) roomID requesterID w = (r, w')"
  shows "(w_db w' = w_db w \<and> r \<noteq> None) \<or>
    (\<exists>room \<in> set (db_rooms (w_db w)). canon_uuid E (TrimSpace roomID) = Some (rm_ID room) \<and>
       rm_CreatedBy room = TrimSpace requesterID \<and> w_db w' = without_room (rm_ID room) (w_db w))"
proof -
  obtain g w1 where g: "RoomRepository_GetByID E (TrimSpace roomID) w = (g, w1)" by fastforce
  have db1: "w_db w1 = w_db w"
    using g pg_call_reads[of E "sql_room_by_id E (TrimSpace roomID)" w g w1]
    by (simp add: RoomRepository_GetByID_def)
  show ?thesis
  proof (cases "TrimSpace roomID \<noteq> [] \<and> TrimSpace requesterID \<noteq> [] \<and>
      (\<exists>room. g = Inr room \<and> rm_CreatedBy room = TrimSpace requesterID)")
    case False
    with assms g db1 show ?thesis
      by (auto simp: room_Delete_def Let_def split: if_splits sum.splits)
  next
    case True
    then obtain room where room: "g = Inr room" "rm_CreatedBy room = TrimSpace requesterID" by blast
    obtain x w2 where d: "RoomRepository_Delete E (TrimSpace roomID) w1 = (x, w2)" by fastforce
    from assms g True room d have "w' = w2" "x = None \<longleftrightarrow> r = None"
      by (auto simp: room_Delete_def Let_def split: option.splits)
    moreover from g room have f: "room \<in> set (db_rooms (w_db w))"
        "canon_uuid E (TrimSpace roomID) = Some (rm_ID room)"
      using RoomRepository_GetByID_found[of E "TrimSpace roomID" w room w1] by simp_all
    ultimately show ?thesis
      using RoomRepository_Delete_effect[OF d f(2)] room db1 by auto
  qed
qed

text \<open>A world with one room of each kind, made by ann, whose group has a message of bob's.\<close>

definition sample_room :: "string \<Rightarrow> room" where
  "sample_room i = \<lparr>rm_ID = i, rm_Name = ''team'', rm_IsGroup = True, rm_CreatedBy = ''u-ann'', rm_CreatedAt = 1000\<rparr>"

definition sample_member :: "string \<Rightarrow> string \<Rightarrow> room_member" where
  "sample_member r u = \<lparr>mem_ID = r @ u, mem_RoomID = r, mem_UserID = u, mem_Role = RoomRoleMember\<rparr>"

definition sample_message :: "string \<Rightarrow> string \<Rightarrow> string \<Rightarrow> time \<Rightarrow> message" where
  "sample_message i r u t = \<lparr>msg_ID = i, msg_RoomID = r, msg_SenderID = u, msg_Content = ''hi'',
     msg_Attachments = [], msg_Status = MessageStatusSent, msg_CreatedAt = t, msg_UpdatedAt = t\<rparr>"

definition chat_world :: world where
  "chat_world = sample_world\<lparr>w_db := (w_db sample_world)
     \<lparr>db_rooms := [sample_room ''r1'', sample_room ''r2''],
      db_members := [sample_member ''r1'' ''u-ann'', sample_member ''r1'' ''u-bob'', sample_member ''r2'' ''u-ann''],
      db_messages := [sample_message ''m1'' ''r1'' ''u-bob'' 1000, sample_message ''m2'' ''r1'' ''u-ann'' 2000,
                      sample_message ''m3'' ''r1'' ''u-bob'' 3000]\<rparr>\<rparr>"

lemmas chat_eval = chat_world_def sample_room_def sample_member_def sample_message_def

lemma chat_wf: "wf_db (w_db chat_world)"
  by (simp add: chat_eval sample_world_def sample_user_def wf_db_def)

theorem delete_room_by_creator_witness:
  "\<exists>w'. room_Delete (api_rooms sample_env) ''r1'' ''u-ann'' chat_world = (None, w') \<and>
     db_rooms (w_db w') = [sample_room ''r2''] \<and> db_messages (w_db w') = []"
proof -
  have "\<exists>w'. room_Delete (api_rooms sample_env) ''r1'' ''u-ann'' chat_world = (None, w')"
    by (simp add: room_Delete_def room_eval world_eval chat_eval RoomRepository_GetByID_def
        sql_room_by_id_def RoomRepository_Delete_def sql_delete_room_def Let_def TrimSpace_graphic graphic_def)
  then obtain w' where d: "room_Delete (api_rooms sample_env) ''r1'' ''u-ann'' chat_world = (None, w')" by blast
  from delete_room_by_creator[OF d] obtain room :: room where
    "canon_uuid sample_env (TrimSpace ''r1'') = Some (rm_ID room)"
    "w_db w' = without_room (rm_ID room) (w_db chat_world)" by auto
  then have "w_db w' = without_room ''r1'' (w_db chat_world)" by (simp add: canon_sample)
  with d show ?thesis by (simp add: without_room_def chat_eval)
qed

section \<open>Searching rooms, adding members\<close>

lemma sql_search_rooms_ok:
  assumes "sql_search_rooms E n user q lim d = (Inr rs, d')"
  shows "\<exists>u rows. canon_uuid E user = Some u \<and>
    (\<forall>r \<in> set rows. r \<in> set (db_rooms d) \<and>
       (\<exists>m \<in> set (db_members d). mem_RoomID m = rm_ID r \<and> mem_UserID m = u) \<and>
       (q = [] \<or> ilike E (rm_Name r) q)) \<and>
    rs = take (nat lim) (sort_key (\<lambda>r. - rm_CreatedAt r) rows)"
proof -
  from assms obtain u where u: "canon_uuid E user = Some u"
    by (auto simp: sql_search_rooms_def with_uuid_def split: option.splits)
  let ?rows = "arrange E n rm_ID [r. r \<leftarrow> db_rooms d, m \<leftarrow> db_members d,
      mem_RoomID m = rm_ID r \<and> mem_UserID m = u \<and> (q = [] \<or> ilike E (rm_Name r) q)]"
  have "rs = take (nat lim) (sort_key (\<lambda>r. - rm_CreatedAt r) ?rows)"
    using assms u by (auto simp: sql_search_rooms_def with_uuid_def limit_offset_def split: if_splits)
  with u show ?thesis by (intro exI[of _ u] exI[of _ ?rows]) auto
qed

text \<open>
  A search returns at most 100 rooms, newest first, and only rooms the user is a member of
  and whose name matches a query that is not blank; it changes nothing.
\<close>

theorem room_search_scope:
  assumes "room_Search (api_rooms E) userID query limit w = (Inr rs, w')"
  shows "w_db w' = w_db w \<and> length rs \<le> 100 \<and> sorted_wrt (\<lambda>a b. rm_CreatedAt b \<le> rm_CreatedAt a) rs \<and>
    (\<forall>r \<in> set rs. r \<in> set (db_rooms (w_db w)) \<and>
       (\<exists>m \<in> set (db_members (w_db w)). mem_RoomID m = rm_ID r \<and>
          canon_uuid E (TrimSpace userID) = Some (mem_UserID m)) \<and>
       (TrimSpace query = [] \<or> ilike E (rm_Name r) (TrimSpace query)))"
proof -
  let ?s = "sql_search_rooms E (w_tick w) (TrimSpace userID) (TrimSpace query) (room_search_limit limit)"
  have c: "pg_call E ?s w = (Inr rs, w')"
    using assms by (auto simp: room_Search_def Let_def RoomRepository_Search_def split: if_splits)
  from pg_call_reads[OF c] have db: "w_db w' = w_db w" by simp
  from sql_search_rooms_ok[OF pg_call_ok[OF c]] obtain u rows where
    u: "canon_uuid E (TrimSpace userID) = Some u"
    and rows: "\<forall>r \<in> set rows. r \<in> set (db_rooms (w_db w)) \<and> (\<exists>m \<in> set (db_members (w_db w)).
        mem_RoomID m = rm_ID r \<and> mem_UserID m = u) \<and>
        (TrimSpace query = [] \<or> ilike E (rm_Name r) (TrimSpace query))"
    and rs: "rs = take (nat (room_search_limit limit)) (sort_key (\<lambda>r. - rm_CreatedAt r) rows)"
    by blast
  have "sorted (map (\<lambda>r. - rm_CreatedAt r) (take n (sort_key (\<lambda>r. - rm_CreatedAt r) rows)))" for n
    by (simp add: take_map[symmetric] sorted_wrt_take)
  then have "sorted_wrt (\<lambda>a b. rm_CreatedAt b \<le> rm_CreatedAt a) rs"
    unfolding rs sorted_map by simp
  moreover have "length rs \<le> 100" using room_search_limit_bounds[of limit] rs by auto
  moreover have "set rs \<subseteq> set rows" unfolding rs by (metis set_sort set_take_subset)
  ultimately show ?thesis using db u rows by blast
qed

theorem room_search_scope_witness:
  "\<exists>rs w'. room_Search (api_rooms sample_env) ''u-bob'' [] 0 chat_world = (Inr rs, w') \<and>
     length rs \<le> 100 \<and> rs = [sample_room ''r1'']"
proof -
  have "\<exists>rs w'. room_Search (api_rooms sample_env) ''u-bob'' [] 0 chat_world = (Inr rs, w') \<and>
      rs = [sample_room ''r1'']"
    by (simp add: room_Search_def room_eval world_eval chat_eval RoomRepository_Search_def
        sql_search_rooms_def limit_offset_def room_search_limit_def room_defaultSearchLimit_def
        room_maxSearchLimit_def arrange_def Let_def TrimSpace_graphic graphic_def)
  then show ?thesis using room_search_scope by blast
qed

lemma wf_member_once:
  assumes "wf_db d" and "m \<in> set (db_members d)" and "same_member r u m"
  shows "filter (same_member r u) (db_members d) = [m]"
proof -
  have "distinct (map (\<lambda>m. (mem_RoomID m, mem_UserID m)) (db_members d))"
    using assms(1) by (simp add: wf_db_def)
  from distinct_filter_single[OF this assms(2)] assms(3) show ?thesis
    by (simp add: same_member_def[abs_def])
qed

lemma filter_map_update:
  "(\<And>x. P (f x) = P x) \<Longrightarrow> filter P (map (\<lambda>x. if P x then f x else x) xs) = map f (filter P xs)"
  "(\<And>x. P (f x) = P x) \<Longrightarrow> filter (\<lambda>x. \<not> P x) (map (\<lambda>x. if P x then f x else x) xs) = filter (\<lambda>x. \<not> P x) xs"
  by (induction xs) auto

lemma same_member_role [simp]: "same_member r u (m\<lparr>mem_Role := x\<rparr>) = same_member r u m"
  by (simp add: same_member_def)

lemma upsert_member_rows:
  assumes wf: "wf_db d" and up: "sql_upsert_member E m d = (Inr (), d')"
    and r: "canon_uuid E (mem_RoomID m) = Some r" and u: "canon_uuid E (mem_UserID m) = Some u"
  shows "map mem_Role (filter (same_member r u) (db_members d')) = [mem_Role m] \<and>
    filter (\<lambda>x. \<not> same_member r u x) (db_members d') = filter (\<lambda>x. \<not> same_member r u x) (db_members d) \<and>
    d' = d\<lparr>db_members := db_members d'\<rparr>"
proof (cases "list_ex (same_member r u) (db_members d)")
  case True
  then obtain x where x: "x \<in> set (db_members d)" "same_member r u x" by (auto simp: list_ex_iff)
  from up r u True have d': "d' = d\<lparr>db_members := map (\<lambda>x. if same_member r u x
      then x\<lparr>mem_Role := mem_Role m\<rparr> else x) (db_members d)\<rparr>"
    by (auto simp: sql_upsert_member_def with_uuid_def split: option.splits)
  show ?thesis
    by (simp add: d' filter_map_update wf_member_once[OF wf x])
next
  case False
  then have "filter (same_member r u) (db_members d) = []" by (auto simp: list_ex_iff filter_empty_conv)
  moreover from up r u False obtain i where
    "d' = d\<lparr>db_members := db_members d @ [\<lparr>mem_ID = i, mem_RoomID = r, mem_UserID = u, mem_Role = mem_Role m\<rparr>]\<rparr>"
    by (auto simp: sql_upsert_member_def with_uuid_def put_member_def split: option.splits if_splits)
  ultimately show ?thesis by (simp add: same_member_def)
qed

text \<open>
  After a successful addition the user is a member of the room exactly once, with the role
  given (\<open>member\<close> when none was); no other membership has changed, and no other table has.
\<close>

theorem add_member_upserts:
  assumes "wf_db (w_db w)"
    and "room_AddMember (api_rooms E) roomID userID role w = (None, w')"
  shows "\<exists>r u. canon_uuid E roomID = Some r \<and> canon_uuid E userID = Some u \<and>
    map mem_Role (filter (same_member r u) (db_members (w_db w')))
      = [if role = [] then RoomRoleMember else role] \<and>
    filter (\<lambda>m. \<not> same_member r u m) (db_members (w_db w'))
      = filter (\<lambda>m. \<not> same_member r u m) (db_members (w_db w)) \<and>
    w_db w' = (w_db w)\<lparr>db_members := db_members (w_db w')\<rparr>"
proof -
  let ?role = "if role = [] then RoomRoleMember else role"
  let ?m = "\<lparr>mem_ID = [], mem_RoomID = roomID, mem_UserID = userID, mem_Role = ?role\<rparr>"
  obtain q w1 where a: "RoomRepository_AddMember E ?m w = (q, w1)" by fastforce
  have q: "q = None" and db: "w_db w' = w_db w1"
    using assms(2) a
    by (auto simp: room_AddMember_def Let_def publishRoomAdded_def PubSub_Publish_def redis_srv_def
        srv_publish_def RoomRepository_GetByID_def
        split: if_splits option.splits prod.splits sum.splits dest!: pg_call_reads)
  obtain i w2 where 2: "id_or_new E [] w = (i, w2)" by fastforce
  from a q 2 have "pg_call E (sql_upsert_member E (?m\<lparr>mem_ID := i\<rparr>)) w2 = (Inr (), w1)"
    by (auto simp: RoomRepository_AddMember_def err_of_None split: prod.splits)
  from pg_call_ok[OF this] id_or_new_frame[OF 2]
  have up: "sql_upsert_member E (?m\<lparr>mem_ID := i\<rparr>) (w_db w) = (Inr (), w_db w1)" by simp
  then obtain r u where ru: "canon_uuid E roomID = Some r" "canon_uuid E userID = Some u"
    by (auto simp: sql_upsert_member_def with_uuid_def split: option.splits)
  show ?thesis
    using upsert_member_rows[OF assms(1) up] ru db by auto
qed

theorem add_member_upserts_witness:
  "\<exists>w'. room_AddMember (api_rooms sample_env) ''r1'' ''u-bob'' ''owner'' chat_world = (None, w') \<and>
     map mem_Role (filter (same_member ''r1'' ''u-bob'') (db_members (w_db w'))) = [''owner'']"
proof -
  have "\<exists>w'. room_AddMember (api_rooms sample_env) ''r1'' ''u-bob'' ''owner'' chat_world = (None, w')"
    by (simp add: room_AddMember_def RoomRepository_AddMember_def sql_upsert_member_def same_member_def
        RoomRepository_GetByID_def sql_room_by_id_def publishRoomAdded_def PubSub_Publish_def
        room_eval world_eval chat_eval TrimSpace_graphic graphic_def Let_def)
  then obtain w' where a: "room_AddMember (api_rooms sample_env) ''r1'' ''u-bob'' ''owner'' chat_world = (None, w')"
    by blast
  from add_member_upserts[OF chat_wf a] obtain r u where
    "canon_uuid sample_env ''r1'' = Some r" "canon_uuid sample_env ''u-bob'' = Some u"
    "map mem_Role (filter (same_member r u) (db_members (w_db w'))) = [''owner'']" by auto
  with a show ?thesis by (auto simp: canon_sample)
qed

end
