(* ===== verification/Message_Properties.thy ===== *)
theory Message_Properties
  imports Message_Service Message_Repo Room_Properties
begin

text \<open>
  The message service as both servers wire it: over the Postgres message repository and the
  Redis publisher.
\<close>

section \<open>Wiring\<close>

definition NewMessageRepository :: "env \<Rightarrow> world message_repository" where
  "NewMessageRepository E =
     \<lparr>mr_Create = MessageRepository_Create E, mr_ListByRoom = MessageRepository_ListByRoom E,
      mr_ListAround = MessageRepository_ListAround E,
      mr_UpdateStatus = MessageRepository_UpdateStatus E,
      mr_UpsertReceipt = MessageRepository_UpsertReceipt E, mr_Search = MessageRepository_Search E,
      mr_GetByID = MessageRepository_GetByID E,
      mr_UpdateContent = MessageRepository_UpdateContent E, mr_Delete = MessageRepository_Delete E\<rparr>"

definition api_messages :: "env \<Rightarrow> world message_service" where
  "api_messages E =
     NewMessageService (go_runtime E) (NewMessageRepository E) (Some (PubSub_Publish (redis_srv E)))"

lemma api_messages_simps [simp]:
  "mr_Create (ms_repo (api_messages E)) = MessageRepository_Create E"
  "mr_ListByRoom (ms_repo (api_messages E)) = MessageRepository_ListByRoom E"
  "mr_ListAround (ms_repo (api_messages E)) = MessageRepository_ListAround E"
  "mr_UpdateStatus (ms_repo (api_messages E)) = MessageRepository_UpdateStatus E"
  "mr_UpsertReceipt (ms_repo (api_messages E)) = MessageRepository_UpsertReceipt E"
  "mr_Search (ms_repo (api_messages E)) = MessageRepository_Search E"
  "mr_GetByID (ms_repo (api_messages E)) = MessageRepository_GetByID E"
  "mr_UpdateContent (ms_repo (api_messages E)) = MessageRepository_UpdateContent E"
  "mr_Delete (ms_repo (api_messages E)) = MessageRepository_Delete E"
  "ms_pub (api_messages E) = Some (PubSub_Publish (redis_srv E))"
  "ms_rt (api_messages E) = go_runtime E"
  by (simp_all add: api_messages_def NewMessageService_def NewMessageRepository_def)

section \<open>The service keeps the constraints, the users and the rooms\<close>

lemmas message_write_steps =
  withinD[OF within_pg_call[OF wf_insert_message spares_message_writes(1)]]
  withinD[OF within_pg_call[OF wf_update_message_status spares_message_writes(2)]]
  withinD[OF within_pg_call[OF wf_upsert_receipt spares_message_writes(3)]]
  withinD[OF within_pg_call[OF wf_update_content spares_message_writes(4)]]
  withinD[OF within_pg_call[OF wf_delete_message spares_message_writes(5)]]

lemma around_steps:
  "list_before E i t n w = (r, w') \<Longrightarrow> db_step p w w' \<and> w_db w' = w_db w"
  "list_after E i t n w = (r, w') \<Longrightarrow> db_step p w w' \<and> w_db w' = w_db w"
  by (auto simp: list_before_def list_after_def db.R_refl split: if_splits prod.splits sum.splits
      dest: withinD[OF within_pg_read[OF reads_only_stmts(8)]]
        withinD[OF within_pg_read[OF reads_only_stmts(9)]] pg_call_reads)

lemma MessageRepository_writes:
  "within (db_step room_tables) (MessageRepository_Create E m)"
  "within (db_step room_tables) (MessageRepository_UpdateStatus E i st)"
  "within (db_step room_tables) (MessageRepository_UpsertReceipt E c)"
  "within (db_step room_tables) (MessageRepository_UpdateContent E i content)"
  "within (db_step room_tables) (MessageRepository_Delete E i)"
proof -
  show "within (db_step room_tables) (MessageRepository_Create E m)"
    by (rule withinI) (auto simp: MessageRepository_Create_def Let_def split: prod.splits
        dest!: message_write_steps(1) id_or_new_step time_or_now_step intro: db.R_trans)
  show "within (db_step room_tables) (MessageRepository_UpdateStatus E i st)"
    by (rule withinI) (auto simp: MessageRepository_UpdateStatus_def split: prod.splits
        dest!: message_write_steps(2))
  show "within (db_step room_tables) (MessageRepository_UpsertReceipt E c)"
    by (rule withinI) (auto simp: MessageRepository_UpsertReceipt_def split: prod.splits
        dest!: message_write_steps(3) id_or_new_step intro: db.R_trans)
  show "within (db_step room_tables) (MessageRepository_UpdateContent E i content)"
    by (rule withinI) (auto simp: MessageRepository_UpdateContent_def dest!: message_write_steps(4))
  show "within (db_step room_tables) (MessageRepository_Delete E i)"
    by (rule withinI) (auto simp: MessageRepository_Delete_def split: prod.splits
        dest!: message_write_steps(5))
qed

lemma MessageRepository_reads:
  "within (db_step p) (MessageRepository_ListByRoom E i l off)"
  "within (db_step p) (MessageRepository_Search E u i q l)"
  "within (db_step p) (MessageRepository_GetByID E i)"
  "within (db_step p) (MessageRepository_ListAround E i j a b)"
proof -
  show "within (db_step p) (MessageRepository_ListAround E i j a b)"
    by (rule withinI) (auto simp: MessageRepository_ListAround_def split: prod.splits sum.splits if_splits
        dest!: withinD[OF within_pg_read[OF reads_only_stmts(10)]] around_steps[where p = p]
        intro: db.R_trans)
qed (simp_all add: within_def MessageRepository_ListByRoom_def MessageRepository_Search_def
    MessageRepository_GetByID_def within_pg_read[unfolded within_def, rule_format])

lemma publishRoomEvent_step:
  "within (db_step p) (publishRoomEvent (PubSub_Publish (redis_srv E)) i j)"
proof -
  have "service_channel (roomChannel i)" by (auto simp: service_channel_def roomChannel_def)
  from publish_step[OF this] show ?thesis by (simp add: within_def publishRoomEvent_def)
qed

interpretation messages: message_environment "db_step room_tables" "api_messages E" for E
  by unfold_locales
    (auto simp: MessageRepository_writes MessageRepository_reads publishRoomEvent_step now_step)

section \<open>Sending\<close>

lemma publish_effect:
  "publish_then (api_messages E) i j m w = (Inr x, w') \<Longrightarrow>
   x = m \<and> w_db w' = w_db w \<and> w_log w' = w_log w @ [(roomChannel i, j)]"
  "w_db (snd (publish_then (api_messages E) i j m w)) = w_db w"
  by (auto simp: publish_then_def publishRoomEvent_def PubSub_Publish_def redis_srv_def
      srv_publish_def Let_def acts_Done split: option.splits)

lemma sql_insert_message_ok:
  "sql_insert_message E m d = (Inr (), d') \<Longrightarrow>
   \<exists>i r u. canon_uuid E (msg_ID m) = Some i \<and> canon_uuid E (msg_RoomID m) = Some r \<and>
     canon_uuid E (msg_SenderID m) = Some u \<and> i \<notin> set (map msg_ID (db_messages d)) \<and>
     d' = d\<lparr>db_messages := db_messages d @
       [m\<lparr>msg_ID := i, msg_RoomID := r, msg_SenderID := u, msg_Attachments := [],
          msg_CreatedAt := usec (msg_CreatedAt m), msg_UpdatedAt := usec (msg_UpdatedAt m)\<rparr>]\<rparr>"
  by (auto simp: sql_insert_message_def with_uuid_def split: option.splits if_splits)

lemma MessageRepository_Create_row:
  assumes "MessageRepository_Create E msg w = ((None, msg'), w')"
  shows "\<exists>i t row. msg' = msg\<lparr>msg_ID := i, msg_CreatedAt := t,
         msg_UpdatedAt := (if IsZero (msg_UpdatedAt msg) then t else msg_UpdatedAt msg),
         msg_Status := (if msg_Status msg = [] then MessageStatusSent else msg_Status msg)\<rparr> \<and>
     w_log w' = w_log w \<and> db_messages (w_db w') = db_messages (w_db w) @ [row] \<and>
     canon_uuid E i = Some (msg_ID row) \<and> canon_uuid E (msg_RoomID msg) = Some (msg_RoomID row) \<and>
     canon_uuid E (msg_SenderID msg) = Some (msg_SenderID row) \<and>
     msg_Content row = msg_Content msg \<and> msg_Status row = msg_Status msg' \<and>
     msg_Attachments row = [] \<and> msg_CreatedAt row = usec t"
proof -
  obtain i w1 where 1: "id_or_new E (msg_ID msg) w = (i, w1)" by fastforce
  obtain t w2 where 2: "time_or_now E (msg_CreatedAt msg) w1 = (t, w2)" by fastforce
  let ?m = "msg\<lparr>msg_ID := i, msg_CreatedAt := t,
         msg_UpdatedAt := (if IsZero (msg_UpdatedAt msg) then t else msg_UpdatedAt msg),
         msg_Status := (if msg_Status msg = [] then MessageStatusSent else msg_Status msg)\<rparr>"
  from assms 1 2 have m: "msg' = ?m" and c: "pg_call E (sql_insert_message E ?m) w2 = (Inr (), w')"
    by (auto simp: MessageRepository_Create_def Let_def err_of_None split: prod.splits)
  have db: "w_db w2 = w_db w" "w_log w2 = w_log w"
    using id_or_new_frame[OF 1] time_or_now_frame[OF 2] by (simp_all add: pg_frame_def)
  moreover have "w_log w' = w_log w2" using pg_call_pg_frame[OF c] by (simp add: pg_frame_def)
  moreover from sql_insert_message_ok[OF pg_call_ok[OF c]] obtain j r u where
    "canon_uuid E (msg_ID ?m) = Some j" "canon_uuid E (msg_RoomID ?m) = Some r"
    "canon_uuid E (msg_SenderID ?m) = Some u"
    "w_db w' = (w_db w2)\<lparr>db_messages := db_messages (w_db w2) @
       [?m\<lparr>msg_ID := j, msg_RoomID := r, msg_SenderID := u, msg_Attachments := [],
          msg_CreatedAt := usec (msg_CreatedAt ?m), msg_UpdatedAt := usec (msg_UpdatedAt ?m)\<rparr>]\<rparr>"
    by blast
  ultimately show ?thesis using m
    by (intro exI[of _ i] exI[of _ t] exI[of _ "?m\<lparr>msg_ID := j, msg_RoomID := r, msg_SenderID := u,
        msg_Attachments := [], msg_CreatedAt := usec (msg_CreatedAt ?m),
        msg_UpdatedAt := usec (msg_UpdatedAt ?m)\<rparr>"]) simp
qed

lemma message_Send_effect:
  assumes "message_Send (api_messages E) p w = (Inr m, w')"
  shows "\<exists>row. db_messages (w_db w') = db_messages (w_db w) @ [row] \<and>
    canon_uuid E (msg_ID m) = Some (msg_ID row) \<and>
    canon_uuid E (smi_RoomID p) = Some (msg_RoomID row) \<and>
    canon_uuid E (smi_SenderID p) = Some (msg_SenderID row) \<and>
    msg_Content row = TrimSpace (smi_Content p) \<and> msg_Status row = MessageStatusSent \<and>
    msg_Attachments row = [] \<and>
    msg_RoomID m = smi_RoomID p \<and> msg_SenderID m = smi_SenderID p \<and>
    msg_Content m = TrimSpace (smi_Content p) \<and> msg_Attachments m = smi_Attachments p \<and>
    w_log w' = w_log w @ [(roomChannel (smi_RoomID p), message_json (fmt_time E) m)]"
proof -
  let ?m = "\<lparr>msg_ID = [], msg_RoomID = smi_RoomID p, msg_SenderID = smi_SenderID p,
      msg_Content = TrimSpace (smi_Content p), msg_Attachments = smi_Attachments p,
      msg_Status = MessageStatusSent, msg_CreatedAt = 0, msg_UpdatedAt = 0\<rparr>"
  from assms obtain m1 w1 where c: "MessageRepository_Create E ?m w = ((None, m1), w1)"
    and pub: "publish_then (api_messages E) (msg_RoomID m1) (message_json (fmt_time E) m1) m1 w1 = (Inr m, w')"
    by (auto simp: message_Send_def Let_def go_runtime_def split: if_splits prod.splits option.splits)
  note eff = publish_effect(1)[OF pub]
  from MessageRepository_Create_row[OF c] obtain i t row where
    "m1 = ?m\<lparr>msg_ID := i, msg_CreatedAt := t, msg_UpdatedAt := t\<rparr>" "w_log w1 = w_log w"
    "db_messages (w_db w1) = db_messages (w_db w) @ [row]" "canon_uuid E i = Some (msg_ID row)"
    "canon_uuid E (smi_RoomID p) = Some (msg_RoomID row)"
    "canon_uuid E (smi_SenderID p) = Some (msg_SenderID row)"
    "msg_Content row = TrimSpace (smi_Content p)" "msg_Status row = MessageStatusSent"
    "msg_Attachments row = []"
    by (auto simp: IsZero_def MessageStatusSent_def)
  with eff show ?thesis by (intro exI[of _ row]) simp
qed

text \<open>
  C20: A successful send stores exactly one new row, with the room and the sender of the request,
  the trimmed content and the status \<open>SENT\<close>, and publishes exactly one event, on the channel of
  the room, which is the message returned. The row does not carry the attachments that the
  message returned and published has.
\<close>

theorem send_stores_and_publishes:
  assumes "message_Send (api_messages E) p w = (Inr m, w')"
  shows "\<exists>row. db_messages (w_db w') = db_messages (w_db w) @ [row] \<and>
    canon_uuid E (msg_ID m) = Some (msg_ID row) \<and>
    canon_uuid E (smi_RoomID p) = Some (msg_RoomID row) \<and>
    canon_uuid E (smi_SenderID p) = Some (msg_SenderID row) \<and>
    msg_Content row = TrimSpace (smi_Content p) \<and> msg_Status row = MessageStatusSent \<and>
    msg_Attachments row = [] \<and>
    msg_RoomID m = smi_RoomID p \<and> msg_SenderID m = smi_SenderID p \<and>
    msg_Content m = TrimSpace (smi_Content p) \<and> msg_Attachments m = smi_Attachments p \<and>
    w_log w' = w_log w @ [(roomChannel (smi_RoomID p), message_json (fmt_time E) m)]"
  using assms by (rule message_Send_effect)

lemmas message_eval = api_messages_def NewMessageService_def NewMessageRepository_def
  publish_then_def publishRoomEvent_def PubSub_Publish_def own_message_def
  MessageRepository_Create_def sql_insert_message_def MessageRepository_GetByID_def
  sql_message_by_id_def MessageRepository_UpdateContent_def sql_update_content_def
  MessageRepository_Delete_def sql_delete_message_def MessageRepository_UpsertReceipt_def
  sql_upsert_receipt_def MessageRepository_UpdateStatus_def sql_update_message_status_def
  id_or_new_def time_or_now_def IsZero_def usec_def edited_def

lemma hello_trims [simp]: "TrimSpace ''hello'' = ''hello''" "TrimSpace ''m2'' = ''m2''"
  by (simp_all add: TrimSpace_graphic graphic_def)

definition hello_input :: send_message_input where
  "hello_input = \<lparr>smi_RoomID = ''r1'', smi_SenderID = ''u-ann'', smi_Content = ''hello'', smi_Attachments = []\<rparr>"

theorem send_stores_and_publishes_witness:
  "\<exists>m w' row. message_Send (api_messages sample_env) hello_input chat_world = (Inr m, w') \<and>
     db_messages (w_db w') = db_messages (w_db chat_world) @ [row] \<and> msg_Content row = ''hello'' \<and>
     length (w_log w') = 1"
proof -
  have "\<exists>m w'. message_Send (api_messages sample_env) hello_input chat_world = (Inr m, w')"
    by (simp add: message_Send_def hello_input_def message_eval world_eval chat_eval Let_def)
  then obtain m w' where m: "message_Send (api_messages sample_env) hello_input chat_world = (Inr m, w')" by blast
  from send_stores_and_publishes[OF m] obtain row where
    "db_messages (w_db w') = db_messages (w_db chat_world) @ [row]"
    "msg_Content row = TrimSpace (smi_Content hello_input)"
    "w_log w' = w_log chat_world @ [(roomChannel (smi_RoomID hello_input), message_json (fmt_time sample_env) m)]"
    by blast
  with m show ?thesis
    by (intro exI[of _ m] exI[of _ w'] exI[of _ row]) (simp add: hello_input_def chat_world_def sample_world_def)
qed

section \<open>Editing and deleting\<close>

lemma own_message_db: "own_message (api_messages E) i u e w = (r, w') \<Longrightarrow> w_db w' = w_db w"
  by (auto simp: own_message_def MessageRepository_GetByID_def split: prod.splits sum.splits if_splits
      dest!: pg_call_reads)

lemma own_message_ok:
  assumes "own_message (api_messages E) i u e w = (Inr m, w')"
  shows "m \<in> set (db_messages (w_db w)) \<and> canon_uuid E i = Some (msg_ID m) \<and> msg_SenderID m = u"
proof -
  from assms obtain w1 where c: "pg_call E (sql_message_by_id E i) w = (Inr m, w1)" and u: "msg_SenderID m = u"
    by (auto simp: own_message_def MessageRepository_GetByID_def split: prod.splits sum.splits if_splits)
  from pg_call_ok[OF c] u show ?thesis
    by (auto simp: sql_message_by_id_def with_uuid_def split: option.splits dest!: head_row_Inr)
qed

text \<open>The table after an edit of the message \<open>i\<close> at server time \<open>now\<close>.\<close>

definition with_content :: "string \<Rightarrow> string \<Rightarrow> time \<Rightarrow> database \<Rightarrow> database" where
  "with_content i content now d = d\<lparr>db_messages :=
     map (\<lambda>m. if msg_ID m = i then edited content now m else m) (db_messages d)\<rparr>"

lemma message_Edit_effect:
  assumes "message_Edit (api_messages E) messageID userID content w = (r, w')"
  shows "(w_db w' = w_db w \<and> (\<exists>e. r = Inl e)) \<or>
    (\<exists>m \<in> set (db_messages (w_db w)). \<exists>now \<ge> w_wall w.
       canon_uuid E (TrimSpace messageID) = Some (msg_ID m) \<and> msg_SenderID m = TrimSpace userID \<and>
       TrimSpace content \<noteq> [] \<and> w_db w' = with_content (msg_ID m) (TrimSpace content) now (w_db w))"
proof -
  let ?i = "TrimSpace messageID" and ?c = "TrimSpace content"
  obtain g w1 where g: "own_message (api_messages E) ?i (TrimSpace userID) ErrEditNotAllowed w = (g, w1)"
    by fastforce
  have db1: "w_db w1 = w_db w" by (rule own_message_db[OF g])
  have wall: "w_wall w \<le> w_wall (pass E w1)"
    using withinD[OF messages.own_message_within g] pass_wall[of w1 E]
    by (simp add: db_step_def del: pass_wall)
  show ?thesis
  proof (cases "?i \<noteq> [] \<and> TrimSpace userID \<noteq> [] \<and> ?c \<noteq> [] \<and> (\<exists>m. g = Inr m)")
    case False
    with assms g db1 show ?thesis
      by (auto simp: message_Edit_def Let_def split: if_splits sum.splits)
  next
    case True
    then obtain m where m: "g = Inr m" by blast
    note own = own_message_ok[OF g[unfolded m]]
    obtain q w2 where u: "pg_call E (sql_update_content E ?i ?c (w_wall (pass E w1))) w1 = (q, w2)"
      by fastforce
    have eff: "snd (sql_update_content E ?i ?c now d) = with_content (msg_ID m) ?c now d" for now d
      using own by (simp add: sql_update_content_def with_uuid_def with_content_def)
    from pg_call_db[OF u] eff db1
    have db2: "w_db w2 = w_db w \<or> w_db w2 = with_content (msg_ID m) ?c (w_wall (pass E w1)) (w_db w)" by metis
    have ok: "w_db w2 = with_content (msg_ID m) ?c (w_wall (pass E w1)) (w_db w)" if "q = Inr x" for x
      using pg_call_ok[OF u[unfolded that]] eff db1 by (metis snd_conv)
    from assms g m True u have "(\<exists>e. q = Inl e \<and> r = Inl e \<and> w' = w2) \<or> (\<exists>x. q = Inr x \<and> w_db w' = w_db w2)"
      using publish_effect(2)
      by (auto simp: message_Edit_def Let_def MessageRepository_UpdateContent_def split: sum.splits)
        (metis snd_conv)+
    then have "w_db w' = w_db w \<and> (\<exists>e. r = Inl e) \<or>
        w_db w' = with_content (msg_ID m) ?c (w_wall (pass E w1)) (w_db w)"
      using db2 ok by (elim disjE exE conjE) simp_all
    then show ?thesis
    proof
      assume "w_db w' = with_content (msg_ID m) ?c (w_wall (pass E w1)) (w_db w)"
      with own wall True show ?thesis
        by (intro disjI2 bexI[of _ m] exI[of _ "w_wall (pass E w1)"]) simp_all
    qed (rule disjI1)
  qed
qed

text \<open>
  C12: Only the sender can edit a message. Whatever the answer, either the tables are unchanged,
  or the user is the sender of the message, the trimmed content is not empty, and exactly the
  content and the time of update of that message have changed; a success is always the latter.
\<close>

theorem edit_by_sender_only:
  assumes "message_Edit (api_messages E) messageID userID content w = (r, w')"
  shows "(w_db w' = w_db w \<and> (\<exists>e. r = Inl e)) \<or>
    (\<exists>m \<in> set (db_messages (w_db w)). \<exists>now \<ge> w_wall w.
       canon_uuid E (TrimSpace messageID) = Some (msg_ID m) \<and> msg_SenderID m = TrimSpace userID \<and>
       TrimSpace content \<noteq> [] \<and> w_db w' = with_content (msg_ID m) (TrimSpace content) now (w_db w))"
  using assms by (rule message_Edit_effect)

theorem edit_by_sender_only_witness:
  "\<exists>r w'. message_Edit (api_messages sample_env) ''m2'' ''u-ann'' ''hello'' chat_world = (Inr r, w') \<and>
     (\<exists>now. w_db w' = with_content ''m2'' ''hello'' now (w_db chat_world))"
proof -
  have "\<exists>r w'. message_Edit (api_messages sample_env) ''m2'' ''u-ann'' ''hello'' chat_world = (Inr r, w')"
    by (simp add: message_Edit_def message_eval world_eval chat_eval Let_def TrimSpace_graphic graphic_def)
  then obtain r w' where e: "message_Edit (api_messages sample_env) ''m2'' ''u-ann'' ''hello'' chat_world = (Inr r, w')" by blast
  from edit_by_sender_only[OF e] obtain m :: message and now where
    "canon_uuid sample_env ''m2'' = Some (msg_ID m)"
    "w_db w' = with_content (msg_ID m) ''hello'' now (w_db chat_world)" by auto
  with e show ?thesis by (simp add: canon_sample) metis
qed

text \<open>The tables without the message \<open>i\<close> and its receipts.\<close>

definition without_message :: "string \<Rightarrow> database \<Rightarrow> database" where
  "without_message i d = d\<lparr>db_messages := filter (\<lambda>m. msg_ID m \<noteq> i) (db_messages d),
     db_receipts := filter (\<lambda>r. rcp_MessageID r \<noteq> i) (db_receipts d)\<rparr>"

lemma message_Delete_effect:
  assumes "message_Delete (api_messages E) messageID userID w = (r, w')"
  shows "(w_db w' = w_db w \<and> (\<exists>e. r = Inl e)) \<or>
    (\<exists>m \<in> set (db_messages (w_db w)). canon_uuid E (TrimSpace messageID) = Some (msg_ID m) \<and>
       msg_SenderID m = TrimSpace userID \<and> w_db w' = without_message (msg_ID m) (w_db w))"
proof -
  let ?i = "TrimSpace messageID"
  obtain g w1 where g: "own_message (api_messages E) ?i (TrimSpace userID) ErrDeleteNotAllowed w = (g, w1)"
    by fastforce
  have db1: "w_db w1 = w_db w" by (rule own_message_db[OF g])
  show ?thesis
  proof (cases "?i \<noteq> [] \<and> TrimSpace userID \<noteq> [] \<and> (\<exists>m. g = Inr m)")
    case False
    with assms g db1 show ?thesis
      by (auto simp: message_Delete_def Let_def split: if_splits sum.splits)
  next
    case True
    then obtain m where m: "g = Inr m" by blast
    note own = own_message_ok[OF g[unfolded m]]
    obtain q w2 where u: "pg_call E (sql_delete_message E ?i) w1 = (q, w2)" by fastforce
    have eff: "sql_delete_message E ?i d = (Inr (), without_message (msg_ID m) d)" for d
      using own by (simp add: sql_delete_message_def with_uuid_def without_message_def receipts_without_def)
    from pg_call_db[OF u] eff db1
    have db2: "w_db w2 = w_db w \<or> w_db w2 = without_message (msg_ID m) (w_db w)" by auto
    have ok: "w_db w2 = without_message (msg_ID m) (w_db w)" if "q = Inr x" for x
      using pg_call_ok[OF u[unfolded that]] eff db1 by simp
    from assms g m True u have "(\<exists>e. q = Inl e \<and> r = Inl e \<and> w' = w2) \<or> (\<exists>x. q = Inr x \<and> w_db w' = w_db w2)"
      using publish_effect(2)
      by (auto simp: message_Delete_def Let_def MessageRepository_Delete_def err_of_def split: sum.splits)
        (metis snd_conv)+
    then have "w_db w' = w_db w \<and> (\<exists>e. r = Inl e) \<or> w_db w' = without_message (msg_ID m) (w_db w)"
      using db2 ok by (elim disjE exE conjE) simp_all
    then show ?thesis
    proof
      assume "w_db w' = without_message (msg_ID m) (w_db w)"
      with own show ?thesis by (intro disjI2 bexI[of _ m]) simp_all
    qed (rule disjI1)
  qed
qed

text \<open>
  Only the sender can delete a message. Whatever the answer, either the tables are
  unchanged, or the user is the sender of the message and exactly it and its receipts are gone;
  a success is always the latter.
\<close>

theorem delete_by_sender_only:
  assumes "message_Delete (api_messages E) messageID userID w = (r, w')"
  shows "(w_db w' = w_db w \<and> (\<exists>e. r = Inl e)) \<or>
    (\<exists>m \<in> set (db_messages (w_db w)). canon_uuid E (TrimSpace messageID) = Some (msg_ID m) \<and>
       msg_SenderID m = TrimSpace userID \<and> w_db w' = without_message (msg_ID m) (w_db w))"
  using assms by (rule message_Delete_effect)

theorem delete_by_sender_only_witness:
  "\<exists>r w'. message_Delete (api_messages sample_env) ''m2'' ''u-ann'' chat_world = (Inr r, w') \<and>
     map msg_ID (db_messages (w_db w')) = [''m1'', ''m3'']"
proof -
  have "\<exists>r w'. message_Delete (api_messages sample_env) ''m2'' ''u-ann'' chat_world = (Inr r, w')"
    by (simp add: message_Delete_def message_eval world_eval chat_eval Let_def TrimSpace_graphic graphic_def)
  then obtain r w' where e: "message_Delete (api_messages sample_env) ''m2'' ''u-ann'' chat_world = (Inr r, w')" by blast
  from delete_by_sender_only[OF e] obtain m :: message where
    "canon_uuid sample_env ''m2'' = Some (msg_ID m)"
    "w_db w' = without_message (msg_ID m) (w_db chat_world)" by auto
  then have "w_db w' = without_message ''m2'' (w_db chat_world)" by (simp add: canon_sample)
  with e show ?thesis by (simp add: without_message_def chat_eval)
qed

section \<open>Receipts\<close>

lemma wf_receipt_once:
  assumes "wf_db d" and "c \<in> set (db_receipts d)" and "same_receipt i u c"
  shows "filter (same_receipt i u) (db_receipts d) = [c]"
proof -
  have "distinct (map (\<lambda>r. (rcp_MessageID r, rcp_UserID r)) (db_receipts d))"
    using assms(1) by (simp add: wf_db_def)
  from distinct_filter_single[OF this assms(2)] assms(3) show ?thesis
    by (simp add: same_receipt_def[abs_def])
qed

lemma same_receipt_update [simp]:
  "same_receipt i u (c\<lparr>rcp_Status := st, rcp_SeenAt := t\<rparr>) = same_receipt i u c"
  by (simp add: same_receipt_def)

lemma upsert_receipt_rows:
  assumes wf: "wf_db d" and up: "sql_upsert_receipt E c d = (Inr (), d')"
  shows "\<exists>i u. canon_uuid E (rcp_MessageID c) = Some i \<and> canon_uuid E (rcp_UserID c) = Some u \<and>
    map (\<lambda>x. (rcp_Status x, rcp_SeenAt x)) (filter (same_receipt i u) (db_receipts d'))
      = [(rcp_Status c, map_option usec (rcp_SeenAt c))] \<and>
    filter (\<lambda>x. \<not> same_receipt i u x) (db_receipts d') = filter (\<lambda>x. \<not> same_receipt i u x) (db_receipts d) \<and>
    db_messages d' = db_messages d"
proof -
  from up obtain i u where iu: "canon_uuid E (rcp_MessageID c) = Some i" "canon_uuid E (rcp_UserID c) = Some u"
    by (auto simp: sql_upsert_receipt_def with_uuid_def split: option.splits)
  show ?thesis
  proof (cases "list_ex (same_receipt i u) (db_receipts d)")
    case True
    then obtain x where x: "x \<in> set (db_receipts d)" "same_receipt i u x" by (auto simp: list_ex_iff)
    from up iu True have d': "d' = d\<lparr>db_receipts := map (\<lambda>x. if same_receipt i u x
        then x\<lparr>rcp_Status := rcp_Status c, rcp_SeenAt := map_option usec (rcp_SeenAt c)\<rparr> else x) (db_receipts d)\<rparr>"
      by (auto simp: sql_upsert_receipt_def with_uuid_def split: option.splits)
    show ?thesis using iu by (simp add: d' filter_map_update wf_receipt_once[OF wf x])
  next
    case False
    then have "filter (same_receipt i u) (db_receipts d) = []" by (auto simp: list_ex_iff filter_empty_conv)
    moreover from up iu False obtain j where "d' = d\<lparr>db_receipts := db_receipts d @
        [\<lparr>rcp_ID = j, rcp_MessageID = i, rcp_UserID = u, rcp_Status = rcp_Status c,
          rcp_SeenAt = map_option usec (rcp_SeenAt c)\<rparr>]\<rparr>"
      by (auto simp: sql_upsert_receipt_def with_uuid_def split: option.splits if_splits)
    ultimately show ?thesis using iu by (simp add: same_receipt_def)
  qed
qed

text \<open>What an acknowledgement (a receipt, then the status of the message) leaves behind.\<close>

definition acknowledged ::
  "string \<Rightarrow> string \<Rightarrow> message_status \<Rightarrow> time option \<Rightarrow> database \<Rightarrow> database \<Rightarrow> bool" where
  "acknowledged i u st seen d d' \<longleftrightarrow>
     map (\<lambda>x. (rcp_Status x, rcp_SeenAt x)) (filter (same_receipt i u) (db_receipts d')) = [(st, seen)] \<and>
     filter (\<lambda>x. \<not> same_receipt i u x) (db_receipts d') = filter (\<lambda>x. \<not> same_receipt i u x) (db_receipts d) \<and>
     db_messages d' = map (\<lambda>m. if msg_ID m = i then m\<lparr>msg_Status := st\<rparr> else m) (db_messages d)"

lemma acknowledge_steps:
  assumes "wf_db (w_db w)" and "rcp_ID c = []"
    and "MessageRepository_UpsertReceipt E c w = (None, w1)"
    and "MessageRepository_UpdateStatus E (rcp_MessageID c) st w1 = (None, w2)"
    and "rcp_Status c = st"
  shows "\<exists>i u. canon_uuid E (rcp_MessageID c) = Some i \<and> canon_uuid E (rcp_UserID c) = Some u \<and>
    acknowledged i u st (map_option usec (rcp_SeenAt c)) (w_db w) (w_db w2)"
proof -
  obtain j w0 where j: "id_or_new E [] w = (j, w0)" by fastforce
  from assms(2,3) j have c: "pg_call E (sql_upsert_receipt E (c\<lparr>rcp_ID := j\<rparr>)) w0 = (Inr (), w1)"
    by (auto simp: MessageRepository_UpsertReceipt_def err_of_None split: prod.splits)
  have db0: "w_db w0 = w_db w" using id_or_new_frame[OF j] by simp
  from upsert_receipt_rows[OF _ pg_call_ok[OF c]] assms(1) db0 obtain i u where
    r: "canon_uuid E (rcp_MessageID c) = Some i" "canon_uuid E (rcp_UserID c) = Some u"
      "map (\<lambda>x. (rcp_Status x, rcp_SeenAt x)) (filter (same_receipt i u) (db_receipts (w_db w1)))
        = [(rcp_Status c, map_option usec (rcp_SeenAt c))]"
      "filter (\<lambda>x. \<not> same_receipt i u x) (db_receipts (w_db w1)) = filter (\<lambda>x. \<not> same_receipt i u x) (db_receipts (w_db w))"
      "db_messages (w_db w1) = db_messages (w_db w)" by auto
  from assms(4) have "pg_call E (sql_update_message_status E (rcp_MessageID c) st) w1 = (Inr (), w2)"
    by (auto simp: MessageRepository_UpdateStatus_def err_of_None split: prod.splits)
  from pg_call_ok[OF this] r(1) have "w_db w2 = (w_db w1)\<lparr>db_messages :=
      map (\<lambda>m. if msg_ID m = i then m\<lparr>msg_Status := st\<rparr> else m) (db_messages (w_db w1))\<rparr>"
    by (simp add: sql_update_message_status_def with_uuid_def)
  with r assms(5) show ?thesis by (simp add: acknowledged_def)
qed

text \<open>
  After a successful \<open>MarkRead\<close> the message has the status \<open>READ\<close>, and the user has exactly
  one receipt for it, which is \<open>READ\<close> with a time within the call; no other receipt has changed
  and no other message.
\<close>

theorem mark_read_acknowledges:
  assumes "wf_db (w_db w)" and "message_MarkRead (api_messages E) messageID userID w = (None, w')"
  shows "\<exists>i u t. canon_uuid E messageID = Some i \<and> canon_uuid E userID = Some u \<and>
    w_wall w \<le> t \<and> t \<le> w_wall w' \<and>
    acknowledged i u MessageStatusRead (Some (usec t)) (w_db w) (w_db w')"
proof -
  let ?w1 = "pass E w"
  let ?c = "\<lparr>rcp_ID = [], rcp_MessageID = messageID, rcp_UserID = userID,
      rcp_Status = MessageStatusRead, rcp_SeenAt = Some (w_wall ?w1)\<rparr>"
  from assms(2) obtain w2 where u: "MessageRepository_UpsertReceipt E ?c ?w1 = (None, w2)"
    and s: "MessageRepository_UpdateStatus E messageID MessageStatusRead w2 = (None, w')"
    by (auto simp: message_MarkRead_def go_runtime_def Let_def split: if_splits prod.splits option.splits)
  have "w_wall w2 \<le> w_wall w'" "w_wall ?w1 \<le> w_wall w2"
    using withinD[OF MessageRepository_writes(2) s] withinD[OF MessageRepository_writes(3) u]
    by (simp_all add: db_step_def)
  then have "w_wall w \<le> w_wall ?w1" "w_wall ?w1 \<le> w_wall w'" by simp_all
  with acknowledge_steps[of ?w1 ?c E w2 MessageStatusRead w'] u s assms(1) show ?thesis
    by (auto simp del: pass_wall)
qed

text \<open>
  A delivery report is applied without looking at what is stored: after a successful
  \<open>MarkDelivered\<close> the message has the status \<open>DELIVERED\<close> and the receipt of the user has no time
  of reading, also when the message was \<open>READ\<close> and the receipt had one.
\<close>

theorem mark_delivered_overwrites:
  assumes "wf_db (w_db w)" and "message_MarkDelivered (api_messages E) messageID userID w = (None, w')"
  shows "\<exists>i u. canon_uuid E messageID = Some i \<and> canon_uuid E userID = Some u \<and>
    acknowledged i u MessageStatusDelivered None (w_db w) (w_db w')"
proof -
  let ?c = "\<lparr>rcp_ID = [], rcp_MessageID = messageID, rcp_UserID = userID,
      rcp_Status = MessageStatusDelivered, rcp_SeenAt = None\<rparr>"
  from assms(2) obtain w2 where "MessageRepository_UpsertReceipt E ?c w = (None, w2)"
    "MessageRepository_UpdateStatus E messageID MessageStatusDelivered w2 = (None, w')"
    by (auto simp: message_MarkDelivered_def split: if_splits prod.splits option.splits)
  with acknowledge_steps[of w ?c E w2 MessageStatusDelivered w'] assms(1) show ?thesis by simp
qed

lemma sample_read:
  "\<exists>w'. message_MarkRead (api_messages sample_env) ''m1'' ''u-ann'' chat_world = (None, w')"
  by (simp add: message_MarkRead_def message_eval world_eval chat_eval Let_def)

theorem mark_read_acknowledges_witness:
  "\<exists>w' t. message_MarkRead (api_messages sample_env) ''m1'' ''u-ann'' chat_world = (None, w') \<and>
     acknowledged ''m1'' ''u-ann'' MessageStatusRead (Some (usec t)) (w_db chat_world) (w_db w')"
proof -
  obtain w' where r: "message_MarkRead (api_messages sample_env) ''m1'' ''u-ann'' chat_world = (None, w')"
    using sample_read by blast
  from mark_read_acknowledges[OF chat_wf r] r show ?thesis by (auto simp: canon_sample)
qed

theorem mark_delivered_overwrites_witness:
  "\<exists>w1 w2. message_MarkRead (api_messages sample_env) ''m1'' ''u-ann'' chat_world = (None, w1) \<and>
     map msg_Status (db_messages (w_db w1)) = [MessageStatusRead, MessageStatusSent, MessageStatusSent] \<and>
     message_MarkDelivered (api_messages sample_env) ''m1'' ''u-ann'' w1 = (None, w2) \<and>
     acknowledged ''m1'' ''u-ann'' MessageStatusDelivered None (w_db w1) (w_db w2)"
proof -
  have "\<exists>w1 w2. message_MarkRead (api_messages sample_env) ''m1'' ''u-ann'' chat_world = (None, w1) \<and>
     map msg_Status (db_messages (w_db w1)) = [MessageStatusRead, MessageStatusSent, MessageStatusSent] \<and>
     message_MarkDelivered (api_messages sample_env) ''m1'' ''u-ann'' w1 = (None, w2)"
    by (simp add: message_MarkRead_def message_MarkDelivered_def message_eval world_eval chat_eval
        Let_def same_receipt_def)
  then obtain w1 w2 where w: "message_MarkRead (api_messages sample_env) ''m1'' ''u-ann'' chat_world = (None, w1)"
    "map msg_Status (db_messages (w_db w1)) = [MessageStatusRead, MessageStatusSent, MessageStatusSent]"
    "message_MarkDelivered (api_messages sample_env) ''m1'' ''u-ann'' w1 = (None, w2)"
    by (elim exE conjE) (rule that)
  have wf: "wf_db (w_db w1)"
    using withinD[OF messages.MarkRead_within w(1)] chat_wf by (simp add: db_step_def)
  from mark_delivered_overwrites[OF wf w(3)] w show ?thesis by (auto simp: canon_sample)
qed

section \<open>Listing by page\<close>

lemma limit_offset_ok:
  "limit_offset l off rows = Inr xs \<Longrightarrow> xs = take (nat l) (drop (nat off) rows) \<and> 0 \<le> l \<and> 0 \<le> off"
  by (simp add: limit_offset_def split: if_splits)

text \<open>When no two messages were created at the same time, the order of a result is determined.\<close>

lemma newest_first_determined:
  assumes "distinct (map msg_CreatedAt ms)"
  shows "newest_first E n ms = rev (sort_key msg_CreatedAt ms)"
proof -
  have inj: "inj_on (\<lambda>m. - msg_CreatedAt m) (set (arrange E n msg_ID ms))"
    using assms by (auto simp: distinct_map inj_on_def)
  have "sorted_wrt (\<lambda>x y. msg_CreatedAt x \<le> msg_CreatedAt y) (sort_key msg_CreatedAt ms)"
    using sorted_sort_key[of msg_CreatedAt ms] by (simp only: sorted_map)
  then have "sorted (map (\<lambda>m. - msg_CreatedAt m) (rev (sort_key msg_CreatedAt ms)))"
    unfolding sorted_map sorted_wrt_rev by simp
  with inj show ?thesis
    unfolding newest_first_def by (intro sort_key_inj_key_eq) simp_all
qed

text \<open>
  C30: A page of a room's messages is the window of the messages in the order of creation, newest
  first, that starts after the pages before it: for a page number from 1 and a positive limit
  whose offset fits in 64 bits, and when no two messages of the room were created at once. The
  pages of one limit therefore are disjoint and cover the room.
\<close>

theorem page_is_window:
  assumes "message_ListByRoom (api_messages E) roomID page limit w = (Inr ms, w')"
    and "canon_uuid E roomID = Some r"
    and "distinct (map msg_CreatedAt (room_messages r (w_db w)))"
    and "1 \<le> page" and "0 < limit" and "(page - 1) * limit < 2 ^ 63"
  shows "ms = take (nat limit) (drop (nat ((page - 1) * limit))
    (rev (sort_key msg_CreatedAt (room_messages r (w_db w)))))"
proof -
  have "list_limit limit = limit" using assms(5) by (simp add: list_limit_def)
  then have c: "pg_call E (sql_list_messages E (w_tick w) roomID limit ((page - 1) * limit)) w = (Inr ms, w')"
    using assms(1) list_offset_exact[OF assms(4,5,6)]
    by (auto simp: message_ListByRoom_def Let_def MessageRepository_ListByRoom_def split: if_splits)
  from pg_call_ok[OF c] assms(2)
  have "limit_offset limit ((page - 1) * limit) (newest_first E (w_tick w) (room_messages r (w_db w))) = Inr ms"
    by (auto simp: sql_list_messages_def with_uuid_def)
  from limit_offset_ok[OF this] newest_first_determined[OF assms(3)] show ?thesis by simp
qed

theorem page_is_window_witness:
  "\<exists>ms w'. message_ListByRoom (api_messages sample_env) ''r1'' 2 2 chat_world = (Inr ms, w') \<and>
     ms = take 2 (drop 2 (rev (sort_key msg_CreatedAt (room_messages ''r1'' (w_db chat_world)))))"
proof -
  have off: "list_offset 2 2 = 2" "list_limit 2 = 2" by (simp_all add: list_offset_def wrap64_def list_limit_def)
  have "\<exists>ms w'. message_ListByRoom (api_messages sample_env) ''r1'' 2 2 chat_world = (Inr ms, w')"
    by (simp add: message_ListByRoom_def message_eval MessageRepository_ListByRoom_def sql_list_messages_def
        limit_offset_def world_eval chat_eval Let_def off)
  then obtain ms w' where l: "message_ListByRoom (api_messages sample_env) ''r1'' 2 2 chat_world = (Inr ms, w')" by blast
  have "distinct (map msg_CreatedAt (room_messages ''r1'' (w_db chat_world)))"
    by (simp add: room_messages_def chat_eval)
  from page_is_window[OF l _ this] l show ?thesis by (simp add: canon_sample)
qed

text \<open>
  The offset is computed in 64 bits, so page numbers the handler accepts wrap around: with a
  limit of 4, page 4611686018427387905 is answered with the first page, and with a limit of 2 it
  is answered with an error, because the offset is negative.
\<close>

theorem page_offset_wraps:
  "message_ListByRoom s roomID (2 ^ 62 + 1) 4 = message_ListByRoom s roomID 1 4 \<and>
   list_offset (2 ^ 62 + 1) 2 = - (2 ^ 63) \<and>
   (\<exists>e w'. message_ListByRoom (api_messages E) roomID (2 ^ 62 + 1) 2 w = (Inl e, w'))"
proof -
  have o: "list_offset (2 ^ 62 + 1) 4 = list_offset 1 4" "list_offset (2 ^ 62 + 1) 2 = - (2 ^ 63)"
    by (simp_all add: list_offset_def wrap64_def)
  then have "message_ListByRoom s roomID (2 ^ 62 + 1) 4 = message_ListByRoom s roomID 1 4"
    by (intro ext) (simp add: message_ListByRoom_def list_limit_def Let_def)
  moreover have "\<exists>e w'. message_ListByRoom (api_messages E) roomID (2 ^ 62 + 1) 2 w = (Inl e, w')"
  proof (cases "blank roomID")
    case False
    have neg: "\<exists>e. fst (sql_list_messages E n roomID 2 (- (2 ^ 63)) d) = Inl e" for n d
      by (simp add: sql_list_messages_def with_uuid_def limit_offset_def split: option.splits)
    obtain q w' where c: "pg_call E (sql_list_messages E (w_tick w) roomID 2 (- (2 ^ 63))) w = (q, w')" by fastforce
    have "\<nexists>x. q = Inr x" using pg_call_ok[of E _ w _ w'] c neg by (metis fst_conv sum.distinct(1))
    with c False o(2) show ?thesis
      by (cases q) (simp_all add: message_ListByRoom_def list_limit_def Let_def MessageRepository_ListByRoom_def)
  qed (simp add: message_ListByRoom_def)
  ultimately show ?thesis using o(2) by blast
qed

section \<open>Listing around a message\<close>

text \<open>What a limited query in the order of a key has left out comes after what it returned.\<close>

lemma take_sorted_rest:
  assumes "x \<in> set xs" and "x \<notin> set (take n (sort_key f xs))"
  shows "length (take n (sort_key f xs)) = n \<and> (\<forall>y \<in> set (take n (sort_key f xs)). f y \<le> f x)"
proof -
  let ?s = "sort_key f xs"
  have "x \<in> set (drop n ?s)" using assms by (metis Un_iff append_take_drop_id set_append set_sort)
  moreover from this have "n < length ?s" by (metis drop_eq_Nil2 empty_iff empty_set not_less)
  moreover have "sorted (map f (take n ?s) @ map f (drop n ?s))"
    using sorted_sort_key[of f xs] by (simp add: map_append[symmetric] del: map_append)
  ultimately show ?thesis by (auto simp: sorted_append)
qed

definition nearest_before :: "message list \<Rightarrow> time \<Rightarrow> int \<Rightarrow> message list \<Rightarrow> bool" where
  "nearest_before room t n ms \<longleftrightarrow>
     length ms \<le> nat n \<and> sorted (map msg_CreatedAt ms) \<and>
     (\<forall>m \<in> set ms. m \<in> set room \<and> msg_CreatedAt m < t) \<and>
     (\<forall>x \<in> set room. msg_CreatedAt x < t \<and> x \<notin> set ms \<longrightarrow>
        length ms = nat n \<and> (\<forall>m \<in> set ms. msg_CreatedAt x \<le> msg_CreatedAt m))"

definition nearest_after :: "message list \<Rightarrow> time \<Rightarrow> int \<Rightarrow> message list \<Rightarrow> bool" where
  "nearest_after room t n ms \<longleftrightarrow>
     length ms \<le> nat n \<and> sorted (map msg_CreatedAt ms) \<and>
     (\<forall>m \<in> set ms. m \<in> set room \<and> t < msg_CreatedAt m) \<and>
     (\<forall>x \<in> set room. t < msg_CreatedAt x \<and> x \<notin> set ms \<longrightarrow>
        length ms = nat n \<and> (\<forall>m \<in> set ms. msg_CreatedAt m \<le> msg_CreatedAt x))"

lemma sorted_take_neg: "sorted (map f (rev (take n (sort_key (\<lambda>x. - f x) xs))))" for f :: "'a \<Rightarrow> int"
proof -
  have "sorted (map (\<lambda>x. - f x) (take n (sort_key (\<lambda>x. - f x) xs)))"
    by (simp add: take_map[symmetric] sorted_wrt_take)
  then show ?thesis unfolding sorted_map sorted_wrt_rev by simp
qed

lemma list_before_nearest:
  assumes "list_before E i t n w = (Inr ms, w')" and "canon_uuid E i = Some r"
  shows "nearest_before (room_messages r (w_db w)) t n ms"
proof (cases "n > 0")
  case False
  with assms show ?thesis by (auto simp: list_before_def nearest_before_def split: if_splits)
next
  case True
  let ?c = "filter (\<lambda>m. msg_CreatedAt m < t) (room_messages r (w_db w))"
  let ?a = "arrange E (w_tick w) msg_ID ?c"
  from assms(1) True obtain xs w1 where
    c: "pg_call E (sql_messages_before E (w_tick w) i t n) w = (Inr xs, w1)" and ms: "ms = rev xs"
    by (auto simp: list_before_def reverse_in_place_rev split: if_splits prod.splits sum.splits)
  from pg_call_ok[OF c] assms(2) True have xs: "xs = take (nat n) (sort_key (\<lambda>m. - msg_CreatedAt m) ?a)"
    by (auto simp: sql_messages_before_def with_uuid_def newest_first_def dest!: limit_offset_ok)
  have sub: "set xs \<subseteq> set ?c" unfolding xs by (metis arrange_set set_sort set_take_subset)
  have "length ms = nat n \<and> (\<forall>m \<in> set ms. msg_CreatedAt x \<le> msg_CreatedAt m)"
    if "x \<in> set (room_messages r (w_db w))" "msg_CreatedAt x < t" "x \<notin> set ms" for x
    using take_sorted_rest[of x ?a "nat n" "\<lambda>m. - msg_CreatedAt m"] that by (simp add: xs ms)
  moreover have "sorted (map msg_CreatedAt ms)" unfolding ms xs by (rule sorted_take_neg)
  moreover have "length ms \<le> nat n" by (simp add: ms xs)
  ultimately show ?thesis using sub by (auto simp: nearest_before_def ms)
qed

lemma list_after_nearest:
  assumes "list_after E i t n w = (Inr ms, w')" and "canon_uuid E i = Some r"
  shows "nearest_after (room_messages r (w_db w)) t n ms"
proof (cases "n > 0")
  case False
  with assms show ?thesis by (auto simp: list_after_def nearest_after_def split: if_splits)
next
  case True
  let ?c = "filter (\<lambda>m. t < msg_CreatedAt m) (room_messages r (w_db w))"
  let ?a = "arrange E (w_tick w) msg_ID ?c"
  from assms(1) True have c: "pg_call E (sql_messages_after E (w_tick w) i t n) w = (Inr ms, w')"
    by (auto simp: list_after_def split: if_splits)
  from pg_call_ok[OF c] assms(2) have ms: "ms = take (nat n) (sort_key msg_CreatedAt ?a)"
    by (auto simp: sql_messages_after_def with_uuid_def oldest_first_def dest!: limit_offset_ok)
  have sub: "set ms \<subseteq> set ?c" unfolding ms by (metis arrange_set set_sort set_take_subset)
  have "length ms = nat n \<and> (\<forall>m \<in> set ms. msg_CreatedAt m \<le> msg_CreatedAt x)"
    if "x \<in> set (room_messages r (w_db w))" "t < msg_CreatedAt x" "x \<notin> set ms" for x
    using take_sorted_rest[of x ?a "nat n" msg_CreatedAt] that by (simp add: ms)
  moreover have "sorted (map msg_CreatedAt ms)" by (simp add: ms take_map[symmetric] sorted_wrt_take)
  moreover have "length ms \<le> nat n" by (simp add: ms)
  ultimately show ?thesis using sub by (auto simp: nearest_after_def)
qed

lemma ListAround_split:
  assumes "MessageRepository_ListAround E i j b a w = (Inr ms, w')"
  obtains t w1 w2 bs as where "ms = bs @ [t] @ as" "msg_RoomID t = i"
    "t \<in> set (db_messages (w_db w))" "canon_uuid E j = Some (msg_ID t)"
    "list_before E i (msg_CreatedAt t) b w1 = (Inr bs, w2)" "w_db w1 = w_db w"
    "list_after E i (msg_CreatedAt t) a w2 = (Inr as, w')" "w_db w2 = w_db w"
proof -
  obtain g w1 where g: "pg_call E (sql_message_by_id E j) w = (g, w1)" by fastforce
  with assms obtain t where t: "g = Inr t" "msg_RoomID t = i"
    by (auto simp: MessageRepository_ListAround_def split: sum.splits if_splits)
  from pg_call_ok[OF g[unfolded t]] have f: "t \<in> set (db_messages (w_db w))" "canon_uuid E j = Some (msg_ID t)"
    by (auto simp: sql_message_by_id_def with_uuid_def split: option.splits dest!: head_row_Inr)
  have db1: "w_db w1 = w_db w" using pg_call_reads[OF g] by simp
  from assms g t obtain bs w2 where b: "list_before E i (msg_CreatedAt t) b w1 = (Inr bs, w2)"
    by (auto simp: MessageRepository_ListAround_def split: prod.splits sum.splits)
  with assms g t obtain as where "list_after E i (msg_CreatedAt t) a w2 = (Inr as, w')" "ms = bs @ [t] @ as"
    by (auto simp: MessageRepository_ListAround_def split: prod.splits sum.splits)
  moreover have "w_db w2 = w_db w" using around_steps(1)[OF b, of id] db1 by simp
  ultimately show thesis using that[OF _ t(2) f b db1] by blast
qed

text \<open>
  C31: The window around a message consists of the nearest earlier messages of the room, the
  message itself and the nearest later ones, oldest first: at most half of the limit before it,
  at most the rest after it, and never more than the limit in all; a message of the room that was
  left out on one side is no nearer than those shown on that side, which then fill their share.
\<close>

theorem around_window:
  assumes "message_ListAround (api_messages E) roomID messageID limit w = (Inr ms, w')"
    and "in_int64 limit" and "canon_uuid E (TrimSpace roomID) = Some r"
  shows "\<exists>bs t as. ms = bs @ [t] @ as \<and> canon_uuid E (TrimSpace messageID) = Some (msg_ID t) \<and>
    t \<in> set (db_messages (w_db w)) \<and> msg_RoomID t = TrimSpace roomID \<and>
    nearest_before (room_messages r (w_db w)) (msg_CreatedAt t) (list_limit limit div 2) bs \<and>
    nearest_after (room_messages r (w_db w)) (msg_CreatedAt t)
      (list_limit limit - list_limit limit div 2 - 1) as \<and>
    length ms \<le> nat (list_limit limit)"
proof -
  let ?l = "list_limit limit"
  note sp = around_split[OF list_limit_pos list_limit_range[OF assms(2)]]
  have b: "around_before ?l = ?l div 2"
    using list_limit_pos[of limit] by (simp add: around_before_def trunc_div_nonneg)
  from assms(1) have "MessageRepository_ListAround E (TrimSpace roomID) (TrimSpace messageID)
      (around_before ?l) (around_after ?l) w = (Inr ms, w')"
    by (auto simp: message_ListAround_def Let_def split: if_splits)
  then obtain t w1 w2 bs as where sp2: "ms = bs @ [t] @ as" "msg_RoomID t = TrimSpace roomID"
    "t \<in> set (db_messages (w_db w))" "canon_uuid E (TrimSpace messageID) = Some (msg_ID t)"
    "list_before E (TrimSpace roomID) (msg_CreatedAt t) (around_before ?l) w1 = (Inr bs, w2)" "w_db w1 = w_db w"
    "list_after E (TrimSpace roomID) (msg_CreatedAt t) (around_after ?l) w2 = (Inr as, w')" "w_db w2 = w_db w"
    by (rule ListAround_split)
  have nb: "nearest_before (room_messages r (w_db w)) (msg_CreatedAt t) (?l div 2) bs"
    using list_before_nearest[OF sp2(5) assms(3)] sp2(6) b by simp
  have a: "around_after ?l = ?l - ?l div 2 - 1" using sp(3) b by linarith
  have na: "nearest_after (room_messages r (w_db w)) (msg_CreatedAt t) (?l - ?l div 2 - 1) as"
    using list_after_nearest[OF sp2(7) assms(3)] sp2(8) a by simp
  have "length ms \<le> nat ?l"
    using nb na sp(1,2) a b list_limit_pos[of limit]
    by (auto simp: nearest_before_def nearest_after_def sp2(1))
  with nb na sp2 show ?thesis by blast
qed

theorem around_window_witness:
  "\<exists>w' bs t as. message_ListAround (api_messages sample_env) ''r1'' ''m2'' 3 chat_world = (Inr (bs @ [t] @ as), w') \<and>
     msg_ID t = ''m2'' \<and> nearest_before (room_messages ''r1'' (w_db chat_world)) (msg_CreatedAt t) 1 bs"
proof -
  have l: "around_before 3 = 1" "around_after 3 = 1" "list_limit 3 = 3"
    by (simp_all add: around_before_def around_after_def trunc_div_def list_limit_def wrap64_def)
  have "\<exists>ms w'. message_ListAround (api_messages sample_env) ''r1'' ''m2'' 3 chat_world = (Inr ms, w')"
    by (simp add: message_ListAround_def message_eval MessageRepository_ListAround_def list_before_def
        list_after_def sql_messages_before_def sql_messages_after_def limit_offset_def makeslice_ok_def
        world_eval chat_eval Let_def l)
  then obtain ms w' where m: "message_ListAround (api_messages sample_env) ''r1'' ''m2'' 3 chat_world = (Inr ms, w')"
    by blast
  have "in_int64 3" "canon_uuid sample_env (TrimSpace ''r1'') = Some ''r1''"
    by (simp_all add: in_int64_def canon_sample)
  from around_window[OF m this] obtain bs t as where "ms = bs @ [t] @ as" "Some (msg_ID t) = Some ''m2''"
    "nearest_before (room_messages ''r1'' (w_db chat_world)) (msg_CreatedAt t) 1 bs"
    by (auto simp: canon_sample l)
  with m show ?thesis by auto
qed

text \<open>
  The limit of a window is not bounded: with one so large that half of it times the 152
  bytes of a message exceeds the address space, a request for a message that is in the room ends
  in a run-time panic instead of an answer.
\<close>

theorem around_huge_limit_panics:
  assumes "2 ^ 42 \<le> limit" and "in_int64 limit"
    and "TrimSpace messageID \<noteq> []" and "TrimSpace roomID \<noteq> []"
    and "canon_uuid E (TrimSpace messageID) = Some (msg_ID t)"
    and "wf_db (w_db w)" and "t \<in> set (db_messages (w_db w))"
    and "msg_RoomID t = TrimSpace roomID" and "pg_fate E (w_tick w) = Done"
  shows "\<exists>w'. message_ListAround (api_messages E) roomID messageID limit w = (Inl makeslice_panic, w')"
proof -
  have "list_limit limit = limit" using assms(1) by (simp add: list_limit_def)
  moreover have "around_before limit = limit div 2"
    using assms(1) by (simp add: around_before_def trunc_div_nonneg)
  moreover have "\<not> makeslice_ok (limit div 2)" using assms(1) by (simp add: makeslice_ok_def)
  moreover have "filter (\<lambda>m. msg_ID m = msg_ID t) (db_messages (w_db w)) = [t]"
    using assms(6,7) by (intro distinct_filter_single) (simp_all add: wf_db_def)
  then have "sql_message_by_id E (TrimSpace messageID) (w_db w) = (Inr t, w_db w)"
    using assms(5) by (simp add: sql_message_by_id_def with_uuid_def head_row_def)
  then have "\<exists>w1. pg_call E (sql_message_by_id E (TrimSpace messageID)) w = (Inr t, w1)"
    using assms(9) by (simp add: pg_call_def Let_def)
  ultimately show ?thesis using assms(3,4,8)
    by (auto simp: message_ListAround_def Let_def MessageRepository_ListAround_def list_before_def)
qed

theorem around_huge_limit_panics_witness:
  "\<exists>w'. message_ListAround (api_messages sample_env) ''r1'' ''m2'' (2 ^ 42) chat_world = (Inl makeslice_panic, w')"
  by (rule around_huge_limit_panics[where t = "sample_message ''m2'' ''r1'' ''u-ann'' 2000"])
    (simp_all add: in_int64_def canon_sample chat_wf, simp_all add: chat_eval sample_env_def)

section \<open>Searching\<close>

lemma sql_search_messages_ok:
  assumes "sql_search_messages E n user room q lim d = (Inr ms, d')"
  shows "\<exists>u rows. canon_uuid E user = Some u \<and>
    (\<forall>m \<in> set rows. m \<in> set (db_messages d) \<and>
       (\<exists>x \<in> set (db_members d). mem_RoomID x = msg_RoomID m \<and> mem_UserID x = u) \<and>
       (room = [] \<or> msg_RoomID m = room) \<and> ilike E (msg_Content m) q) \<and>
    ms = take (nat lim) (sort_key (\<lambda>m. - msg_CreatedAt m) rows)"
proof -
  from assms obtain u where u: "canon_uuid E user = Some u"
    by (auto simp: sql_search_messages_def with_uuid_def split: option.splits)
  let ?rows = "arrange E n msg_ID [m. m \<leftarrow> db_messages d, rm \<leftarrow> db_members d,
      msg_RoomID m = mem_RoomID rm \<and> mem_UserID rm = u \<and>
      (room = [] \<or> msg_RoomID m = room) \<and> ilike E (msg_Content m) q]"
  have "ms = take (nat lim) (sort_key (\<lambda>m. - msg_CreatedAt m) ?rows)"
    using assms u
    by (auto simp: sql_search_messages_def with_uuid_def limit_offset_def newest_first_def split: if_splits)
  with u show ?thesis by (intro exI[of _ u] exI[of _ ?rows]) auto
qed

text \<open>
  C38: A search returns at most 100 messages, newest first, and only messages that match the
  query in rooms the user is a member of (in the given room only, when one is given).
\<close>

theorem message_search_scope:
  assumes "message_Search (api_messages E) userID roomID query limit w = (Inr ms, w')"
  shows "w_db w' = w_db w \<and> length ms \<le> 100 \<and>
    sorted_wrt (\<lambda>a b. msg_CreatedAt b \<le> msg_CreatedAt a) ms \<and>
    (\<forall>m \<in> set ms. m \<in> set (db_messages (w_db w)) \<and>
       (\<exists>x \<in> set (db_members (w_db w)). mem_RoomID x = msg_RoomID m \<and>
          canon_uuid E (TrimSpace userID) = Some (mem_UserID x)) \<and>
       (TrimSpace roomID = [] \<or> msg_RoomID m = TrimSpace roomID) \<and>
       ilike E (msg_Content m) (TrimSpace query))"
proof -
  from assms have c: "pg_call E (sql_search_messages E (w_tick w) (TrimSpace userID) (TrimSpace roomID)
      (TrimSpace query) (message_search_limit limit)) w = (Inr ms, w')"
    by (auto simp: message_Search_def Let_def MessageRepository_Search_def split: if_splits)
  from pg_call_reads[OF c] have db: "w_db w' = w_db w" by simp
  from sql_search_messages_ok[OF pg_call_ok[OF c]] obtain u rows where
    u: "canon_uuid E (TrimSpace userID) = Some u"
    and rows: "\<forall>m \<in> set rows. m \<in> set (db_messages (w_db w)) \<and>
       (\<exists>x \<in> set (db_members (w_db w)). mem_RoomID x = msg_RoomID m \<and> mem_UserID x = u) \<and>
       (TrimSpace roomID = [] \<or> msg_RoomID m = TrimSpace roomID) \<and> ilike E (msg_Content m) (TrimSpace query)"
    and ms: "ms = take (nat (message_search_limit limit)) (sort_key (\<lambda>m. - msg_CreatedAt m) rows)"
    by blast
  have "sorted (map (\<lambda>m. - msg_CreatedAt m) (take n (sort_key (\<lambda>m. - msg_CreatedAt m) rows)))" for n
    by (simp add: take_map[symmetric] sorted_wrt_take)
  then have "sorted_wrt (\<lambda>a b. msg_CreatedAt b \<le> msg_CreatedAt a) ms"
    unfolding ms sorted_map by simp
  moreover have "length ms \<le> 100" using message_search_limit_bounds[of limit] ms by auto
  moreover have "set ms \<subseteq> set rows" unfolding ms by (metis set_sort set_take_subset)
  ultimately show ?thesis using db u rows by blast
qed

theorem message_search_scope_witness:
  "\<exists>ms w'. message_Search (api_messages sample_env) ''u-bob'' [] ''hi'' 0 chat_world = (Inr ms, w') \<and>
     map msg_ID ms = [''m3'', ''m2'', ''m1''] \<and> length ms \<le> 100"
proof -
  have "\<exists>ms w'. message_Search (api_messages sample_env) ''u-bob'' [] ''hi'' 0 chat_world = (Inr ms, w') \<and>
     map msg_ID ms = [''m3'', ''m2'', ''m1'']"
    by (simp add: message_Search_def message_eval world_eval chat_eval MessageRepository_Search_def
        sql_search_messages_def limit_offset_def message_search_limit_def list_limit_def
        defaultListLimit_def message_maxSearchLimit_def Let_def newest_first_def arrange_def
        TrimSpace_graphic graphic_def has_prefix_def)
  then obtain ms w' where a: "message_Search (api_messages sample_env) ''u-bob'' [] ''hi'' 0 chat_world = (Inr ms, w')"
    and b: "map msg_ID ms = [''m3'', ''m2'', ''m1'']" by (elim exE conjE) (rule that)
  from message_search_scope[OF a] a b show ?thesis by (intro exI[of _ ms] exI[of _ w']) simp
qed

end
