(* ===== verification/Api_State.thy ===== *)
theory Api_State
  imports Auth_Properties Auth_Steps User_Service Message_Properties
begin

text \<open>
  The services together over one database: every operation of every service keeps the
  constraints of the tables, whatever requests to Redis and Postgres fail.
\<close>

abbreviation keeps_tables :: "world \<Rightarrow> world \<Rightarrow> bool" where
  "keeps_tables \<equiv> carries (\<lambda>w. wf_db (w_db w))"

lemma db_step_carries: "within (db_step p) f \<Longrightarrow> within keeps_tables f"
  by (simp add: within_def db_step_def carries_def)

lemma quiet_carries: "(\<And>w. w_db (snd (f w)) = w_db w) \<Longrightarrow> within keeps_tables f"
  by (simp add: within_def carries_def)

lemma redis_quiet:
  "w_db (snd (cache_Get (NewCache (redis_srv E)) k w)) = w_db w"
  "w_db (snd (cache_Set (NewCache (redis_srv E)) k v t w)) = w_db w"
  "w_db (snd (cache_Delete (NewCache (redis_srv E)) k w)) = w_db w"
  by (auto simp: redis_defs split: prod.splits sum.splits option.splits)

interpretation auth: auth_steps keeps_tables "api_auth E A R" for E A R
proof unfold_locales
  show "within keeps_tables (cache_Get (as_cache (api_auth E A R)) k)" for k
    by (rule quiet_carries) (simp add: redis_quiet)
  show "within keeps_tables (cache_Set (as_cache (api_auth E A R)) k v t)" for k v t
    by (rule quiet_carries) (simp add: redis_quiet)
  show "within keeps_tables (cache_Delete (as_cache (api_auth E A R)) k)" for k
    by (rule quiet_carries) (simp add: redis_quiet)
  show "within keeps_tables (rt_now (as_rt (api_auth E A R)))"
    by (rule quiet_carries) (simp add: go_runtime_def Let_def)
  show "within keeps_tables (rt_rand (as_rt (api_auth E A R)))"
    by (rule quiet_carries) (simp add: go_runtime_def)
  show "within keeps_tables (rt_bcrypt_gen (as_rt (api_auth E A R)) p)" for p
    by (rule quiet_carries) (simp add: go_runtime_def)
qed (auto intro!: db_step_carries UserRepository_steps simp: NewUserRepository_def)

section \<open>A sample state with a session\<close>

definition token_world :: world where
  "token_world = chat_world\<lparr>w_keys := [accessKey ''tok'' \<mapsto> (''u-ann'', None)]\<rparr>"

end
