(* ===== verification/Http_Properties.thy ===== *)
theory Http_Properties
  imports Http_Steps Api_State Room_Properties
begin

text \<open>
  The API server as \<open>startAPIServer\<close> wires it, over Postgres and Redis, and what its requests do.
\<close>

section \<open>Wiring\<close>

definition api_services :: "env \<Rightarrow> int \<Rightarrow> int \<Rightarrow> world services" where
  "api_services E A R =
     \<lparr>svc_Auth = NewAuthUseCase (api_auth E A R), svc_User = NewUserUseCase (api_users E),
      svc_Room = NewRoomUseCase (api_rooms E), svc_Message = NewMessageUseCase (api_messages E)\<rparr>"

definition startAPIServer ::
  "env \<Rightarrow> int \<Rightarrow> int \<Rightarrow> string \<Rightarrow> 'l rate_lib \<Rightarrow> (world, 'l) api_server" where
  "startAPIServer E A R origins lib =
     \<lparr>srv_services = api_services E A R, srv_rt = go_runtime E,
      srv_origins = parseAllowedOrigins origins, srv_lib = lib\<rparr>"

lemma api_services_simps [simp]:
  "svc_Auth (api_services E A R) = NewAuthUseCase (api_auth E A R)"
  "svc_User (api_services E A R) = NewUserUseCase (api_users E)"
  "svc_Room (api_services E A R) = NewRoomUseCase (api_rooms E)"
  "svc_Message (api_services E A R) = NewMessageUseCase (api_messages E)"
  by (simp_all add: api_services_def)

lemmas service_steps = rooms.room_within messages.message_within users.GetByID_within
  users.GetByEmail_within users.UpdateStatus_within now_step

interpretation tables: use_case_steps keeps_tables "api_services E A R" "go_runtime E" for E A R
  by unfold_locales
    (simp_all add: use_case_defs auth.auth_within service_steps[THEN db_step_carries])

lemma db_step_announces: "within (db_step p) f \<Longrightarrow> within announces f"
  by (simp add: within_def db_step_def)

interpretation talk_auth: auth_steps announces "api_auth E A R" for E A R
proof unfold_locales
  show "within announces (cache_Get (as_cache (api_auth E A R)) k)"
    "within announces (cache_Set (as_cache (api_auth E A R)) k v t)"
    "within announces (cache_Delete (as_cache (api_auth E A R)) k)"
    "within announces (rt_now (as_rt (api_auth E A R)))"
    "within announces (rt_rand (as_rt (api_auth E A R)))"
    "within announces (rt_bcrypt_gen (as_rt (api_auth E A R)) p)" for k v t p
    by (auto simp: within_def go_runtime_def Let_def redis_defs intro!: announces_quiet
        split: prod.splits sum.splits option.splits)
qed (auto intro!: db_step_announces UserRepository_steps simp: NewUserRepository_def)

interpretation talk: use_case_steps announces "api_services E A R" "go_runtime E" for E A R
  by unfold_locales
    (simp_all add: use_case_defs talk_auth.auth_within service_steps[THEN db_step_announces])

section \<open>The constraints of the database\<close>

text \<open>A run of the server: requests one after the other, with the answers.\<close>

fun serve_all ::
  "(world, 'l) api_server \<Rightarrow> http_request list \<Rightarrow> 'l rate_limiter \<Rightarrow> world \<Rightarrow> response list \<times> world" where
  "serve_all srv [] rl w = ([], w)"
| "serve_all srv (r # rs) rl w =
     (case serve_api srv r rl w of (rsp, rl1, w1) \<Rightarrow>
      case serve_all srv rs rl1 w1 of (rsps, w2) \<Rightarrow> (rsp # rsps, w2))"


section \<open>Authentication\<close>

lemma get_quiet:
  "cache_Get (NewCache (redis_srv E)) k w = (x, w') \<Longrightarrow>
   w_keys w' = w_keys w \<and> w_db w' = w_db w \<and> w_log w' = w_log w"
  by (auto simp: redis_defs split: option.splits fate.splits if_splits prod.splits)

lemma validation_refused:
  assumes "live_value (w_keys w) (w_wall w) (accessKey (TrimSpace tok)) = None"
    and "auth_ValidateAccessToken (api_auth E A R) tok w = (x, w')"
  shows "(\<exists>e. x = Inl e) \<and> w_keys w' = w_keys w \<and> w_db w' = w_db w \<and> w_log w' = w_log w"
proof -
  have no: "x \<noteq> Inr u" for u
  proof
    assume "x = Inr u"
    with assms(2) have "auth_ValidateAccessToken (api_auth E A R) tok w = (Inr u, w')" by simp
    from ra.validate_accepts[OF this] assms(1) show False by simp
  qed
  obtain g w1 where g: "cache_Get (NewCache (redis_srv E)) (accessKey (TrimSpace tok)) w = (g, w1)" by fastforce
  have "g \<noteq> Inr u" for u
  proof
    assume "g = Inr u"
    with g have "live_value (w_keys w) (w_wall w) (accessKey (TrimSpace tok)) = Some u"
      using rc.get_hit[of E "accessKey (TrimSpace tok)" w u w1] rc.get_clock[of w E "accessKey (TrimSpace tok)"]
        live_value_mono by (metis snd_conv)
    with assms(1) show False by simp
  qed
  then obtain e where "g = Inl e" by (cases g) auto
  with g get_quiet[OF g] assms(2) no show ?thesis
    by (cases x) (auto simp: auth_ValidateAccessToken_def Let_def split: if_splits)
qed

text \<open>
  C5: A request to a protected route whose token is not live in Redis is refused (401, or 429 by
  the limiter) and leaves everything as it was: no table, no key of Redis changes and nothing is
  published.
\<close>

theorem protected_routes_need_token:
  assumes "find_route protected_routes r = Some (e, c)"
    and "live_value (w_keys w) (w_wall w) (accessKey (request_token r)) = None"
    and "serve_api (startAPIServer E A R origins lib) r rl w = (rsp, rl', w')"
  shows "rs_Status rsp \<in> {401, 429} \<and> w_db w' = w_db w \<and> w_keys w' = w_keys w \<and> w_log w' = w_log w"
proof -
  let ?svc = "api_services E A R" and ?w1 = "pass E w"
  note meth = protected_not_preflight[OF assms(1)]
  have tok: "TrimSpace (request_token r) = request_token r"
    by (simp add: request_token_def Let_def extractBearerToken_def)
  have none: "live_value (w_keys ?w1) (w_wall ?w1) (accessKey (request_token r)) = None"
    by (rule live_value_None_mono[of _ "w_wall w"]) (use assms(2) in auto)
  obtain x w2 where v: "auth_ValidateAccessToken (api_auth E A R) (request_token r) ?w1 = (x, w2)" by fastforce
  from validation_refused[OF _ v] none tok obtain err where x: "x = Inl err"
    "w_keys w2 = w_keys w" "w_db w2 = w_db w" "w_log w2 = w_log w" by auto
  have ctx: "ctx_req c = r" using find_route_from[OF assms(1)] by auto
  have "rs_Status rsp1 = 401 \<and> w_db w3 = w_db w \<and> w_keys w3 = w_keys w \<and> w_log w3 = w_log w"
    if "RegisterRoutes ?svc fmt r ?w1 = (rsp1, w3)" for fmt rsp1 w3
    using that v x ctx
    by (auto simp: RegisterRoutes_def assms(1) protected_not_open[OF assms(1)] Auth_middleware_def Let_def
        use_case_defs respondJSONError_def c_JSON_def split: if_splits)
  with assms(3) meth show ?thesis
    by (auto simp: serve_api_def startAPIServer_def CORS_def Let_def go_runtime_def with_headers_def
        too_many_requests_def respondJSONError_def c_JSON_def split: prod.splits if_splits)
qed

text \<open>A request that passes the limiter and the authentication reaches its handler as that user.\<close>

lemma protected_served:
  assumes "find_route protected_routes r = Some (e, c)"
    and "serve_api (startAPIServer E A R origins lib) r rl w = (rsp, rl', w')"
    and "rs_Status rsp \<notin> {401, 429}"
  shows "\<exists>u w1 rsp1. live_value (w_keys w) (w_wall w) (accessKey (request_token r)) = Some u \<and>
    w_db w1 = w_db w \<and> w_log w1 = w_log w \<and>
    call_handler (api_services E A R) (fmt_time E) e (c\<lparr>ctx_userID := Some u\<rparr>) w1 = (rsp1, w') \<and>
    rs_Status rsp1 = rs_Status rsp \<and> rs_Body rsp1 = rs_Body rsp"
proof -
  let ?svc = "api_services E A R" and ?w1 = "pass E w" and ?t = "request_token r"
  note meth = protected_not_preflight[OF assms(1)]
  have ctx: "ctx_req c = r" using find_route_from[OF assms(1)] by auto
  have tok: "TrimSpace ?t = ?t" by (simp add: request_token_def Let_def extractBearerToken_def)
  from assms(2,3) meth obtain rsp1 where reg: "RegisterRoutes ?svc (fmt_time E) r ?w1 = (rsp1, w')"
    and same: "rs_Status rsp1 = rs_Status rsp" "rs_Body rsp1 = rs_Body rsp"
    by (auto simp: serve_api_def startAPIServer_def CORS_def Let_def go_runtime_def with_headers_def
        too_many_requests_def respondJSONError_def c_JSON_def split: prod.splits if_splits)
  obtain x w2 where v: "auth_ValidateAccessToken (api_auth E A R) ?t ?w1 = (x, w2)" by fastforce
  from reg v ctx same(1) assms(3) obtain u where x: "x = Inr u"
    and h: "call_handler ?svc (fmt_time E) e (c\<lparr>ctx_userID := Some u\<rparr>) w2 = (rsp1, w')"
    by (cases x) (auto simp: RegisterRoutes_def assms(1) protected_not_open[OF assms(1)] Auth_middleware_def
        Let_def use_case_defs respondJSONError_def c_JSON_def split: if_splits)
  from ra.validate_accepts[OF v[unfolded x]] tok
  have "live_value (w_keys ?w1) (w_wall ?w1) (accessKey ?t) = Some u" by simp
  then have "live_value (w_keys w) (w_wall w) (accessKey ?t) = Some u"
    using live_value_mono[of "w_keys w" "w_wall ?w1" _ u "w_wall w"] by simp
  with h same validation_db[OF v] show ?thesis by auto
qed

lemma reply_value_status:
  assumes "reply_value mapping ok rw = (rsp, w')" and "rs_Status rsp < 400" and "error_mapping mapping"
  shows "\<exists>x. rw = (Inr x, w') \<and> rsp = ok x"
proof (cases rw)
  case (Pair res w1)
  have "\<not> rs_Status (respond_error mapping e) < 400" for e
  proof -
    obtain s t where st: "mapping e = (s, t)" by fastforce
    with assms(3) have "s \<in> {400, 401, 403, 404, 409, 500}" by (metis error_mapping_def fst_conv)
    with st show ?thesis
      by (auto simp: respond_error_def recovered_def c_Status_def respondInternalServerError_def
          respondJSONError_def c_JSON_def split: err.split)
  qed
  with assms(1,2) Pair show ?thesis by (auto simp: reply_value_def split: sum.splits)
qed

text \<open>A request to send that is answered with 201 has carried out a send of the user of its token.\<close>

lemma http_send_served:
  assumes "find_route protected_routes r = Some (Message_send, c)"
    and "serve_api (startAPIServer E A R origins lib) r rl w = (rsp, rl', w')"
    and "rs_Status rsp = 201"
  shows "\<exists>u req w1 m. live_value (w_keys w) (w_wall w) (accessKey (request_token r)) = Some u \<and>
    ShouldBindJSON send_request_fields \<lparr>sr_Content = [], sr_Attachments = []\<rparr> c = Some req \<and>
    w_db w1 = w_db w \<and> w_log w1 = w_log w \<and>
    message_Send (api_messages E) \<lparr>smi_RoomID = ctx_Param c ''roomID'', smi_SenderID = u,
      smi_Content = sr_Content req, smi_Attachments = map to_attachment (sr_Attachments req)\<rparr> w1 = (Inr m, w') \<and>
    rs_Body rsp = Some (message_payload_json (fmt_time E) (toMessagePayload m))"
proof -
  from protected_served[OF assms(1,2)] assms(3) obtain u w1 rsp1 where
    u: "live_value (w_keys w) (w_wall w) (accessKey (request_token r)) = Some u"
    and db: "w_db w1 = w_db w" "w_log w1 = w_log w"
    and h: "call_handler (api_services E A R) (fmt_time E) Message_send (c\<lparr>ctx_userID := Some u\<rparr>) w1 = (rsp1, w')"
    and st: "rs_Status rsp1 = 201" "rs_Body rsp1 = rs_Body rsp" by auto
  let ?bind = "ShouldBindJSON send_request_fields \<lparr>sr_Content = [], sr_Attachments = []\<rparr> (c\<lparr>ctx_userID := Some u\<rparr>)"
  from h st obtain req where req: "?bind = Some req" "\<not> blank u"
    by (cases ?bind) (auto simp: call_handler_def MessageHandler_send_def currentUserID_def invalid_JSON_def
        unauthorized_def respondBadRequest_def respondJSONError_def c_JSON_def split: if_splits)
  let ?p = "\<lparr>smi_RoomID = ctx_Param c ''roomID'', smi_SenderID = u, smi_Content = sr_Content req,
      smi_Attachments = map to_attachment (sr_Attachments req)\<rparr>"
  from h req have "reply_value mapMessageError (\<lambda>msg. c_JSON 201 (message_payload_json (fmt_time E) (toMessagePayload msg)))
       (message_Send (api_messages E) ?p w1) = (rsp1, w')"
    by (simp add: call_handler_def MessageHandler_send_def NewMessageHandler_def use_case_defs currentUserID_def)
  from reply_value_status[OF this] st obtain m where "message_Send (api_messages E) ?p w1 = (Inr m, w')"
    "rsp1 = c_JSON 201 (message_payload_json (fmt_time E) (toMessagePayload m))" by auto
  with u db req(1) st(2) show ?thesis
    by (intro exI[of _ u] exI[of _ req] exI[of _ w1] exI[of _ m]) (auto simp: ShouldBindJSON_def c_JSON_def)
qed

text \<open>
  C14: A message accepted over the API (201) is stored under the user whose token the request
  carries and in the room of its path, with the trimmed content of its body; exactly one row is
  added.
\<close>

theorem http_send_as_token_user:
  assumes "find_route protected_routes r = Some (Message_send, c)"
    and "serve_api (startAPIServer E A R origins lib) r rl w = (rsp, rl', w')"
    and "rs_Status rsp = 201"
  shows "\<exists>u row req. live_value (w_keys w) (w_wall w) (accessKey (request_token r)) = Some u \<and>
    ShouldBindJSON send_request_fields \<lparr>sr_Content = [], sr_Attachments = []\<rparr> c = Some req \<and>
    db_messages (w_db w') = db_messages (w_db w) @ [row] \<and>
    canon_uuid E u = Some (msg_SenderID row) \<and>
    canon_uuid E (ctx_Param c ''roomID'') = Some (msg_RoomID row) \<and>
    msg_Content row = TrimSpace (sr_Content req)"
proof -
  from http_send_served[OF assms] obtain u req w1 m where
    h: "live_value (w_keys w) (w_wall w) (accessKey (request_token r)) = Some u"
    "ShouldBindJSON send_request_fields \<lparr>sr_Content = [], sr_Attachments = []\<rparr> c = Some req" "w_db w1 = w_db w"
    "message_Send (api_messages E) \<lparr>smi_RoomID = ctx_Param c ''roomID'', smi_SenderID = u,
      smi_Content = sr_Content req, smi_Attachments = map to_attachment (sr_Attachments req)\<rparr> w1 = (Inr m, w')"
    by blast
  from message_Send_effect[OF h(4)] obtain row where
    "db_messages (w_db w') = db_messages (w_db w1) @ [row]" "canon_uuid E u = Some (msg_SenderID row)"
    "canon_uuid E (ctx_Param c ''roomID'') = Some (msg_RoomID row)"
    "msg_Content row = TrimSpace (sr_Content req)" by auto
  with h show ?thesis by (intro exI[of _ u] exI[of _ row] exI[of _ req]) simp
qed


section \<open>The room of the path\<close>

text \<open>
  The room in the path of an edit is compared with the room of the message only after the edit
  has been carried out: a request for the wrong room is answered with 404 although the message has
  been changed and the change has been published.
\<close>

theorem edit_in_wrong_room_applied:
  assumes "currentUserID c = Some u" and "bind_text ''content'' c = Some content"
    and "message_Edit (api_messages E) (ctx_Param c ''messageID'') u content w = (Inr m, w')"
    and "msg_RoomID m \<noteq> ctx_Param c ''roomID''"
  shows "\<exists>row \<in> set (db_messages (w_db w)). \<exists>now.
    MessageHandler_edit (NewMessageHandler (NewMessageUseCase (api_messages E))) fmt c w
      = (respondJSONError 404 ''messages: message not found'', w') \<and>
    w_db w' = with_content (msg_ID row) (TrimSpace content) now (w_db w)"
proof -
  from message_Edit_effect[OF assms(3)] obtain row now where "row \<in> set (db_messages (w_db w))"
    "w_db w' = with_content (msg_ID row) (TrimSpace content) now (w_db w)" by auto
  moreover have "MessageHandler_edit (NewMessageHandler (NewMessageUseCase (api_messages E))) fmt c w
      = (respondJSONError 404 ''messages: message not found'', w')"
    using assms by (simp add: MessageHandler_edit_def NewMessageHandler_def use_case_defs reply_value_def
        room_checked_def)
  ultimately show ?thesis by blast
qed

section \<open>Concrete requests\<close>

text \<open>A limiter that lets a burst through and then nothing.\<close>

definition burst_lib :: "int rate_lib" where
  "burst_lib = \<lparr>NewLimiter = (\<lambda>limit burst. burst), Allow = (\<lambda>b t. (0 < b, b - 1))\<rparr>"

definition sample_request :: "string \<Rightarrow> string list \<Rightarrow> string \<Rightarrow> json option \<Rightarrow> http_request" where
  "sample_request meth path token body =
     \<lparr>rq_Method = meth, rq_Path = path, rq_Authorization = [], rq_XAuthToken = token, rq_Origin = [],
      rq_ClientIP = ''10.0.0.1'', rq_Query = (\<lambda>_. []), rq_Body = body\<rparr>"

abbreviation sample_server :: "(world, int) api_server" where
  "sample_server \<equiv> startAPIServer sample_env 1000 100000 [] burst_lib"

definition sample_limiter :: "int rate_limiter" where
  "sample_limiter = RateLimit \<lparr>rlc_Requests = 2, rlc_Window = 1000, rlc_Burst = 0\<rparr>"

definition send_request_r1 :: http_request where
  "send_request_r1 = sample_request ''POST'' [''v1'', ''rooms'', ''r1'', ''messages''] ''tok''
     (Some (JObj [(''content'', JStr ''hello'')]))"

lemma sample_tok_trims [simp]: "TrimSpace ''tok'' = ''tok''" by (simp add: TrimSpace_graphic graphic_def)

lemma sample_send_route:
  "\<exists>c. find_route protected_routes send_request_r1 = Some (Message_send, c) \<and> ctx_Param c ''roomID'' = ''r1''"
  by (simp add: send_request_r1_def sample_request_def find_route_def matches_def route_tables)


theorem protected_routes_need_token_witness:
  "\<exists>rsp rl' w'. serve_api sample_server send_request_r1 sample_limiter chat_world = (rsp, rl', w') \<and>
     rs_Status rsp \<in> {401, 429} \<and> w_db w' = w_db chat_world"
proof -
  obtain rsp rl' w' where s: "serve_api sample_server send_request_r1 sample_limiter chat_world = (rsp, rl', w')"
    by (metis prod.collapse)
  obtain c where f: "find_route protected_routes send_request_r1 = Some (Message_send, c)"
    using sample_send_route by blast
  have "live_value (w_keys chat_world) (w_wall chat_world) (accessKey (request_token send_request_r1)) = None"
    by (simp add: live_value_def chat_world_def sample_world_def)
  from protected_routes_need_token[OF f this s] s show ?thesis by blast
qed

lemmas http_eval = serve_api_def startAPIServer_def CORS_def RegisterRoutes_def find_route_def matches_def
  route_tables Auth_middleware_def request_token_def extractBearerToken_def splitn2_def
  rate_handle_def getVisitor_def store_limiter_def sample_limiter_def RateLimit_def burst_lib_def
  call_handler_def currentUserID_def reply_value_def with_headers_def c_JSON_def
  ShouldBindJSON_def unmarshal_def decode_struct_def find_field_def set_str_def
  auth_ValidateAccessToken_def extendAccess_def

lemma sample_send_served:
  "\<exists>rsp rl' w'. serve_api sample_server send_request_r1 sample_limiter token_world = (rsp, rl', w') \<and>
     rs_Status rsp = 201"
  by (simp add: http_eval MessageHandler_send_def NewMessageHandler_def send_request_fields_def
      send_request_r1_def sample_request_def token_world_def use_case_defs message_Send_def message_eval
      world_eval chat_eval Let_def api_services_def)

theorem http_send_as_token_user_witness:
  "\<exists>rsp rl' w' row. serve_api sample_server send_request_r1 sample_limiter token_world = (rsp, rl', w') \<and>
     db_messages (w_db w') = db_messages (w_db token_world) @ [row] \<and> msg_SenderID row = ''u-ann'' \<and>
     msg_RoomID row = ''r1''"
proof -
  from sample_send_served obtain rsp rl' w' where s:
    "serve_api sample_server send_request_r1 sample_limiter token_world = (rsp, rl', w')" "rs_Status rsp = 201" by blast
  from sample_send_route obtain c where c: "find_route protected_routes send_request_r1 = Some (Message_send, c)"
    "ctx_Param c ''roomID'' = ''r1''" by blast
  have live: "live_value (w_keys token_world) (w_wall token_world) (accessKey (request_token send_request_r1)) = Some ''u-ann''"
    by (simp add: live_value_def alive_def token_world_def request_token_def extractBearerToken_def splitn2_def
        send_request_r1_def sample_request_def)
  from http_send_as_token_user[OF c(1) s] c(2) live obtain row where
    "db_messages (w_db w') = db_messages (w_db token_world) @ [row]"
    "canon_uuid sample_env ''u-ann'' = Some (msg_SenderID row)"
    "canon_uuid sample_env ''r1'' = Some (msg_RoomID row)" by auto
  with s(1) show ?thesis
    by (intro exI[of _ rsp] exI[of _ rl'] exI[of _ w'] exI[of _ row]) (simp add: canon_sample)
qed

definition edit_request :: http_request where
  "edit_request = sample_request ''PATCH'' [''v1'', ''rooms'', ''r2'', ''messages'', ''m2''] ''tok''
     (Some (JObj [(''content'', JStr ''hello'')]))"

lemma edit_request_route:
  "\<exists>c. find_route protected_routes edit_request = Some (Message_edit, c) \<and> ctx_Param c ''roomID'' = ''r2'' \<and>
     ctx_Param c ''messageID'' = ''m2'' \<and> bind_text ''content'' c = Some ''hello''"
  by (simp add: edit_request_def sample_request_def find_route_def matches_def route_tables bind_text_def
      ShouldBindJSON_def unmarshal_def decode_struct_def text_request_fields_def find_field_def set_str_def)

lemma edit_request_served:
  "\<exists>rsp rl' w'. serve_api sample_server edit_request sample_limiter token_world = (rsp, rl', w') \<and>
     rs_Status rsp = 404"
  by (simp add: http_eval MessageHandler_edit_def NewMessageHandler_def bind_text_def text_request_fields_def
      edit_request_def sample_request_def token_world_def use_case_defs message_Edit_def message_eval
      room_checked_def respondJSONError_def world_eval chat_eval Let_def api_services_def)


lemma sample_edit: "\<exists>m w'. message_Edit (api_messages sample_env) ''m2'' ''u-ann'' ''hello'' chat_world = (Inr m, w')
    \<and> msg_RoomID m = ''r1''"
  by (simp add: message_Edit_def message_eval world_eval chat_eval Let_def TrimSpace_graphic graphic_def)

theorem edit_in_wrong_room_applied_witness:
  "\<exists>c w' now. rs_Status (fst (MessageHandler_edit (NewMessageHandler (NewMessageUseCase (api_messages sample_env)))
       (\<lambda>_. []) c chat_world)) = 404 \<and>
     snd (MessageHandler_edit (NewMessageHandler (NewMessageUseCase (api_messages sample_env))) (\<lambda>_. []) c chat_world) = w' \<and>
     (\<exists>i. w_db w' = with_content i ''hello'' now (w_db chat_world))"
proof -
  from edit_request_route obtain c0 where c0: "ctx_Param c0 ''roomID'' = ''r2''"
    "ctx_Param c0 ''messageID'' = ''m2''" "bind_text ''content'' c0 = Some ''hello''" by blast
  let ?c = "c0\<lparr>ctx_userID := Some ''u-ann''\<rparr>"
  from sample_edit obtain m w' where m:
    "message_Edit (api_messages sample_env) ''m2'' ''u-ann'' ''hello'' chat_world = (Inr m, w')" "msg_RoomID m = ''r1''" by blast
  have "currentUserID ?c = Some ''u-ann''"
    by (simp add: currentUserID_def TrimSpace_graphic graphic_def)
  moreover have "bind_text ''content'' ?c = Some ''hello''"
    using c0(3) by (simp add: bind_text_def ShouldBindJSON_def)
  moreover have "message_Edit (api_messages sample_env) (ctx_Param ?c ''messageID'') ''u-ann'' ''hello'' chat_world = (Inr m, w')"
    "msg_RoomID m \<noteq> ctx_Param ?c ''roomID''" using m c0 by simp_all
  ultimately have "\<exists>row \<in> set (db_messages (w_db chat_world)). \<exists>now.
      MessageHandler_edit (NewMessageHandler (NewMessageUseCase (api_messages sample_env))) (\<lambda>_. []) ?c chat_world
        = (respondJSONError 404 ''messages: message not found'', w') \<and>
      w_db w' = with_content (msg_ID row) (TrimSpace ''hello'') now (w_db chat_world)"
    by (rule edit_in_wrong_room_applied)
  then obtain row :: message and now where r: "MessageHandler_edit (NewMessageHandler (NewMessageUseCase (api_messages sample_env)))
      (\<lambda>_. []) ?c chat_world = (respondJSONError 404 ''messages: message not found'', w')"
    "w_db w' = with_content (msg_ID row) (TrimSpace ''hello'') now (w_db chat_world)" by (elim bexE exE conjE) (rule that)
  have t: "TrimSpace ''hello'' = ''hello''" by (simp add: TrimSpace_graphic graphic_def)
  show ?thesis
    by (intro exI[of _ ?c] exI[of _ w'] exI[of _ now] conjI exI[of _ "msg_ID row"])
      (use r(2) in \<open>simp_all add: r(1) t respondJSONError_def c_JSON_def\<close>)
qed

end
