(* ===== verification/Hub.thy ===== *)
theory Hub
  imports World
begin

text \<open>
  \<open>internal/delivery/websocket/hub.go\<close>: the registry of connected clients and the delivery of
  payloads to their buffered channels. A client is a pointer; \<open>G c\<close> gives the fields of the
  client \<open>c\<close>, which are fixed once it was made. Run-time panics (a send on, or a close of, a
  closed channel) are values of the left component of a sum; nothing recovers them, so they end
  the process.
\<close>

section \<open>Clients and channels\<close>

type_synonym cid = nat

record client =
  cl_UserID :: string
  cl_Username :: string
  cl_Rooms :: "string list"
  cl_roomSet :: "string set"

text \<open>The channel \<open>Send\<close>: \<open>make(chan []byte, 256)\<close>.\<close>

record chan =
  ch_buf :: "json list"
  ch_closed :: bool

definition send_cap :: nat where "send_cap = 256"

definition new_chan :: chan where "new_chan = \<lparr>ch_buf = [], ch_closed = False\<rparr>"

definition close_panic :: err where "close_panic = GoPanic ''close of closed channel''"
definition send_panic :: err where "send_panic = GoPanic ''send on closed channel''"

text \<open>\<open>select { case ch <- data: ... default: ... }\<close>.\<close>

datatype offer = Accepted chan | Refused | Panicked

definition offer_chan :: "json \<Rightarrow> chan \<Rightarrow> offer" where
  "offer_chan d ch =
     (if ch_closed ch then Panicked
      else if length (ch_buf ch) < send_cap then Accepted (ch\<lparr>ch_buf := ch_buf ch @ [d]\<rparr>)
      else Refused)"

definition close_chan :: "chan \<Rightarrow> err + chan" where
  "close_chan ch = (if ch_closed ch then Inl close_panic else Inr (ch\<lparr>ch_closed := True\<rparr>))"

section \<open>The index of clients by a key\<close>

text \<open>
  A \<open>map[string]map[*Client]struct{}\<close>: \<open>None\<close> is an absent key. The two operations are the
  code's idioms: make the inner map when it is nil, and delete an inner map that became empty.
\<close>

type_synonym index = "string \<Rightarrow> cid set option"

definition members :: "index \<Rightarrow> string \<Rightarrow> cid set" where
  "members m k = (case m k of None \<Rightarrow> {} | Some S \<Rightarrow> S)"

definition add_to :: "cid \<Rightarrow> string \<Rightarrow> index \<Rightarrow> index" where
  "add_to c k m = m(k \<mapsto> insert c (members m k))"

definition remove_from :: "cid \<Rightarrow> string \<Rightarrow> index \<Rightarrow> index" where
  "remove_from c k m =
     (case m k of
        None \<Rightarrow> m
      | Some S \<Rightarrow> if S - {c} = {} then m(k := None) else m(k \<mapsto> S - {c}))"

text \<open>What the hub relies on: an index is a family of sets, with no key left for an empty one.\<close>

locale client_index =
  fixes add :: "'c \<Rightarrow> 'k \<Rightarrow> 'm \<Rightarrow> 'm"
    and rem :: "'c \<Rightarrow> 'k \<Rightarrow> 'm \<Rightarrow> 'm"
    and get :: "'m \<Rightarrow> 'k \<Rightarrow> 'c set"
    and tidy :: "'m \<Rightarrow> 'k \<Rightarrow> bool"
  assumes get_add: "get (add c k m) j = (if j = k then insert c (get m k) else get m j)"
    and get_rem: "get (rem c k m) j = (if j = k then get m k - {c} else get m j)"
    and tidy_add: "tidy m j \<Longrightarrow> tidy (add c k m) j"
    and tidy_rem: "tidy m j \<Longrightarrow> tidy (rem c k m) j"
begin

lemma get_fold_add: "get (fold (add c) ks m) j = (if j \<in> set ks then insert c (get m j) else get m j)"
  by (induction ks arbitrary: m) (auto simp: get_add)

lemma get_fold_rem: "get (fold (rem c) ks m) j = (if j \<in> set ks then get m j - {c} else get m j)"
  by (induction ks arbitrary: m) (auto simp: get_rem)

lemma tidy_fold_add: "tidy m j \<Longrightarrow> tidy (fold (add c) ks m) j"
  by (induction ks arbitrary: m) (auto simp: tidy_add)

lemma tidy_fold_rem: "tidy m j \<Longrightarrow> tidy (fold (rem c) ks m) j"
  by (induction ks arbitrary: m) (auto simp: tidy_rem)

end

interpretation ix: client_index add_to remove_from members "\<lambda>m k. m k \<noteq> Some {}"
  by unfold_locales (auto simp: members_def add_to_def remove_from_def split: option.splits)

section \<open>The hub\<close>

record hub =
  hub_clients :: "cid set"
  hub_rooms :: index
  hub_users :: index
  hub_chans :: "cid \<Rightarrow> chan"

definition NewHub :: hub where
  "NewHub = \<lparr>hub_clients = {}, hub_rooms = (\<lambda>_. None), hub_users = (\<lambda>_. None),
             hub_chans = (\<lambda>_. new_chan)\<rparr>"

definition set_chan :: "cid \<Rightarrow> chan \<Rightarrow> hub \<Rightarrow> hub" where
  "set_chan c ch h = h\<lparr>hub_chans := (hub_chans h)(c := ch)\<rparr>"

definition addClient :: "(cid \<Rightarrow> client) \<Rightarrow> cid \<Rightarrow> hub \<Rightarrow> hub" where
  "addClient G c h =
     h\<lparr>hub_clients := insert c (hub_clients h),
       hub_users := add_to c (cl_UserID (G c)) (hub_users h),
       hub_rooms := fold (add_to c) (cl_Rooms (G c)) (hub_rooms h)\<rparr>"

definition drop_client :: "(cid \<Rightarrow> client) \<Rightarrow> cid \<Rightarrow> hub \<Rightarrow> hub" where
  "drop_client G c h =
     h\<lparr>hub_clients := hub_clients h - {c},
       hub_users := remove_from c (cl_UserID (G c)) (hub_users h),
       hub_rooms := fold (remove_from c) (cl_Rooms (G c)) (hub_rooms h)\<rparr>"

definition removeClient :: "(cid \<Rightarrow> client) \<Rightarrow> cid \<Rightarrow> hub \<Rightarrow> err + hub" where
  "removeClient G c h =
     (case close_chan (hub_chans h c) of
        Inl e \<Rightarrow> Inl e
      | Inr ch \<Rightarrow> Inr (set_chan c ch (drop_client G c h)))"

record broadcast =
  bc_RoomID :: string
  bc_Data :: json
  bc_Exclude :: "cid option"

text \<open>
  The loop of \<open>sendToRoom\<close> over the targets in the order of the iteration: the new hub and the
  clients for which a goroutine was started to unregister them.
\<close>

fun send_loop :: "broadcast \<Rightarrow> cid list \<Rightarrow> hub \<Rightarrow> err + (hub \<times> cid list)" where
  "send_loop b [] h = Inr (h, [])"
| "send_loop b (c # cs) h =
     (if bc_Exclude b = Some c then send_loop b cs h
      else case offer_chan (bc_Data b) (hub_chans h c) of
        Panicked \<Rightarrow> Inl send_panic
      | Accepted ch \<Rightarrow> send_loop b cs (set_chan c ch h)
      | Refused \<Rightarrow>
          (case send_loop b cs h of Inl e \<Rightarrow> Inl e | Inr (h', slow) \<Rightarrow> Inr (h', c # slow)))"

definition sendToRoom :: "broadcast \<Rightarrow> cid list \<Rightarrow> hub \<Rightarrow> err + (hub \<times> cid list)" where
  "sendToRoom b order h = send_loop b order h"

text \<open>
  The loop of \<open>SendToUser\<close>: a client whose buffer is full is closed and deleted from the
  user's clients, from nothing else.
\<close>

fun user_loop :: "string \<Rightarrow> json \<Rightarrow> cid list \<Rightarrow> hub \<Rightarrow> err + hub" where
  "user_loop u d [] h = Inr h"
| "user_loop u d (c # cs) h =
     (case offer_chan d (hub_chans h c) of
        Panicked \<Rightarrow> Inl send_panic
      | Accepted ch \<Rightarrow> user_loop u d cs (set_chan c ch h)
      | Refused \<Rightarrow>
          (case close_chan (hub_chans h c) of
             Inl e \<Rightarrow> Inl e
           | Inr ch \<Rightarrow>
               user_loop u d cs
                 ((set_chan c ch h)\<lparr>hub_users := (hub_users h)(u \<mapsto> members (hub_users h) u - {c})\<rparr>)))"

definition SendToUser :: "string \<Rightarrow> json \<Rightarrow> cid list \<Rightarrow> hub \<Rightarrow> err + hub" where
  "SendToUser u d order h =
     (case hub_users h u of None \<Rightarrow> Inr h | Some _ \<Rightarrow> user_loop u d order h)"

fun close_loop :: "cid list \<Rightarrow> hub \<Rightarrow> err + hub" where
  "close_loop [] h = Inr h"
| "close_loop (c # cs) h =
     (case close_chan (hub_chans h c) of Inl e \<Rightarrow> Inl e | Inr ch \<Rightarrow> close_loop cs (set_chan c ch h))"

definition shutdown :: "cid list \<Rightarrow> hub \<Rightarrow> err + hub" where
  "shutdown order h =
     (case close_loop order h of
        Inl e \<Rightarrow> Inl e
      | Inr h' \<Rightarrow> Inr (h'\<lparr>hub_clients := {}, hub_rooms := (\<lambda>_. None)\<rparr>))"

section \<open>The system around the hub\<close>

text \<open>
  The goroutines that talk to the hub: the reader of a client (registered by the handler, then
  \<open>ReadPump\<close>, whose deferred function unregisters the client), the goroutines that \<open>sendToRoom\<close>
  starts to unregister slow clients, the relay that calls \<open>SendToUser\<close>, the writer of a client
  that takes payloads from its channel, and the loop of \<open>Run\<close>, which takes one request at a time
  from unbuffered channels until its context is cancelled.
\<close>

datatype reader = Unborn | Reading | Leaving | Gone

record sys =
  sys_hub :: hub
  sys_reader :: "cid \<Rightarrow> reader"
  sys_evictions :: "cid multiset"
  sys_running :: bool

definition init_sys :: sys where
  "init_sys = \<lparr>sys_hub = NewHub, sys_reader = (\<lambda>_. Unborn), sys_evictions = {#}, sys_running = True\<rparr>"

definition iterates :: "cid list \<Rightarrow> cid set \<Rightarrow> bool" where
  "iterates order S \<longleftrightarrow> distinct order \<and> set order = S"

definition put_hub :: "sys \<Rightarrow> err + hub \<Rightarrow> err + sys" where
  "put_hub s r = (case r of Inl e \<Rightarrow> Inl e | Inr h \<Rightarrow> Inr (s\<lparr>sys_hub := h\<rparr>))"

inductive hub_step :: "(cid \<Rightarrow> client) \<Rightarrow> sys \<Rightarrow> err + sys \<Rightarrow> bool" for G where
  register: "sys_running s \<Longrightarrow> sys_reader s c = Unborn \<Longrightarrow>
    hub_step G s (Inr (s\<lparr>sys_hub := addClient G c (sys_hub s),
                         sys_reader := (sys_reader s)(c := Reading)\<rparr>))"
| read_error: "sys_reader s c = Reading \<Longrightarrow>
    hub_step G s (Inr (s\<lparr>sys_reader := (sys_reader s)(c := Leaving)\<rparr>))"
| unregister: "sys_running s \<Longrightarrow> sys_reader s c = Leaving \<Longrightarrow>
    hub_step G s (put_hub (s\<lparr>sys_reader := (sys_reader s)(c := Gone)\<rparr>) (removeClient G c (sys_hub s)))"
| evict: "sys_running s \<Longrightarrow> c \<in># sys_evictions s \<Longrightarrow>
    hub_step G s (put_hub (s\<lparr>sys_evictions := sys_evictions s - {#c#}\<rparr>) (removeClient G c (sys_hub s)))"
| broadcast: "sys_running s \<Longrightarrow> iterates order (members (hub_rooms (sys_hub s)) (bc_RoomID b)) \<Longrightarrow>
    sendToRoom b order (sys_hub s) = Inr (h, slow) \<Longrightarrow>
    hub_step G s (Inr (s\<lparr>sys_hub := h, sys_evictions := sys_evictions s + mset slow\<rparr>))"
| broadcast_panic: "sys_running s \<Longrightarrow> iterates order (members (hub_rooms (sys_hub s)) (bc_RoomID b)) \<Longrightarrow>
    sendToRoom b order (sys_hub s) = Inl e \<Longrightarrow> hub_step G s (Inl e)"
| user_event: "iterates order (members (hub_users (sys_hub s)) u) \<Longrightarrow>
    hub_step G s (put_hub s (SendToUser u d order (sys_hub s)))"
| written: "ch_buf (hub_chans (sys_hub s) c) = d # ds \<Longrightarrow>
    hub_step G s (Inr (s\<lparr>sys_hub := set_chan c ((hub_chans (sys_hub s) c)\<lparr>ch_buf := ds\<rparr>) (sys_hub s)\<rparr>))"
| stop: "sys_running s \<Longrightarrow> iterates order (hub_clients (sys_hub s)) \<Longrightarrow>
    hub_step G s (put_hub (s\<lparr>sys_running := False\<rparr>) (shutdown order (sys_hub s)))"

inductive_cases hub_stepE: "hub_step G s r"

text \<open>The states reached without a panic.\<close>

inductive hub_reach :: "(cid \<Rightarrow> client) \<Rightarrow> sys \<Rightarrow> bool" for G where
  start: "hub_reach G init_sys"
| step: "hub_reach G s \<Longrightarrow> hub_step G s (Inr s') \<Longrightarrow> hub_reach G s'"

end
