(* ===== verification/Websocket.thy ===== *)
theory Websocket
  imports Hub Message_Service Use_Cases
begin

text \<open>
  \<open>internal/delivery/websocket\<close> without the hub: the events and payloads on the wire, the client's
  reader and writer, the relay of Redis announcements to the hub, and the handler of \<open>/ws\<close> in
  \<open>cmd/server/main.go\<close> that admits a client. What the code hands to the hub is a value: a
  \<open>broadcast\<close>, or an action of the relay.
\<close>

section \<open>Events (events.go)\<close>

definition EventSendMessage :: string where "EventSendMessage = ''send_message''"
definition EventReceiveMessage :: string where "EventReceiveMessage = ''receive_message''"
definition EventTypingStart :: string where "EventTypingStart = ''typing_start''"
definition EventTypingStop :: string where "EventTypingStop = ''typing_stop''"
definition EventMessageDeleted :: string where "EventMessageDeleted = ''message.deleted''"

definition Event_Encode :: "string \<Rightarrow> json \<Rightarrow> json" where
  "Event_Encode ty data = JObj [(''event'', JStr ty), (''data'', data)]"

section \<open>Payloads (payloads.go)\<close>

record attachment_payload =
  ap_ID :: string
  ap_MessageID :: string
  ap_URL :: string
  ap_MimeType :: string
  ap_SizeBytes :: int

record send_message_payload =
  smp_RoomID :: string
  smp_Content :: string
  smp_Attachments :: "attachment_payload list"

record receive_message_payload =
  rmp_ID :: string
  rmp_RoomID :: string
  rmp_SenderID :: string
  rmp_Content :: string
  rmp_Attachments :: "attachment_payload list"
  rmp_Status :: message_status
  rmp_CreatedAt :: time
  rmp_UpdatedAt :: time

record typing_event_payload =
  tep_RoomID :: string

definition to_domain_attachment :: "attachment_payload \<Rightarrow> attachment" where
  "to_domain_attachment a =
     \<lparr>att_ID = ap_ID a, att_MessageID = ap_MessageID a, att_URL = ap_URL a,
      att_MimeType = ap_MimeType a, att_SizeBytes = ap_SizeBytes a\<rparr>"

definition toDomainAttachments :: "attachment_payload list \<Rightarrow> attachment list" where
  "toDomainAttachments l = (if l = [] then [] else map to_domain_attachment l)"

definition to_payload_attachment :: "attachment \<Rightarrow> attachment_payload" where
  "to_payload_attachment a =
     \<lparr>ap_ID = att_ID a, ap_MessageID = att_MessageID a, ap_URL = att_URL a,
      ap_MimeType = att_MimeType a, ap_SizeBytes = att_SizeBytes a\<rparr>"

definition toPayloadAttachments :: "attachment list \<Rightarrow> attachment_payload list" where
  "toPayloadAttachments l = (if l = [] then [] else map to_payload_attachment l)"

text \<open>\<open>omitempty\<close>: a field with an empty value is not written.\<close>

definition omit_str :: "string \<Rightarrow> string \<Rightarrow> (string \<times> json) list" where
  "omit_str k s = (if s = [] then [] else [(k, JStr s)])"

definition attachment_payload_json :: "attachment_payload \<Rightarrow> json" where
  "attachment_payload_json a =
     JObj (omit_str ''id'' (ap_ID a) @ omit_str ''message_id'' (ap_MessageID a) @
           [(''url'', JStr (ap_URL a))] @ omit_str ''mime_type'' (ap_MimeType a) @
           (if ap_SizeBytes a = 0 then [] else [(''size_bytes'', JInt (ap_SizeBytes a))]))"

definition receive_message_json :: "(time \<Rightarrow> string) \<Rightarrow> receive_message_payload \<Rightarrow> json" where
  "receive_message_json fmt p =
     JObj ([(''id'', JStr (rmp_ID p)), (''room_id'', JStr (rmp_RoomID p)),
            (''sender_id'', JStr (rmp_SenderID p)), (''content'', JStr (rmp_Content p))] @
           (if rmp_Attachments p = [] then []
            else [(''attachments'', JArr (map attachment_payload_json (rmp_Attachments p)))]) @
           [(''status'', JStr (rmp_Status p)), (''created_at'', JStr (fmt (rmp_CreatedAt p))),
            (''updated_at'', JStr (fmt (rmp_UpdatedAt p)))])"

definition typing_broadcast_json :: "string \<Rightarrow> string \<Rightarrow> json" where
  "typing_broadcast_json username roomID =
     JObj [(''username'', JStr username), (''room_id'', JStr roomID)]"

text \<open>The event both the reader and the relay build from a message.\<close>

definition receive_event :: "(time \<Rightarrow> string) \<Rightarrow> message \<Rightarrow> json" where
  "receive_event fmt msg =
     Event_Encode EventReceiveMessage (receive_message_json fmt
       \<lparr>rmp_ID = msg_ID msg, rmp_RoomID = msg_RoomID msg, rmp_SenderID = msg_SenderID msg,
        rmp_Content = msg_Content msg, rmp_Attachments = toPayloadAttachments (msg_Attachments msg),
        rmp_Status = msg_Status msg, rmp_CreatedAt = msg_CreatedAt msg,
        rmp_UpdatedAt = msg_UpdatedAt msg\<rparr>)"

definition attachment_payload_fields :: "attachment_payload field list" where
  "attachment_payload_fields =
     [(''id'', set_str (\<lambda>s a. a\<lparr>ap_ID := s\<rparr>)), (''message_id'', set_str (\<lambda>s a. a\<lparr>ap_MessageID := s\<rparr>)),
      (''url'', set_str (\<lambda>s a. a\<lparr>ap_URL := s\<rparr>)), (''mime_type'', set_str (\<lambda>s a. a\<lparr>ap_MimeType := s\<rparr>)),
      (''size_bytes'', set_int64 (\<lambda>n a. a\<lparr>ap_SizeBytes := n\<rparr>))]"

definition zero_attachment_payload :: attachment_payload where
  "zero_attachment_payload =
     \<lparr>ap_ID = [], ap_MessageID = [], ap_URL = [], ap_MimeType = [], ap_SizeBytes = 0\<rparr>"

definition send_message_fields :: "send_message_payload field list" where
  "send_message_fields =
     [(''room_id'', set_str (\<lambda>s p. p\<lparr>smp_RoomID := s\<rparr>)),
      (''content'', set_str (\<lambda>s p. p\<lparr>smp_Content := s\<rparr>)),
      (''attachments'', set_list attachment_payload_fields zero_attachment_payload
         (\<lambda>l p. p\<lparr>smp_Attachments := l\<rparr>))]"

definition typing_fields :: "typing_event_payload field list" where
  "typing_fields = [(''room_id'', set_str (\<lambda>s p. p\<lparr>tep_RoomID := s\<rparr>))]"

section \<open>The client (client.go)\<close>

definition NewClient :: "string \<Rightarrow> string list \<Rightarrow> string \<Rightarrow> client" where
  "NewClient userID rooms username =
     \<lparr>cl_UserID = userID,
      cl_Username = (if blank username then userID else username),
      cl_Rooms = rooms, cl_roomSet = set rooms\<rparr>"

definition isMember :: "client \<Rightarrow> string \<Rightarrow> bool" where
  "isMember c roomID \<longleftrightarrow> roomID \<in> cl_roomSet c"

text \<open>\<open>sender\<close> is the \<open>Send\<close> of the message use case; \<open>fmt\<close> the text of a time.\<close>

definition handleSendMessage ::
  "(send_message_input \<Rightarrow> ('w, err + message) io) option \<Rightarrow> (time \<Rightarrow> string) \<Rightarrow> client \<Rightarrow>
   send_message_payload \<Rightarrow> ('w, broadcast option) io" where
  "handleSendMessage sender fmt c payload w =
     (case sender of
        None \<Rightarrow> (None, w)
      | Some send \<Rightarrow>
        (let roomID = TrimSpace (smp_RoomID payload) in
         if roomID = [] then (None, w)
         else if \<not> isMember c roomID then (None, w)
         else case send \<lparr>smi_RoomID = roomID, smi_SenderID = cl_UserID c,
                         smi_Content = TrimSpace (smp_Content payload),
                         smi_Attachments = toDomainAttachments (smp_Attachments payload)\<rparr> w of
           (Inl e, w1) \<Rightarrow> (None, w1)
         | (Inr msg, w1) \<Rightarrow>
             (Some \<lparr>bc_RoomID = msg_RoomID msg, bc_Data = receive_event fmt msg, bc_Exclude = None\<rparr>, w1)))"

definition handleTypingEvent ::
  "cid \<Rightarrow> client \<Rightarrow> string \<Rightarrow> typing_event_payload \<Rightarrow> broadcast option" where
  "handleTypingEvent self c event payload =
     (let given = TrimSpace (tep_RoomID payload) in
      if given = [] \<and> length (cl_Rooms c) \<noteq> 1 then None
      else
        (let roomID = (if given = [] then hd (cl_Rooms c) else given) in
         if \<not> isMember c roomID then None
         else Some \<lparr>bc_RoomID = roomID,
                    bc_Data = Event_Encode event (typing_broadcast_json (cl_Username c) roomID),
                    bc_Exclude = Some self\<rparr>))"

record envelope =
  env_Event :: string
  env_Data :: "json option"

definition envelope_fields :: "envelope field list" where
  "envelope_fields =
     [(''event'', set_str (\<lambda>s e. e\<lparr>env_Event := s\<rparr>)), (''data'', set_raw (\<lambda>j e. e\<lparr>env_Data := Some j\<rparr>))]"

text \<open>
  One frame of \<open>ReadPump\<close>: whether the limiter allows it, and its JSON value (\<open>None\<close>: the text is
  not JSON). The result is what is handed to the hub.
\<close>

definition read_frame ::
  "(send_message_input \<Rightarrow> ('w, err + message) io) option \<Rightarrow> (time \<Rightarrow> string) \<Rightarrow> cid \<Rightarrow> client \<Rightarrow>
   bool \<times> json option \<Rightarrow> ('w, broadcast option) io" where
  "read_frame sender fmt self c frame w =
     (case frame of
        (False, _) \<Rightarrow> (None, w)
      | (True, None) \<Rightarrow> (None, w)
      | (True, Some j) \<Rightarrow>
        (case unmarshal envelope_fields \<lparr>env_Event = [], env_Data = None\<rparr> j of
           None \<Rightarrow> (None, w)
         | Some env \<Rightarrow>
             if env_Event env = EventSendMessage
             then (case env_Data env of
                     None \<Rightarrow> (None, w)
                   | Some data \<Rightarrow>
                     (case unmarshal send_message_fields
                             \<lparr>smp_RoomID = [], smp_Content = [], smp_Attachments = []\<rparr> data of
                        None \<Rightarrow> (None, w)
                      | Some payload \<Rightarrow> handleSendMessage sender fmt c payload w))
             else if env_Event env = EventTypingStart \<or> env_Event env = EventTypingStop
             then (case env_Data env of
                     None \<Rightarrow> (handleTypingEvent self c (env_Event env) \<lparr>tep_RoomID = []\<rparr>, w)
                   | Some data \<Rightarrow>
                     (case unmarshal typing_fields \<lparr>tep_RoomID = []\<rparr> data of
                        None \<Rightarrow> (None, w)
                      | Some payload \<Rightarrow> (handleTypingEvent self c (env_Event env) payload, w)))
             else (None, w)))"

text \<open>The loop, over the frames that arrive before the connection fails.\<close>

fun ReadPump ::
  "(send_message_input \<Rightarrow> ('w, err + message) io) option \<Rightarrow> (time \<Rightarrow> string) \<Rightarrow> cid \<Rightarrow> client \<Rightarrow>
   (bool \<times> json option) list \<Rightarrow> ('w, broadcast list) io" where
  "ReadPump sender fmt self c [] w = ([], w)"
| "ReadPump sender fmt self c (f # fs) w =
     (case read_frame sender fmt self c f w of (b, w1) \<Rightarrow>
      case ReadPump sender fmt self c fs w1 of (bs, w2) \<Rightarrow>
        ((case b of None \<Rightarrow> bs | Some x \<Rightarrow> x # bs), w2))"

section \<open>The relay (relay.go)\<close>

datatype relay_action = ToUser string json | ToRoom string json | Skip

record type_envelope =
  te_Type :: string

definition type_fields :: "type_envelope field list" where
  "type_fields = [(''type'', set_str (\<lambda>s e. e\<lparr>te_Type := s\<rparr>))]"

record deleted_ref =
  del_ID :: string
  del_RoomID :: string

definition deleted_ref_fields :: "deleted_ref field list" where
  "deleted_ref_fields =
     [(''id'', set_str (\<lambda>s d. d\<lparr>del_ID := s\<rparr>)), (''room_id'', set_str (\<lambda>s d. d\<lparr>del_RoomID := s\<rparr>))]"

definition deleted_fields :: "deleted_ref field list" where
  "deleted_fields = [(''message'', set_struct deleted_ref_fields (\<lambda>d. d) (\<lambda>d _. d))]"

definition relay_deleted :: "json \<Rightarrow> relay_action" where
  "relay_deleted payload =
     (case unmarshal deleted_fields \<lparr>del_ID = [], del_RoomID = []\<rparr> payload of
        None \<Rightarrow> Skip
      | Some d \<Rightarrow>
          (let roomID = TrimSpace (del_RoomID d) in
           if roomID = [] then Skip
           else ToRoom roomID (Event_Encode EventMessageDeleted
                  (JObj [(''id'', JStr (del_ID d)), (''room_id'', JStr roomID)]))))"

definition relay_message ::
  "(string \<Rightarrow> time option) \<Rightarrow> (time \<Rightarrow> string) \<Rightarrow> json \<Rightarrow> relay_action" where
  "relay_message parse fmt payload =
     (case unmarshal (message_fields parse) zero_message payload of
        None \<Rightarrow> Skip
      | Some msg \<Rightarrow>
          if msg_RoomID msg = [] then Skip else ToRoom (msg_RoomID msg) (receive_event fmt msg))"

definition relay ::
  "(string \<Rightarrow> time option) \<Rightarrow> (time \<Rightarrow> string) \<Rightarrow> string \<Rightarrow> json \<Rightarrow> relay_action" where
  "relay parse fmt channel payload =
     (if contains_sub ''users:'' channel \<and> contains_sub '':events'' channel
      then (let parts = split_on CHR '':'' channel
            in if length parts \<ge> 3 then ToUser (parts ! 1) payload else Skip)
      else case unmarshal type_fields \<lparr>te_Type = []\<rparr> payload of
        Some env \<Rightarrow>
          if te_Type env \<noteq> []
          then (if te_Type env = ''message.deleted'' then relay_deleted payload else Skip)
          else relay_message parse fmt payload
      | None \<Rightarrow> relay_message parse fmt payload)"

section \<open>Admission (auth\_helpers.go and the /ws handler)\<close>

definition ExtractBearerToken :: "string \<Rightarrow> string" where
  "ExtractBearerToken header =
     (let parts = splitn2 CHR '' '' header in
      if length parts \<noteq> 2 \<or> \<not> equal_fold_ascii (parts ! 0) ''Bearer'' then []
      else TrimSpace (parts ! 1))"

fun FilterAuthorizedRooms ::
  "(string \<Rightarrow> ('w, err + room_member list) io) \<Rightarrow> string \<Rightarrow> string list \<Rightarrow> ('w, string list) io" where
  "FilterAuthorizedRooms lister userID [] w = ([], w)"
| "FilterAuthorizedRooms lister userID (r # rs) w =
     (case lister r w of (res, w1) \<Rightarrow>
      case FilterAuthorizedRooms lister userID rs w1 of (out, w2) \<Rightarrow>
        ((case res of
            Inl e \<Rightarrow> out
          | Inr ms \<Rightarrow> if list_ex (\<lambda>m. mem_UserID m = userID) ms then r # out else out), w2))"

record ws_request =
  wr_Authorization :: string
  wr_access_token :: string
  wr_room_ids :: "string list"
  wr_upgrades :: bool

text \<open>
  The outcome of a request to \<open>/ws\<close>: an HTTP error; a connection that was not upgraded; one that
  was upgraded and then dropped without a client, its error lost; or a client that is registered
  and whose pumps run.
\<close>

datatype ws_outcome = HttpError int string | NotUpgraded | Orphaned | Connected client

definition serve_ws ::
  "'w auth_usecase \<Rightarrow> 'w user_usecase \<Rightarrow> 'w room_usecase \<Rightarrow> ws_request \<Rightarrow> ('w, ws_outcome) io" where
  "serve_ws authUC userUC roomUC r w =
     (let bearer = ExtractBearerToken (wr_Authorization r);
          token = (if bearer = [] then TrimSpace (wr_access_token r) else bearer) in
      if token = [] then (HttpError 401 ''missing bearer token'', w)
      else case AuthUseCase_ValidateAccessToken authUC token w of
        (Inl e, w1) \<Rightarrow> (HttpError 401 ''invalid access token'', w1)
      | (Inr userID, w1) \<Rightarrow>
        if wr_room_ids r = [] then (HttpError 400 ''room_id is required'', w1)
        else case FilterAuthorizedRooms (RoomUseCase_ListMembers roomUC) userID (wr_room_ids r) w1 of
          (allowed, w2) \<Rightarrow>
          if allowed = [] then (HttpError 403 ''no authorized rooms'', w2)
          else if \<not> wr_upgrades r then (NotUpgraded, w2)
          else case UserUseCase_GetProfile userUC userID w2 of
            (Inl e, w3) \<Rightarrow> (Orphaned, w3)
          | (Inr profile, w3) \<Rightarrow> (Connected (NewClient userID allowed (usr_Username profile)), w3))"

end
