(* ===== verification/Websocket_Properties.thy ===== *)
theory Websocket_Properties
  imports Websocket Api_State
begin

text \<open>
  What crosses the websocket server: the events the services publish reach the hub as the right
  broadcasts, a client writes only to rooms it was admitted to, and it is admitted only to rooms
  it is a member of.
\<close>

section \<open>Announcements through the relay\<close>

lemma message_keys [simp]:
  "find_field type_fields ''ID'' = None" "find_field type_fields ''RoomID'' = None"
  "find_field type_fields ''SenderID'' = None" "find_field type_fields ''Content'' = None"
  "find_field type_fields ''Attachments'' = None" "find_field type_fields ''Status'' = None"
  "find_field type_fields ''CreatedAt'' = None" "find_field type_fields ''UpdatedAt'' = None"
  "find_field type_fields ''message'' = None"
  by (simp_all add: find_field_def type_fields_def ascii_lower_def)

lemma message_json_untyped:
  "unmarshal type_fields \<lparr>te_Type = []\<rparr> (message_json fmt m) = Some \<lparr>te_Type = []\<rparr>"
  by (simp add: unmarshal_def decode_struct_def message_json_def)

lemma relay_of_message:
  assumes "\<not> contains_sub ''users:'' ch \<or> \<not> contains_sub '':events'' ch" and "msg_RoomID m \<noteq> []"
    and "\<forall>a \<in> set (msg_Attachments m). in_int64 (att_SizeBytes a)"
    and "\<And>t. parse (fmt t) = Some t"
  shows "relay parse fmt ch (message_json fmt m) = ToRoom (msg_RoomID m) (receive_event fmt m)"
proof -
  have "unmarshal (message_fields parse) zero_message (message_json fmt m) = Some m"
    using assms(3,4) by (intro message_roundtrip)
  with assms(1,2) show ?thesis by (auto simp: relay_def message_json_untyped relay_message_def)
qed

lemma deleted_json_decodes:
  "unmarshal deleted_fields \<lparr>del_ID = [], del_RoomID = []\<rparr> (deleted_json m)
     = Some \<lparr>del_ID = msg_ID m, del_RoomID = msg_RoomID m\<rparr>"
  "unmarshal type_fields \<lparr>te_Type = []\<rparr> (deleted_json m) = Some \<lparr>te_Type = ''message.deleted''\<rparr>"
  by (simp_all add: unmarshal_def decode_struct_def deleted_json_def deleted_fields_def
      deleted_ref_fields_def type_fields_def find_field_def set_struct_def set_str_def ascii_lower_def)

lemma contains_sub_tail: "contains_sub p s \<Longrightarrow> contains_sub p (a @ s)"
  by (induction a) auto

lemma userChannel_parts:
  assumes "CHR '':'' \<notin> set u"
  shows "contains_sub ''users:'' (userChannel u)" and "contains_sub '':events'' (userChannel u)"
    and "split_on CHR '':'' (userChannel u) = [''users'', u, ''events'']"
proof -
  show "contains_sub ''users:'' (userChannel u)"
    using contains_sub_append[of "''users:''" "[]" "u @ '':events''"] by (simp add: userChannel_def)
  show "contains_sub '':events'' (userChannel u)"
    using contains_sub_append[of "'':events''" "''users:'' @ u" "[]"] by (simp add: userChannel_def)
  have "split_on CHR '':'' (''users'' @ CHR '':'' # (u @ CHR '':'' # ''events'')) = [''users'', u, ''events'']"
    using assms split_on_append[of "CHR '':''" "''users''" "u @ CHR '':'' # ''events''"]
      split_on_append[of "CHR '':''" u "''events''"] split_on_none[of "CHR '':''" "''events''"]
    by simp
  then show "split_on CHR '':'' (userChannel u) = [''users'', u, ''events'']"
    by (simp add: userChannel_def)
qed

text \<open>
  C35: What the services publish comes out of the relay as it was meant: a message (sent or edited)
  as a \<open>receive_message\<close> event with the fields of the message, for its room; a deletion as a
  \<open>message.deleted\<close> event with the ids of the message, for its room; and the notice of a new room
  unchanged, for its user. (The texts of times must parse back, and the ids must not look like
  channel names, which UUIDs never do.)
\<close>

theorem published_events_relayed:
  assumes "\<And>t. parse (fmt t) = Some t"
    and "\<not> contains_sub ''users:'' (roomChannel (msg_RoomID m))"
    and "msg_RoomID m \<noteq> []" and "TrimSpace (msg_RoomID m) = msg_RoomID m"
    and "\<forall>a \<in> set (msg_Attachments m). in_int64 (att_SizeBytes a)"
    and "CHR '':'' \<notin> set u"
  shows "relay parse fmt (roomChannel (msg_RoomID m)) (message_json fmt m)
      = ToRoom (msg_RoomID m) (receive_event fmt m) \<and>
    relay parse fmt (roomChannel (msg_RoomID m)) (deleted_json m)
      = ToRoom (msg_RoomID m) (Event_Encode EventMessageDeleted
          (JObj [(''id'', JStr (msg_ID m)), (''room_id'', JStr (msg_RoomID m))])) \<and>
    relay parse fmt (userChannel u) (room_added_json fmt r) = ToUser u (room_added_json fmt r)"
proof -
  have "relay parse fmt (roomChannel (msg_RoomID m)) (message_json fmt m)
      = ToRoom (msg_RoomID m) (receive_event fmt m)"
    using assms(1,2,3,5) by (intro relay_of_message) auto
  moreover have "relay parse fmt (roomChannel (msg_RoomID m)) (deleted_json m)
      = ToRoom (msg_RoomID m) (Event_Encode EventMessageDeleted
          (JObj [(''id'', JStr (msg_ID m)), (''room_id'', JStr (msg_RoomID m))]))"
    using assms(2,3,4) by (simp add: relay_def deleted_json_decodes relay_deleted_def Let_def)
  moreover have "relay parse fmt (userChannel u) (room_added_json fmt r) = ToUser u (room_added_json fmt r)"
    using userChannel_parts[OF assms(6)] by (simp add: relay_def Let_def)
  ultimately show ?thesis by blast
qed

definition unary_time :: "time \<Rightarrow> string" where
  "unary_time t = (if t < 0 then CHR ''-'' # replicate (nat (- t)) CHR ''t'' else replicate (nat t) CHR ''t'')"

definition read_unary :: "string \<Rightarrow> time option" where
  "read_unary s = (case s of CHR ''-'' # r \<Rightarrow> Some (- int (length r)) | _ \<Rightarrow> Some (int (length s)))"

lemma read_unary_inverts: "read_unary (unary_time t) = Some t"
proof (cases "t < 0")
  case False
  moreover have "replicate n CHR ''t'' = [] \<or> hd (replicate n CHR ''t'') = CHR ''t''" for n by (cases n) auto
  ultimately show ?thesis by (cases "nat t") (auto simp: read_unary_def unary_time_def)
qed (simp add: read_unary_def unary_time_def)

theorem published_events_relayed_witness:
  "relay read_unary unary_time (roomChannel ''r1'') (message_json unary_time (sample_message ''m1'' ''r1'' ''u-ann'' 5))
     = ToRoom ''r1'' (receive_event unary_time (sample_message ''m1'' ''r1'' ''u-ann'' 5))"
proof -
  let ?m = "sample_message ''m1'' ''r1'' ''u-ann'' 5"
  have "\<not> contains_sub ''users:'' (roomChannel (msg_RoomID ?m))"
    by (simp add: sample_message_def roomChannel_def has_prefix_def)
  from published_events_relayed[OF read_unary_inverts this, of "[]"] show ?thesis
    by (simp add: sample_message_def)
qed

section \<open>What a client can write\<close>

abbreviation api_send :: "env \<Rightarrow> (send_message_input \<Rightarrow> (world, err + message) io) option" where
  "api_send E \<equiv> Some (MessageUseCase_Send (NewMessageUseCase (api_messages E)))"

lemma api_send_is [simp]: "MessageUseCase_Send (NewMessageUseCase (api_messages E)) = message_Send (api_messages E)"
  by (simp add: use_case_defs fun_eq_iff)

text \<open>
  A message sent over a websocket is delivered to its room twice: the broadcast that the
  reader hands to its hub is the very one the relay makes of the event that sending the message
  published.
\<close>

theorem ws_send_delivered_twice:
  assumes "handleSendMessage (api_send E) (fmt_time E) c payload w = (Some b, w')"
    and "\<And>t. parse_time E (fmt_time E t) = Some t"
    and "\<forall>a \<in> set (smp_Attachments payload). in_int64 (ap_SizeBytes a)"
    and "\<not> contains_sub ''users:'' (roomChannel (TrimSpace (smp_RoomID payload)))"
  shows "\<exists>ch j. w_log w' = w_log w @ [(ch, j)] \<and>
    relay (parse_time E) (fmt_time E) ch j = ToRoom (bc_RoomID b) (bc_Data b) \<and> bc_Exclude b = None"
proof -
  let ?in = "\<lparr>smi_RoomID = TrimSpace (smp_RoomID payload), smi_SenderID = cl_UserID c,
      smi_Content = TrimSpace (smp_Content payload),
      smi_Attachments = toDomainAttachments (smp_Attachments payload)\<rparr>"
  from assms(1) obtain m where m: "message_Send (api_messages E) ?in w = (Inr m, w')"
    and b: "b = \<lparr>bc_RoomID = msg_RoomID m, bc_Data = receive_event (fmt_time E) m, bc_Exclude = None\<rparr>"
    and ne: "TrimSpace (smp_RoomID payload) \<noteq> []"
    by (auto simp: handleSendMessage_def Let_def split: if_splits prod.splits sum.splits)
  from m obtain m1 w1 where pub: "publish_then (api_messages E) (msg_RoomID m1)
      (message_json (fmt_time E) m1) m1 w1 = (Inr m, w')"
    and cr: "\<exists>msg. MessageRepository_Create E msg w = ((None, m1), w1) \<and> msg_RoomID msg = smi_RoomID ?in \<and>
      msg_Attachments msg = smi_Attachments ?in"
    by (force simp: message_Send_def Let_def go_runtime_def split: if_splits prod.splits option.splits)
  then obtain msg where msg: "MessageRepository_Create E msg w = ((None, m1), w1)"
    "msg_RoomID msg = smi_RoomID ?in" "msg_Attachments msg = smi_Attachments ?in" by blast
  from MessageRepository_Create_row[OF msg(1)] msg(2,3) have m1: "msg_RoomID m1 = smi_RoomID ?in"
    "msg_Attachments m1 = smi_Attachments ?in" "w_log w1 = w_log w" by auto
  note eff = publish_effect(1)[OF pub]
  have "\<forall>a \<in> set (msg_Attachments m). in_int64 (att_SizeBytes a)"
    using assms(3) m1 eff by (auto simp: toDomainAttachments_def to_domain_attachment_def)
  then have "relay (parse_time E) (fmt_time E) (roomChannel (msg_RoomID m)) (message_json (fmt_time E) m)
      = ToRoom (msg_RoomID m) (receive_event (fmt_time E) m)"
    using assms(2,4) m1 eff ne by (intro relay_of_message) auto
  with eff m1 b show ?thesis by auto
qed

definition unary_env :: env where
  "unary_env = sample_env\<lparr>fmt_time := unary_time, parse_time := read_unary\<rparr>"

definition ann_client :: client where
  "ann_client = NewClient ''u-ann'' [''r1''] ''ann''"

definition hello_payload :: send_message_payload where
  "hello_payload = \<lparr>smp_RoomID = ''r1'', smp_Content = ''hello'', smp_Attachments = []\<rparr>"

lemmas socket_eval = unary_env_def ann_client_def hello_payload_def NewClient_def isMember_def
  handleSendMessage_def message_Send_def toDomainAttachments_def

lemma sample_socket_send:
  "\<exists>b w'. handleSendMessage (api_send unary_env) (fmt_time unary_env) ann_client hello_payload chat_world
     = (Some b, w')"
  by (simp add: socket_eval use_case_defs message_eval world_eval chat_eval Let_def TrimSpace_graphic graphic_def)

theorem ws_send_delivered_twice_witness:
  "\<exists>b w' j. handleSendMessage (api_send unary_env) (fmt_time unary_env) ann_client hello_payload chat_world
     = (Some b, w') \<and>
     relay (parse_time unary_env) (fmt_time unary_env) (fst (last (w_log w'))) j = ToRoom (bc_RoomID b) (bc_Data b)"
proof -
  from sample_socket_send obtain b w' where b:
    "handleSendMessage (api_send unary_env) (fmt_time unary_env) ann_client hello_payload chat_world = (Some b, w')"
    by blast
  have "parse_time unary_env (fmt_time unary_env t) = Some t" for t
    by (simp add: unary_env_def read_unary_inverts)
  moreover have "\<forall>a \<in> set (smp_Attachments hello_payload). in_int64 (ap_SizeBytes a)"
    by (simp add: hello_payload_def)
  moreover have "\<not> contains_sub ''users:'' (roomChannel (TrimSpace (smp_RoomID hello_payload)))"
    by (simp add: hello_payload_def roomChannel_def has_prefix_def TrimSpace_graphic graphic_def)
  ultimately obtain ch j where "w_log w' = w_log chat_world @ [(ch, j)]"
    "relay (parse_time unary_env) (fmt_time unary_env) ch j = ToRoom (bc_RoomID b) (bc_Data b)"
    using ws_send_delivered_twice[OF b] by blast
  with b show ?thesis by (intro exI[of _ b] exI[of _ w'] exI[of _ j]) simp
qed

text \<open>
  The step a client may take: it adds messages of its own to rooms of its set, and announces on
  the channels of these rooms.
\<close>

definition own_row :: "env \<Rightarrow> string \<Rightarrow> string set \<Rightarrow> message \<Rightarrow> bool" where
  "own_row E u rooms m \<longleftrightarrow> canon_uuid E u = Some (msg_SenderID m) \<and>
     (\<exists>r \<in> rooms. canon_uuid E r = Some (msg_RoomID m))"

definition writes_as :: "env \<Rightarrow> string \<Rightarrow> string set \<Rightarrow> world \<Rightarrow> world \<Rightarrow> bool" where
  "writes_as E u rooms w w' \<longleftrightarrow>
     (\<exists>rows evs. w_db w' = (w_db w)\<lparr>db_messages := db_messages (w_db w) @ rows\<rparr> \<and>
        w_log w' = w_log w @ evs \<and> w_keys w' = w_keys w \<and>
        list_all (own_row E u rooms) rows \<and> fst ` set evs \<subseteq> roomChannel ` rooms)"

lemma writes_as_refl: "writes_as E u rooms w w"
  by (auto simp: writes_as_def intro!: exI[of _ "[]"])

lemma writes_as_quiet:
  "pg_frame w w' \<Longrightarrow> w_db w' = w_db w \<Longrightarrow> writes_as E u rooms w w'"
  by (auto simp: writes_as_def pg_frame_def intro!: exI[of _ "[]"])

lemma writes_as_trans:
  assumes "writes_as E u rooms a b" and "writes_as E u rooms b c"
  shows "writes_as E u rooms a c"
proof -
  from assms(1) obtain r1 e1 where 1: "w_db b = (w_db a)\<lparr>db_messages := db_messages (w_db a) @ r1\<rparr>"
    "w_log b = w_log a @ e1" "w_keys b = w_keys a" "list_all (own_row E u rooms) r1"
    "fst ` set e1 \<subseteq> roomChannel ` rooms" unfolding writes_as_def by (elim exE conjE) (rule that)
  from assms(2) obtain r2 e2 where 2: "w_db c = (w_db b)\<lparr>db_messages := db_messages (w_db b) @ r2\<rparr>"
    "w_log c = w_log b @ e2" "w_keys c = w_keys b" "list_all (own_row E u rooms) r2"
    "fst ` set e2 \<subseteq> roomChannel ` rooms" unfolding writes_as_def by (elim exE conjE) (rule that)
  from 1 2 show ?thesis
    unfolding writes_as_def by (intro exI[of _ "r1 @ r2"] exI[of _ "e1 @ e2"]) (simp add: image_Un)
qed

interpretation client_writes: step_relation "writes_as E u rooms" for E u rooms
  by unfold_locales (auto intro: writes_as_refl writes_as_trans)

lemma Create_writes:
  assumes "MessageRepository_Create E msg w = (r, w')" and "msg_SenderID msg = u" and "msg_RoomID msg \<in> rooms"
  shows "writes_as E u rooms w w' \<and> msg_RoomID (snd r) = msg_RoomID msg"
proof -
  obtain i w1 where 1: "id_or_new E (msg_ID msg) w = (i, w1)" by fastforce
  obtain t w2 where 2: "time_or_now E (msg_CreatedAt msg) w1 = (t, w2)" by fastforce
  from assms(1) 1 2 obtain m q where m: "snd r = m" "msg_RoomID m = msg_RoomID msg" "msg_SenderID m = msg_SenderID msg"
    and c: "pg_call E (sql_insert_message E m) w2 = (q, w')"
    by (auto simp: MessageRepository_Create_def Let_def split: prod.splits)
  have "writes_as E u rooms w2 w'"
  proof (cases "w_db w' = w_db w2")
    case True
    with pg_call_pg_frame[OF c] show ?thesis by (intro writes_as_quiet)
  next
    case False
    with pg_call_db[OF c] have "w_db w' = snd (sql_insert_message E m (w_db w2))" by simp
    moreover from this False have "fst (sql_insert_message E m (w_db w2)) = Inr ()"
      by (auto simp: sql_insert_message_def with_uuid_def split: option.splits if_splits)
    ultimately have "sql_insert_message E m (w_db w2) = (Inr (), w_db w')"
      by (metis prod.collapse)
    from sql_insert_message_ok[OF this] obtain row where
      "w_db w' = (w_db w2)\<lparr>db_messages := db_messages (w_db w2) @ [row]\<rparr>"
      "canon_uuid E (msg_RoomID m) = Some (msg_RoomID row)"
      "canon_uuid E (msg_SenderID m) = Some (msg_SenderID row)" by fastforce
    with pg_call_pg_frame[OF c] assms(2,3) m(2,3) show ?thesis
      unfolding writes_as_def pg_frame_def own_row_def by (intro exI[of _ "[row]"] exI[of _ "[]"]) auto
  qed
  moreover have "writes_as E u rooms w w2"
    using id_or_new_frame[OF 1] time_or_now_frame[OF 2]
    by (auto intro!: writes_as_quiet simp: pg_frame_def)
  ultimately show ?thesis using m by (auto intro: writes_as_trans)
qed

lemma publish_writes:
  assumes "publish_then (api_messages E) i j m w = (x, w')" and "i \<in> rooms"
  shows "writes_as E u rooms w w' \<and> (\<forall>y. x = Inr y \<longrightarrow> y = m)"
proof -
  obtain q where p: "publishRoomEvent (PubSub_Publish (redis_srv E)) i j w = (q, w')"
    and q: "\<forall>y. x = Inr y \<longrightarrow> y = m"
    using assms(1) by (auto simp: publish_then_def split: prod.splits option.splits)
  have "w_db w' = w_db w \<and> w_keys w' = w_keys w \<and> (w_log w' = w_log w \<or> w_log w' = w_log w @ [(roomChannel i, j)])"
    using p by (auto simp: publishRoomEvent_def PubSub_Publish_def redis_srv_def srv_publish_def Let_def
        split: if_splits)
  then have "writes_as E u rooms w w'"
    unfolding writes_as_def using assms(2)
    by (elim conjE disjE) (auto intro: exI[of _ "[]"] exI[of _ "[(roomChannel i, j)]"])
  with q show ?thesis by blast
qed

lemma Send_writes:
  assumes "message_Send (api_messages E) p w = (r, w')" and "smi_RoomID p \<in> rooms"
  shows "writes_as E (smi_SenderID p) rooms w w' \<and> (\<forall>m. r = Inr m \<longrightarrow> msg_RoomID m = smi_RoomID p)"
proof -
  let ?m = "\<lparr>msg_ID = [], msg_RoomID = smi_RoomID p, msg_SenderID = smi_SenderID p,
      msg_Content = TrimSpace (smi_Content p), msg_Attachments = smi_Attachments p,
      msg_Status = MessageStatusSent, msg_CreatedAt = 0, msg_UpdatedAt = 0\<rparr>"
  obtain e m1 w1 where c: "MessageRepository_Create E ?m w = ((e, m1), w1)" by (metis prod.collapse)
  from Create_writes[OF c, of "smi_SenderID p" rooms] assms(2)
  have 1: "writes_as E (smi_SenderID p) rooms w w1" "msg_RoomID m1 = smi_RoomID p" by simp_all
  from assms(1) c consider "w' = w" "\<forall>m. r \<noteq> Inr m" | "w' = w1" "\<forall>m. r \<noteq> Inr m"
    | "publish_then (api_messages E) (msg_RoomID m1) (message_json (fmt_time E) m1) m1 w1 = (r, w')"
    by (auto simp: message_Send_def Let_def go_runtime_def split: if_splits option.splits)
  then show ?thesis
  proof cases
    case 3
    with publish_writes[OF 3, of rooms "smi_SenderID p"] 1 assms(2) show ?thesis
      by (auto intro: writes_as_trans)
  qed (use 1 writes_as_refl in auto)
qed

lemma read_frame_writes:
  assumes "read_frame (api_send E) fmt self c f w = (b, w')"
  shows "writes_as E (cl_UserID c) (cl_roomSet c) w w' \<and>
    (\<forall>x. b = Some x \<longrightarrow> bc_RoomID x \<in> cl_roomSet c)"
proof -
  have send: "writes_as E (cl_UserID c) (cl_roomSet c) w w' \<and>
      (\<forall>x. b2 = Some x \<longrightarrow> bc_RoomID x \<in> cl_roomSet c)"
    if "handleSendMessage (api_send E) fmt c p w = (b2, w')" for p b2
  proof -
    let ?i = "\<lparr>smi_RoomID = TrimSpace (smp_RoomID p), smi_SenderID = cl_UserID c,
      smi_Content = TrimSpace (smp_Content p), smi_Attachments = toDomainAttachments (smp_Attachments p)\<rparr>"
    obtain r w1 where s: "message_Send (api_messages E) ?i w = (r, w1)" by fastforce
    from that s Send_writes[OF s, of "cl_roomSet c"] show ?thesis
      by (auto simp: handleSendMessage_def isMember_def Let_def writes_as_refl split: if_splits sum.splits)
  qed
  have typing: "bc_RoomID x \<in> cl_roomSet c" if "handleTypingEvent self c e p = Some x" for e p x
    using that by (auto simp: handleTypingEvent_def isMember_def Let_def split: if_splits)
  from assms show ?thesis
    unfolding read_frame_def
    by (auto split: prod.splits bool.splits option.splits if_splits simp: writes_as_refl
        dest: send[unfolded api_send_is] typing)
qed

text \<open>
  C11: Whatever frames a connected client sends, its reader only adds messages with the client's
  user as their sender to rooms the client was admitted to, changes no other row of any table and
  no key of Redis, announces only on the channels of those rooms, and hands the hub broadcasts for
  those rooms only.
\<close>

theorem ws_client_keeps_to_its_rooms:
  assumes "ReadPump (api_send E) fmt self c frames w = (bs, w')"
  shows "writes_as E (cl_UserID c) (cl_roomSet c) w w' \<and> bc_RoomID ` set bs \<subseteq> cl_roomSet c"
  using assms
proof (induction frames arbitrary: w bs)
  case Nil
  then show ?case by (simp add: writes_as_refl)
next
  case (Cons f fs)
  obtain b w1 where f: "read_frame (api_send E) fmt self c f w = (b, w1)" by fastforce
  obtain bs1 w2 where fs: "ReadPump (api_send E) fmt self c fs w1 = (bs1, w2)" by fastforce
  from Cons.prems f fs have "w2 = w'" "set bs \<subseteq> set_option b \<union> set bs1"
    by (auto split: option.splits)
  with read_frame_writes[OF f] Cons.IH[of w1 bs1] fs show ?case
    by (auto intro: writes_as_trans)
qed

definition ann_frames :: "(bool \<times> json option) list" where
  "ann_frames =
     [(True, Some (JObj [(''event'', JStr ''typing_start''), (''data'', JObj [(''room_id'', JStr ''r2'')])])),
      (True, Some (JObj [(''event'', JStr ''send_message''),
                         (''data'', JObj [(''room_id'', JStr ''r1''), (''content'', JStr ''hello'')])])),
      (True, None)]"

theorem ws_client_keeps_to_its_rooms_witness:
  "\<exists>bs w'. ReadPump (api_send unary_env) (fmt_time unary_env) 7 ann_client ann_frames chat_world = (bs, w') \<and>
     bc_RoomID ` set bs \<subseteq> {''r1''} \<and> db_rooms (w_db w') = db_rooms (w_db chat_world)"
proof -
  obtain bs w' where r:
    "ReadPump (api_send unary_env) (fmt_time unary_env) 7 ann_client ann_frames chat_world = (bs, w')" by fastforce
  from ws_client_keeps_to_its_rooms[OF r]
  have "writes_as unary_env (cl_UserID ann_client) (cl_roomSet ann_client) chat_world w'"
    "bc_RoomID ` set bs \<subseteq> cl_roomSet ann_client" by auto
  with r show ?thesis
    by (intro exI[of _ bs] exI[of _ w']) (auto simp: writes_as_def ann_client_def NewClient_def)
qed

section \<open>Admission\<close>

lemma api_list_members [simp]: "RoomUseCase_ListMembers (NewRoomUseCase (api_rooms E)) = room_ListMembers (api_rooms E)"
  by (simp add: use_case_defs fun_eq_iff)

lemma ListMembers_ok:
  assumes "room_ListMembers (api_rooms E) r w = (Inr ms, w')"
  shows "set ms = {m \<in> set (db_members (w_db w)). canon_uuid E r = Some (mem_RoomID m)}"
  using assms
  by (auto simp: room_ListMembers_def RoomRepository_ListMembers_def sql_members_of_def with_uuid_def
      split: if_splits option.splits dest!: pg_call_ok)

lemma ListMembers_db: "room_ListMembers (api_rooms E) r w = (x, w') \<Longrightarrow> w_db w' = w_db w"
  by (auto simp: room_ListMembers_def RoomRepository_ListMembers_def split: if_splits dest!: pg_call_reads)

lemma filtered_rooms:
  assumes "FilterAuthorizedRooms (room_ListMembers (api_rooms E)) u rs w = (out, w')"
  shows "w_db w' = w_db w \<and> set out \<subseteq> set rs \<and>
    (\<forall>r \<in> set out. \<exists>m \<in> set (db_members (w_db w)). canon_uuid E r = Some (mem_RoomID m) \<and> mem_UserID m = u)"
  using assms
proof (induction rs arbitrary: w out w')
  case (Cons r rs)
  obtain x w1 where l: "room_ListMembers (api_rooms E) r w = (x, w1)" by fastforce
  obtain o1 w2 where f: "FilterAuthorizedRooms (room_ListMembers (api_rooms E)) u rs w1 = (o1, w2)" by fastforce
  from Cons.prems l f have o: "w' = w2"
    "out = (case x of Inl e \<Rightarrow> o1 | Inr ms \<Rightarrow> if list_ex (\<lambda>m. mem_UserID m = u) ms then r # o1 else o1)"
    by auto
  show ?case
  proof (cases x)
    case (Inl e)
    with o Cons.IH[OF f] ListMembers_db[OF l] show ?thesis by auto
  next
    case (Inr ms)
    with o Cons.IH[OF f] ListMembers_db[OF l] ListMembers_ok[OF l[unfolded Inr]] show ?thesis
      by (auto simp: list_ex_iff)
  qed
qed simp

lemma serve_ws_connected:
  assumes "serve_ws (NewAuthUseCase (api_auth E A R)) (NewUserUseCase (api_users E))
      (NewRoomUseCase (api_rooms E)) req w = (Connected c, w')"
  shows "w_db w' = w_db w \<and>
    live_value (w_keys w) (w_wall w) (accessKey (TrimSpace
       (if ExtractBearerToken (wr_Authorization req) = [] then wr_access_token req
        else ExtractBearerToken (wr_Authorization req)))) = Some (cl_UserID c) \<and>
    cl_roomSet c = set (cl_Rooms c) \<and> cl_Rooms c \<noteq> [] \<and> cl_roomSet c \<subseteq> set (wr_room_ids req) \<and>
    (\<forall>r \<in> cl_roomSet c. \<exists>m \<in> set (db_members (w_db w)).
       canon_uuid E r = Some (mem_RoomID m) \<and> mem_UserID m = cl_UserID c)"
proof -
  let ?b = "ExtractBearerToken (wr_Authorization req)"
  let ?t = "if ?b = [] then TrimSpace (wr_access_token req) else ?b"
  from assms obtain u w1 out w2 p where
    v: "auth_ValidateAccessToken (api_auth E A R) ?t w = (Inr u, w1)" and
    f: "FilterAuthorizedRooms (room_ListMembers (api_rooms E)) u (wr_room_ids req) w1 = (out, w2)" and
    out: "out \<noteq> []" and g: "user_GetByID (api_users E) u w2 = (Inr p, w')" and
    c: "c = NewClient u out (usr_Username p)"
    by (auto simp: serve_ws_def AuthUseCase_ValidateAccessToken_def NewAuthUseCase_def
        UserUseCase_GetProfile_def NewUserUseCase_def Let_def split: if_splits sum.splits prod.splits)
  have "w_db w' = w_db w2" using g
    by (auto simp: user_GetByID_def split: prod.splits dest!: user_reads_frame(1))
  with filtered_rooms[OF f] validation_db[OF v] ra.validate_accepts[OF v] out c show ?thesis
    by (auto simp: NewClient_def TrimSpace_idem)
qed

text \<open>
  C10: A client is connected only with a token that is live in Redis, as the user of that token,
  and its rooms are a non-empty selection of the requested ones, in each of which the user is a
  member; admission changes no table.
\<close>

theorem ws_admits_members_only:
  assumes "serve_ws (NewAuthUseCase (api_auth E A R)) (NewUserUseCase (api_users E))
      (NewRoomUseCase (api_rooms E)) req w = (Connected c, w')"
  shows "w_db w' = w_db w \<and>
    live_value (w_keys w) (w_wall w) (accessKey (TrimSpace
       (if ExtractBearerToken (wr_Authorization req) = [] then wr_access_token req
        else ExtractBearerToken (wr_Authorization req)))) = Some (cl_UserID c) \<and>
    cl_roomSet c = set (cl_Rooms c) \<and> cl_Rooms c \<noteq> [] \<and> cl_roomSet c \<subseteq> set (wr_room_ids req) \<and>
    (\<forall>r \<in> cl_roomSet c. \<exists>m \<in> set (db_members (w_db w)).
       canon_uuid E r = Some (mem_RoomID m) \<and> mem_UserID m = cl_UserID c)"
  using assms by (rule serve_ws_connected)

definition ann_request :: ws_request where
  "ann_request = \<lparr>wr_Authorization = [], wr_access_token = ''tok'', wr_room_ids = [''r1'', ''r9'', ''r2''],
     wr_upgrades = True\<rparr>"

lemma sample_admission:
  "\<exists>w'. serve_ws (NewAuthUseCase (api_auth sample_env 1000 100000)) (NewUserUseCase (api_users sample_env))
     (NewRoomUseCase (api_rooms sample_env)) ann_request token_world
     = (Connected (NewClient ''u-ann'' [''r1'', ''r2''] ''ann''), w')"
  by (simp add: serve_ws_def ann_request_def token_world_def use_case_defs Let_def ExtractBearerToken_def
      splitn2_def TrimSpace_graphic graphic_def auth_ValidateAccessToken_def extendAccess_def
      room_ListMembers_def RoomRepository_ListMembers_def sql_members_of_def arrange_def
      user_GetByID_def not_found_for_NoRows_def user_repo_eval world_eval chat_eval)

theorem ws_admits_members_only_witness:
  "\<exists>c w'. serve_ws (NewAuthUseCase (api_auth sample_env 1000 100000)) (NewUserUseCase (api_users sample_env))
     (NewRoomUseCase (api_rooms sample_env)) ann_request token_world = (Connected c, w') \<and>
     cl_UserID c = ''u-ann'' \<and> w_db w' = w_db chat_world \<and> ''r9'' \<notin> cl_roomSet c"
proof -
  let ?c = "NewClient ''u-ann'' [''r1'', ''r2''] ''ann''"
  from sample_admission obtain w' where a:
    "serve_ws (NewAuthUseCase (api_auth sample_env 1000 100000)) (NewUserUseCase (api_users sample_env))
     (NewRoomUseCase (api_rooms sample_env)) ann_request token_world = (Connected ?c, w')" by blast
  from ws_admits_members_only[OF a] have "w_db w' = w_db token_world" by blast
  with a show ?thesis
    by (intro exI[of _ ?c] exI[of _ w']) (simp add: NewClient_def token_world_def)
qed

end
