(* ===== verification/Hub_Properties.thy ===== *)
theory Hub_Properties
  imports Hub
begin

text \<open>
  The invariant of the hub and what follows from it: the indexes are exact, a hub without slow
  consumers never panics, a slow consumer leads to a panic, and what a broadcast delivers.
\<close>

section \<open>What the loops do\<close>

lemma members_none [simp]: "members (\<lambda>_. None) k = {}"
  by (simp add: members_def)

lemma members_some: "c \<in> members m k \<Longrightarrow> m k \<noteq> None"
  by (auto simp: members_def split: option.splits)

abbreviation closed :: "hub \<Rightarrow> cid \<Rightarrow> bool" where "closed h c \<equiv> ch_closed (hub_chans h c)"
abbreviation buf :: "hub \<Rightarrow> cid \<Rightarrow> json list" where "buf h c \<equiv> ch_buf (hub_chans h c)"
abbreviation full :: "hub \<Rightarrow> cid \<Rightarrow> bool" where "full h c \<equiv> send_cap \<le> length (buf h c)"

lemma set_chan_simps [simp]:
  "hub_clients (set_chan c ch h) = hub_clients h" "hub_rooms (set_chan c ch h) = hub_rooms h"
  "hub_users (set_chan c ch h) = hub_users h"
  "hub_chans (set_chan c ch h) = (hub_chans h)(c := ch)"
  by (simp_all add: set_chan_def)

lemma offer_Accepted:
  "offer_chan d ch = Accepted ch' \<longleftrightarrow>
   \<not> ch_closed ch \<and> length (ch_buf ch) < send_cap \<and> ch' = ch\<lparr>ch_buf := ch_buf ch @ [d]\<rparr>"
  by (auto simp: offer_chan_def)

lemma offer_Refused: "offer_chan d ch = Refused \<longleftrightarrow> \<not> ch_closed ch \<and> send_cap \<le> length (ch_buf ch)"
  by (auto simp: offer_chan_def)

lemma offer_Panicked: "offer_chan d ch = Panicked \<longleftrightarrow> ch_closed ch"
  by (auto simp: offer_chan_def)

lemmas offer_cases = offer_Accepted offer_Refused offer_Panicked

text \<open>A broadcast, on the clients it is meant for.\<close>

definition delivered :: "broadcast \<Rightarrow> cid set \<Rightarrow> hub \<Rightarrow> hub \<Rightarrow> bool" where
  "delivered b S h h' \<longleftrightarrow>
     hub_clients h' = hub_clients h \<and> hub_rooms h' = hub_rooms h \<and> hub_users h' = hub_users h \<and>
     (\<forall>c. hub_chans h' c =
        (if c \<in> S \<and> bc_Exclude b \<noteq> Some c \<and> \<not> full h c
         then (hub_chans h c)\<lparr>ch_buf := buf h c @ [bc_Data b]\<rparr> else hub_chans h c))"

lemma delivered_skip: "delivered b S h h' \<Longrightarrow> bc_Exclude b = Some c \<Longrightarrow> delivered b (insert c S) h h'"
  by (auto simp: delivered_def)

lemma delivered_insert:
  assumes "delivered b S h1 h'" and "c \<notin> S" and "bc_Exclude b \<noteq> Some c"
    and "hub_clients h1 = hub_clients h" "hub_rooms h1 = hub_rooms h" "hub_users h1 = hub_users h"
    and "\<And>x. x \<noteq> c \<Longrightarrow> hub_chans h1 x = hub_chans h x"
    and "hub_chans h1 c = (if full h c then hub_chans h c
                           else (hub_chans h c)\<lparr>ch_buf := buf h c @ [bc_Data b]\<rparr>)"
  shows "delivered b (insert c S) h h'"
proof -
  have "hub_chans h' x = (if x \<in> insert c S \<and> bc_Exclude b \<noteq> Some x \<and> \<not> full h x
      then (hub_chans h x)\<lparr>ch_buf := buf h x @ [bc_Data b]\<rparr> else hub_chans h x)" for x
    using assms(1,2,3,8) assms(7)[of x] by (cases "x = c") (simp_all add: delivered_def)
  with assms(1,4,5,6) show ?thesis by (simp add: delivered_def)
qed

lemma send_loop_ok:
  "send_loop b cs h = Inr (h', slow) \<Longrightarrow> distinct cs \<Longrightarrow>
   delivered b (set cs) h h' \<and> slow = filter (\<lambda>c. bc_Exclude b \<noteq> Some c \<and> full h c) cs \<and>
   (\<forall>c \<in> set cs. bc_Exclude b \<noteq> Some c \<longrightarrow> \<not> closed h c)"
proof (induction cs arbitrary: h slow)
  case Nil
  then show ?case by (simp add: delivered_def)
next
  case (Cons c cs)
  show ?case
  proof (cases "bc_Exclude b = Some c")
    case True
    with Cons.IH[of h slow] Cons.prems show ?thesis by (simp add: delivered_skip)
  next
    case ex: False
    show ?thesis
    proof (cases "offer_chan (bc_Data b) (hub_chans h c)")
      case (Accepted ch)
      let ?h = "set_chan c ch h"
      from Accepted Cons.prems ex have "send_loop b cs ?h = Inr (h', slow)" by simp
      from Cons.IH[OF this] Cons.prems(2) have ih: "delivered b (set cs) ?h h'"
        "slow = filter (\<lambda>x. bc_Exclude b \<noteq> Some x \<and> full ?h x) cs"
        "\<forall>x \<in> set cs. bc_Exclude b \<noteq> Some x \<longrightarrow> \<not> closed ?h x" by simp_all
      have same: "hub_chans ?h x = hub_chans h x" if "x \<in> set cs" for x
        using Cons.prems(2) that by auto
      have "slow = filter (\<lambda>x. bc_Exclude b \<noteq> Some x \<and> full h x) (c # cs)"
        using ih(2) same Accepted by (auto simp: offer_cases cong: filter_cong)
      moreover have "delivered b (set (c # cs)) h h'"
        unfolding list.set by (rule delivered_insert[OF ih(1)])
          (use Cons.prems(2) ex Accepted in \<open>simp_all add: offer_cases\<close>)
      ultimately show ?thesis using ih(3) same Accepted by (simp add: offer_cases)
    next
      case Refused
      with Cons.prems ex obtain sl where sl: "send_loop b cs h = Inr (h', sl)" "slow = c # sl"
        by (auto split: sum.splits)
      from Cons.IH[OF sl(1)] Cons.prems(2) have ih: "delivered b (set cs) h h'"
        "sl = filter (\<lambda>x. bc_Exclude b \<noteq> Some x \<and> full h x) cs"
        "\<forall>x \<in> set cs. bc_Exclude b \<noteq> Some x \<longrightarrow> \<not> closed h x" by simp_all
      have "delivered b (set (c # cs)) h h'"
        unfolding list.set by (rule delivered_insert[OF ih(1)])
          (use Cons.prems(2) ex Refused in \<open>simp_all add: offer_cases\<close>)
      with ih sl ex Refused show ?thesis by (simp add: offer_cases)
    next
      case Panicked
      with Cons.prems ex show ?thesis by simp
    qed
  qed
qed

lemma send_loop_panics:
  "(\<exists>e. send_loop b cs h = Inl e) \<longleftrightarrow> (\<exists>c \<in> set cs. bc_Exclude b \<noteq> Some c \<and> closed h c)"
  if "distinct cs"
  using that
proof (induction cs arbitrary: h)
  case (Cons c cs)
  show ?case
  proof (cases "bc_Exclude b = Some c")
    case True
    with Cons show ?thesis by auto
  next
    case False
    show ?thesis
    proof (cases "offer_chan (bc_Data b) (hub_chans h c)")
      case (Accepted ch)
      then have "send_loop b (c # cs) h = send_loop b cs (set_chan c ch h)" using False by simp
      moreover have "closed (set_chan c ch h) x = closed h x" for x
        using Accepted by (simp add: offer_cases)
      moreover have "\<not> closed h c" using Accepted by (simp add: offer_cases)
      ultimately show ?thesis using Cons.IH[of "set_chan c ch h"] Cons.prems by simp
    next
      case Refused
      then have "(\<exists>e. send_loop b (c # cs) h = Inl e) \<longleftrightarrow> (\<exists>e. send_loop b cs h = Inl e)"
        using False by (auto split: sum.splits)
      moreover have "\<not> closed h c" using Refused by (simp add: offer_cases)
      ultimately show ?thesis using Cons.IH[of h] Cons.prems by simp
    next
      case Panicked
      then have "\<exists>e. send_loop b (c # cs) h = Inl e" using False by simp
      with False Panicked show ?thesis by (auto simp: offer_cases)
    qed
  qed
qed simp

text \<open>A delivery to a user, on the clients of the user.\<close>

definition user_delivered :: "string \<Rightarrow> json \<Rightarrow> cid set \<Rightarrow> hub \<Rightarrow> hub \<Rightarrow> bool" where
  "user_delivered u d S h h' \<longleftrightarrow>
     hub_clients h' = hub_clients h \<and> hub_rooms h' = hub_rooms h \<and>
     (\<forall>c. hub_chans h' c =
        (if c \<notin> S then hub_chans h c
         else if full h c then (hub_chans h c)\<lparr>ch_closed := True\<rparr>
         else (hub_chans h c)\<lparr>ch_buf := buf h c @ [d]\<rparr>)) \<and>
     (\<forall>v. members (hub_users h') v =
        (if v = u then members (hub_users h) v - {c \<in> S. full h c} else members (hub_users h) v)) \<and>
     (\<forall>c \<in> S. \<not> closed h c)"

lemma user_delivered_insert:
  assumes "user_delivered u d S h1 h'" and "c \<notin> S" and "\<not> closed h c"
    and "hub_clients h1 = hub_clients h" "hub_rooms h1 = hub_rooms h"
    and "\<And>x. x \<noteq> c \<Longrightarrow> hub_chans h1 x = hub_chans h x"
    and "hub_chans h1 c = (if full h c then (hub_chans h c)\<lparr>ch_closed := True\<rparr>
                           else (hub_chans h c)\<lparr>ch_buf := buf h c @ [d]\<rparr>)"
    and "\<And>v. members (hub_users h1) v = (if v = u \<and> full h c then members (hub_users h) v - {c}
                                         else members (hub_users h) v)"
  shows "user_delivered u d (insert c S) h h'"
proof -
  have same: "hub_chans h1 x = hub_chans h x" if "x \<in> S" for x
    using assms(2,6) that by (metis (full_types))
  have "{x \<in> S. full h1 x} = {x \<in> S. full h x}" using same by auto
  moreover have "{x \<in> insert c S. full h x} = (if full h c then insert c {x \<in> S. full h x} else {x \<in> S. full h x})"
    by auto
  moreover have "hub_chans h' x = (if x \<notin> insert c S then hub_chans h x
      else if full h x then (hub_chans h x)\<lparr>ch_closed := True\<rparr>
      else (hub_chans h x)\<lparr>ch_buf := buf h x @ [d]\<rparr>)" for x
    using assms(1,2,6,7) same[of x] by (cases "x = c"; cases "x \<in> S") (simp_all add: user_delivered_def)
  moreover have "\<forall>x \<in> insert c S. \<not> closed h x"
    using assms(1,3) same by (auto simp: user_delivered_def)
  ultimately show ?thesis
    using assms(1,4,5,8) by (auto simp: user_delivered_def)
qed

lemma user_loop_ok: "user_loop u d cs h = Inr h' \<Longrightarrow> distinct cs \<Longrightarrow> user_delivered u d (set cs) h h'"
proof (induction cs arbitrary: h)
  case Nil
  then show ?case by (simp add: user_delivered_def)
next
  case (Cons c cs)
  show ?case
  proof (cases "offer_chan d (hub_chans h c)")
    case (Accepted ch)
    with Cons.prems have "user_delivered u d (set cs) (set_chan c ch h) h'"
      by (intro Cons.IH) simp_all
    then show ?thesis
      unfolding list.set by (rule user_delivered_insert)
        (use Accepted Cons.prems(2) in \<open>simp_all add: offer_cases\<close>)
  next
    case Refused
    let ?h = "(set_chan c ((hub_chans h c)\<lparr>ch_closed := True\<rparr>) h)
        \<lparr>hub_users := (hub_users h)(u \<mapsto> members (hub_users h) u - {c})\<rparr>"
    have "\<not> closed h c" using Refused by (simp add: offer_cases)
    with Refused Cons.prems have "user_delivered u d (set cs) ?h h'"
      by (intro Cons.IH) (simp_all add: close_chan_def)
    then show ?thesis
      unfolding list.set by (rule user_delivered_insert)
        (use Refused Cons.prems(2) in \<open>simp_all add: offer_cases members_def\<close>)
  next
    case Panicked
    with Cons.prems show ?thesis by simp
  qed
qed

lemma close_loop_ok:
  "close_loop cs h = Inr h' \<Longrightarrow> hub_rooms h' = hub_rooms h \<and> hub_users h' = hub_users h \<and>
   hub_clients h' = hub_clients h \<and>
   (\<forall>c. hub_chans h' c = (if c \<in> set cs then (hub_chans h c)\<lparr>ch_closed := True\<rparr> else hub_chans h c))"
  by (induction cs arbitrary: h) (auto simp: close_chan_def split: if_splits sum.splits)

lemma removeClient_ok:
  "removeClient G c h = Inr h' \<Longrightarrow> \<not> closed h c \<and>
   hub_clients h' = hub_clients h - {c} \<and> hub_rooms h' = hub_rooms (drop_client G c h) \<and>
   hub_users h' = hub_users (drop_client G c h) \<and>
   hub_chans h' = (hub_chans h)(c := (hub_chans h c)\<lparr>ch_closed := True\<rparr>)"
  by (auto simp: removeClient_def close_chan_def drop_client_def split: if_splits sum.splits)

lemma removeClient_panics: "(\<exists>e. removeClient G c h = Inl e) \<longleftrightarrow> closed h c"
  by (simp add: removeClient_def close_chan_def)

section \<open>The invariant\<close>

definition hub_inv :: "(cid \<Rightarrow> client) \<Rightarrow> sys \<Rightarrow> bool" where
  "hub_inv G s \<longleftrightarrow>
     (let h = sys_hub s in
      (\<forall>c \<in> hub_clients h. sys_reader s c = Reading \<or> sys_reader s c = Leaving) \<and>
      (\<forall>r. hub_rooms h r \<noteq> Some {} \<and> members (hub_rooms h) r = {c \<in> hub_clients h. r \<in> set (cl_Rooms (G c))}) \<and>
      (sys_running s \<longrightarrow>
         (\<forall>u. members (hub_users h) u = {c \<in> hub_clients h. cl_UserID (G c) = u \<and> \<not> closed h c})) \<and>
      (\<forall>c. c \<notin> hub_clients h \<and> sys_reader s c \<noteq> Unborn \<longrightarrow> closed h c) \<and>
      (\<forall>c. sys_reader s c = Unborn \<longrightarrow> hub_chans h c = new_chan) \<and>
      (\<forall>c. c \<in># sys_evictions s \<longrightarrow> sys_reader s c \<noteq> Unborn) \<and>
      (\<forall>c. length (buf h c) \<le> send_cap))"

lemma hub_inv_init: "hub_inv G init_sys"
  by (simp add: hub_inv_def init_sys_def NewHub_def members_def new_chan_def)

lemma inv_register:
  assumes "hub_inv G s" and "sys_reader s c = Unborn"
  shows "hub_inv G (s\<lparr>sys_hub := addClient G c (sys_hub s), sys_reader := (sys_reader s)(c := Reading)\<rparr>)"
  using assms unfolding hub_inv_def Let_def addClient_def
  by (auto simp: ix.get_add ix.get_fold_add ix.tidy_fold_add new_chan_def)

lemma inv_leave:
  assumes "hub_inv G s" and "sys_reader s c = Reading"
  shows "hub_inv G (s\<lparr>sys_reader := (sys_reader s)(c := Leaving)\<rparr>)"
  using assms unfolding hub_inv_def Let_def by (simp split: if_split)

lemma inv_written:
  assumes "hub_inv G s" and "buf (sys_hub s) c = d # ds"
  shows "hub_inv G (s\<lparr>sys_hub := set_chan c ((hub_chans (sys_hub s) c)\<lparr>ch_buf := ds\<rparr>) (sys_hub s)\<rparr>)"
proof -
  have "length (buf (sys_hub s) c) \<le> send_cap" using assms(1) by (simp add: hub_inv_def Let_def)
  moreover have "sys_reader s c \<noteq> Unborn"
    using assms by (auto simp: hub_inv_def Let_def new_chan_def)
  ultimately show ?thesis using assms unfolding hub_inv_def Let_def by auto
qed

lemma inv_unregister:
  assumes "hub_inv G s" and "removeClient G c (sys_hub s) = Inr h" and "sys_reader s c = Leaving"
  shows "hub_inv G (s\<lparr>sys_reader := (sys_reader s)(c := Gone), sys_hub := h\<rparr>)"
  using assms(1,3) removeClient_ok[OF assms(2)] unfolding hub_inv_def Let_def drop_client_def
  by (auto simp: ix.get_rem ix.get_fold_rem ix.tidy_fold_rem split: if_splits)

lemma inv_evict:
  assumes "hub_inv G s" and "removeClient G c (sys_hub s) = Inr h" and "c \<in># sys_evictions s"
  shows "hub_inv G (s\<lparr>sys_evictions := sys_evictions s - {#c#}, sys_hub := h\<rparr>)"
proof -
  have "sys_reader s c \<noteq> Unborn" using assms(1,3) by (simp add: hub_inv_def Let_def)
  with assms(1,3) removeClient_ok[OF assms(2)] show ?thesis
    unfolding hub_inv_def Let_def drop_client_def
    by (auto simp: ix.get_rem ix.get_fold_rem ix.tidy_fold_rem split: if_splits dest: in_diffD)
qed

lemma inv_broadcast:
  assumes "hub_inv G s" and "delivered b S (sys_hub s) h" and "\<forall>c \<in> S. sys_reader s c \<noteq> Unborn"
    and "set_mset ev \<subseteq> set_mset (sys_evictions s) \<union> S"
  shows "hub_inv G (s\<lparr>sys_hub := h, sys_evictions := ev\<rparr>)"
proof -
  have "closed h c = closed (sys_hub s) c" for c using assms(2) by (simp add: delivered_def)
  moreover have "length (buf h c) \<le> send_cap" for c
  proof -
    have "length (buf (sys_hub s) c) \<le> send_cap" using assms(1) by (simp add: hub_inv_def Let_def)
    then show ?thesis using assms(2) by (auto simp: delivered_def)
  qed
  moreover have "hub_chans h c = new_chan" if "sys_reader s c = Unborn" for c
    using that assms(1,2,3) by (auto simp: delivered_def hub_inv_def Let_def)
  ultimately show ?thesis using assms
    unfolding hub_inv_def Let_def by (auto simp: delivered_def)
qed

lemma inv_user_event:
  assumes "hub_inv G s" and "user_delivered u d S (sys_hub s) h"
    and S: "S = members (hub_users (sys_hub s)) u" and born: "\<forall>c \<in> S. sys_reader s c \<noteq> Unborn"
  shows "hub_inv G (s\<lparr>sys_hub := h\<rparr>)"
proof -
  let ?h = "sys_hub s"
  have cl: "closed h c \<longleftrightarrow> closed ?h c \<or> (c \<in> S \<and> full ?h c)" for c
    using assms(2) by (auto simp: user_delivered_def)
  have len: "length (buf h c) \<le> send_cap" for c
  proof -
    have "length (buf ?h c) \<le> send_cap" using assms(1) by (simp add: hub_inv_def Let_def)
    then show ?thesis using assms(2) by (auto simp: user_delivered_def)
  qed
  have new: "hub_chans h c = new_chan" if "sys_reader s c = Unborn" for c
    using that assms(1,2) born by (auto simp: user_delivered_def hub_inv_def Let_def)
  have idx: "members (hub_users h) v = {c \<in> hub_clients h. cl_UserID (G c) = v \<and> \<not> closed h c}"
    if "sys_running s" for v
  proof -
    have "members (hub_users ?h) v = {c \<in> hub_clients ?h. cl_UserID (G c) = v \<and> \<not> closed ?h c}" for v
      using assms(1) that by (simp add: hub_inv_def Let_def)
    with cl S assms(2) show ?thesis by (auto simp: user_delivered_def)
  qed
  show ?thesis using assms(1,2) cl len new idx
    unfolding hub_inv_def Let_def by (auto simp: user_delivered_def)
qed

lemma inv_shutdown:
  assumes "hub_inv G s" and "shutdown order (sys_hub s) = Inr h"
    and "iterates order (hub_clients (sys_hub s))"
  shows "hub_inv G (s\<lparr>sys_running := False, sys_hub := h\<rparr>)"
proof -
  from assms(2) obtain h1 where c: "close_loop order (sys_hub s) = Inr h1"
    and h: "h = h1\<lparr>hub_clients := {}, hub_rooms := (\<lambda>_. None)\<rparr>"
    by (auto simp: shutdown_def split: sum.splits)
  have "c \<notin> set order" if "sys_reader s c = Unborn" for c
    using assms(1,3) that by (auto simp: hub_inv_def Let_def iterates_def)
  with close_loop_ok[OF c] assms(1,3) show ?thesis
    unfolding hub_inv_def Let_def h by (auto simp: members_def iterates_def)
qed

lemma inv_members:
  assumes "hub_inv G s" and "c \<in> members (hub_rooms (sys_hub s)) r"
  shows "c \<in> hub_clients (sys_hub s) \<and> r \<in> set (cl_Rooms (G c)) \<and> sys_reader s c \<noteq> Unborn"
  using assms unfolding hub_inv_def Let_def by fastforce

text \<open>After the shutdown the index by user is stale; its clients were registered all the same.\<close>

definition users_born :: "sys \<Rightarrow> bool" where
  "users_born s \<longleftrightarrow> (\<forall>u. \<forall>c \<in> members (hub_users (sys_hub s)) u. sys_reader s c \<noteq> Unborn)"

lemma users_born_step: "hub_step G s (Inr s') \<Longrightarrow> hub_inv G s \<Longrightarrow> users_born s \<Longrightarrow> users_born s'"
proof (induction s "Inr s' :: err + sys" rule: hub_step.induct)
  case (unregister s c)
  then show ?case
    by (auto simp: put_hub_def users_born_def drop_client_def ix.get_rem split: sum.splits if_splits
        dest!: removeClient_ok)
next
  case (evict s c)
  then show ?case
    by (auto simp: put_hub_def users_born_def drop_client_def ix.get_rem split: sum.splits if_splits
        dest!: removeClient_ok)
next
  case (broadcast s order b h slow)
  then show ?case
    by (auto simp: users_born_def sendToRoom_def iterates_def delivered_def dest!: send_loop_ok)
next
  case (user_event order s u d)
  then show ?case
    by (auto simp: put_hub_def users_born_def SendToUser_def iterates_def user_delivered_def
        split: sum.splits option.splits if_splits dest!: user_loop_ok)
next
  case (stop s order)
  then show ?case
    by (auto simp: put_hub_def users_born_def shutdown_def split: sum.splits dest!: close_loop_ok)
qed (auto simp: users_born_def addClient_def ix.get_add split: if_splits)

lemma hub_inv_step: "hub_step G s (Inr s') \<Longrightarrow> hub_inv G s \<Longrightarrow> users_born s \<Longrightarrow> hub_inv G s'"
proof (induction s "Inr s' :: err + sys" rule: hub_step.induct)
  case (register s c)
  with inv_register[of G s c] show ?case by simp
next
  case (read_error s c)
  with inv_leave[of G s c] show ?case by simp
next
  case (unregister s c)
  with inv_unregister[of G s c] show ?case by (auto simp: put_hub_def split: sum.splits)
next
  case (evict s c)
  with inv_evict[of G s c] show ?case by (auto simp: put_hub_def split: sum.splits)
next
  case (broadcast s order b h slow)
  then have "delivered b (set order) (sys_hub s) h" "set slow \<subseteq> set order"
    by (auto simp: sendToRoom_def iterates_def dest!: send_loop_ok)
  moreover have "\<forall>c \<in> set order. sys_reader s c \<noteq> Unborn"
    using broadcast by (auto simp: iterates_def dest: inv_members)
  ultimately have "hub_inv G (s\<lparr>sys_hub := h, sys_evictions := sys_evictions s + mset slow\<rparr>)"
    using broadcast by (intro inv_broadcast[of G s b "set order"]) auto
  with broadcast show ?case by simp
next
  case (user_event order s u d)
  show ?case
  proof (cases "hub_users (sys_hub s) u")
    case None
    with user_event show ?thesis by (simp add: put_hub_def SendToUser_def)
  next
    case (Some S)
    with user_event obtain h where "user_loop u d order (sys_hub s) = Inr h" "s' = s\<lparr>sys_hub := h\<rparr>"
      by (auto simp: put_hub_def SendToUser_def split: sum.splits)
    with user_event inv_user_event[of G s u d "set order" h] user_loop_ok[of u d order "sys_hub s" h]
    show ?thesis by (auto simp: iterates_def users_born_def)
  qed
next
  case (written s c d ds)
  with inv_written[of G s c d ds] show ?case by simp
next
  case (stop s order)
  then show ?case
    using inv_shutdown[of G s order] by (auto simp: put_hub_def split: sum.splits)
qed

lemma hub_reach_inv: "hub_reach G s \<Longrightarrow> hub_inv G s \<and> users_born s"
proof (induction rule: hub_reach.induct)
  case start
  have "users_born init_sys" by (simp add: users_born_def init_sys_def NewHub_def members_def)
  with hub_inv_init show ?case by blast
next
  case (step s s')
  then show ?case using hub_inv_step users_born_step by blast
qed

section \<open>Properties\<close>

text \<open>
  C21: In every reachable state the rooms of the hub are exactly the rooms of the connected
  clients, with no empty entry left behind; while the hub runs, the clients of a user are exactly
  the connected ones whose channel is open; and no channel holds more than 256 payloads.
\<close>

theorem hub_indexes_exact:
  assumes "hub_reach G s"
  shows "(\<forall>r. hub_rooms (sys_hub s) r =
      (let S = {c \<in> hub_clients (sys_hub s). r \<in> set (cl_Rooms (G c))} in if S = {} then None else Some S)) \<and>
    (sys_running s \<longrightarrow> (\<forall>u. members (hub_users (sys_hub s)) u =
      {c \<in> hub_clients (sys_hub s). cl_UserID (G c) = u \<and> \<not> closed (sys_hub s) c})) \<and>
    (\<forall>c. length (buf (sys_hub s) c) \<le> 256)"
proof -
  note inv = conjunct1[OF hub_reach_inv[OF assms]]
  have "hub_rooms (sys_hub s) r =
      (let S = {c \<in> hub_clients (sys_hub s). r \<in> set (cl_Rooms (G c))} in if S = {} then None else Some S)" for r
  proof -
    from inv have "hub_rooms (sys_hub s) r \<noteq> Some {}" "members (hub_rooms (sys_hub s)) r
        = {c \<in> hub_clients (sys_hub s). r \<in> set (cl_Rooms (G c))}"
      by (simp_all add: hub_inv_def Let_def)
    then show ?thesis by (cases "hub_rooms (sys_hub s) r") (simp_all add: members_def Let_def)
  qed
  with inv show ?thesis by (simp add: hub_inv_def send_cap_def Let_def)
qed

definition one_client :: "cid \<Rightarrow> client" where
  "one_client c = \<lparr>cl_UserID = ''u-ann'', cl_Username = ''ann'', cl_Rooms = [''r1''], cl_roomSet = {''r1''}\<rparr>"

lemma one_registered: "hub_reach G (init_sys\<lparr>sys_hub := addClient G c NewHub, sys_reader := (\<lambda>_. Unborn)(c := Reading)\<rparr>)"
  using hub_reach.step[OF hub_reach.start hub_step.register[of init_sys c G]]
  by (simp add: init_sys_def)

theorem hub_indexes_exact_witness:
  "\<exists>s. hub_reach one_client s \<and> members (hub_users (sys_hub s)) ''u-ann'' = {0} \<and>
     hub_rooms (sys_hub s) ''r1'' = Some {0}"
proof -
  let ?s = "init_sys\<lparr>sys_hub := addClient one_client 0 NewHub, sys_reader := (\<lambda>_. Unborn)(0 := Reading)\<rparr>"
  have "hub_clients (sys_hub ?s) = {0}" "sys_running ?s" "\<not> closed (sys_hub ?s) 0"
    by (simp_all add: init_sys_def NewHub_def addClient_def new_chan_def)
  with hub_indexes_exact[OF one_registered[of one_client 0]] one_registered[of one_client 0]
  show ?thesis by (intro exI[of _ ?s]) (auto simp: one_client_def)
qed

text \<open>
  C22: A broadcast to a room appends its payload, once, to the channel of every client of the room
  that is not the excluded one and whose channel has space, and changes no other channel; the
  clients queued for removal are exactly those of the room that are not excluded and have no
  space. The order in which the clients are visited makes no difference.
\<close>

theorem broadcast_delivers:
  assumes "iterates order (members (hub_rooms h) (bc_RoomID b))"
    and "sendToRoom b order h = Inr (h', slow)"
  shows "(\<forall>c. hub_chans h' c =
      (if c \<in> members (hub_rooms h) (bc_RoomID b) \<and> bc_Exclude b \<noteq> Some c \<and> length (buf h c) < 256
       then (hub_chans h c)\<lparr>ch_buf := buf h c @ [bc_Data b]\<rparr> else hub_chans h c)) \<and>
    hub_clients h' = hub_clients h \<and> hub_rooms h' = hub_rooms h \<and> hub_users h' = hub_users h \<and>
    set slow = {c \<in> members (hub_rooms h) (bc_RoomID b). bc_Exclude b \<noteq> Some c \<and> 256 \<le> length (buf h c)} \<and>
    (\<forall>order2. iterates order2 (members (hub_rooms h) (bc_RoomID b)) \<longrightarrow>
       (\<exists>slow2. sendToRoom b order2 h = Inr (h', slow2) \<and> mset slow2 = mset slow))"
proof -
  let ?S = "members (hub_rooms h) (bc_RoomID b)"
  from assms(1) have o: "distinct order" "set order = ?S" by (simp_all add: iterates_def)
  note one = send_loop_ok[OF assms(2)[unfolded sendToRoom_def] o(1)]
  have other: "\<exists>slow2. sendToRoom b order2 h = Inr (h', slow2) \<and> mset slow2 = mset slow"
    if "iterates order2 ?S" for order2
  proof -
    from that have o2: "distinct order2" "set order2 = ?S" by (simp_all add: iterates_def)
    have "\<nexists>e. send_loop b order2 h = Inl e"
      unfolding send_loop_panics[OF o2(1), of b h] using one o o2 by blast
    then obtain h2 slow2 where l: "send_loop b order2 h = Inr (h2, slow2)"
      by (cases "send_loop b order2 h") auto
    note two = send_loop_ok[OF l o2(1)]
    have "h2 = h'" using one two o o2 by (auto simp: delivered_def fun_eq_iff intro: hub.equality)
    moreover have "mset order2 = mset order" using o o2 by (simp add: set_eq_iff_mset_eq_distinct[symmetric])
    then have "mset slow2 = mset slow" using one two by (simp add: mset_filter)
    ultimately show ?thesis using l by (simp add: sendToRoom_def)
  qed
  with one o show ?thesis by (auto simp: delivered_def send_cap_def)
qed

theorem broadcast_delivers_witness:
  "\<exists>h'. sendToRoom \<lparr>bc_RoomID = ''r1'', bc_Data = JNull, bc_Exclude = None\<rparr> [0] (addClient one_client 0 NewHub)
     = Inr (h', []) \<and> buf h' 0 = [JNull]"
proof -
  let ?b = "\<lparr>bc_RoomID = ''r1'', bc_Data = JNull, bc_Exclude = None\<rparr>"
  let ?h = "addClient one_client 0 NewHub"
  have r: "members (hub_rooms ?h) ''r1'' = {0}" "buf ?h 0 = []"
    by (simp_all add: addClient_def one_client_def NewHub_def members_def add_to_def new_chan_def)
  have "\<exists>h'. sendToRoom ?b [0] ?h = Inr (h', [])"
    by (simp add: sendToRoom_def offer_chan_def addClient_def NewHub_def new_chan_def send_cap_def)
  then obtain h' where s: "sendToRoom ?b [0] ?h = Inr (h', [])" by blast
  have i: "iterates [0] (members (hub_rooms ?h) (bc_RoomID ?b))" using r by (simp add: iterates_def)
  from broadcast_delivers[OF i s] r s show ?thesis by simp
qed

section \<open>Without slow consumers\<close>

text \<open>States reached by steps that are taken only while every channel has space.\<close>

definition roomy :: "sys \<Rightarrow> bool" where
  "roomy s \<longleftrightarrow> (\<forall>c. length (buf (sys_hub s) c) < send_cap)"

inductive calm_reach :: "(cid \<Rightarrow> client) \<Rightarrow> sys \<Rightarrow> bool" for G where
  calm_start: "calm_reach G init_sys"
| calm_step: "calm_reach G s \<Longrightarrow> roomy s \<Longrightarrow> hub_step G s (Inr s') \<Longrightarrow> calm_reach G s'"

definition calm :: "sys \<Rightarrow> bool" where
  "calm s \<longleftrightarrow> (sys_running s \<longrightarrow>
     sys_evictions s = {#} \<and> (\<forall>c. closed (sys_hub s) c \<longrightarrow> sys_reader s c = Gone))"

lemma calm_keeps:
  "hub_step G s (Inr s') \<Longrightarrow> hub_inv G s \<Longrightarrow> roomy s \<Longrightarrow> calm s \<Longrightarrow> calm s'"
proof (induction s "Inr s' :: err + sys" rule: hub_step.induct)
  case (register s c)
  then have "\<not> closed (sys_hub s) c" by (simp add: hub_inv_def Let_def new_chan_def)
  with register show ?case by (auto simp: calm_def addClient_def)
next
  case (unregister s c)
  then show ?case by (auto simp: put_hub_def calm_def split: sum.splits dest!: removeClient_ok)
next
  case (broadcast s order b h slow)
  then have d: "delivered b (set order) (sys_hub s) h"
    and "slow = filter (\<lambda>c. bc_Exclude b \<noteq> Some c \<and> full (sys_hub s) c) order"
    by (auto simp: sendToRoom_def iterates_def dest!: send_loop_ok)
  with broadcast have "slow = []" by (auto simp: roomy_def filter_empty_conv not_le)
  moreover have "closed h c = closed (sys_hub s) c" for c using d by (simp add: delivered_def)
  ultimately show ?case using broadcast by (auto simp: calm_def)
next
  case (user_event order s u d)
  show ?case
  proof (cases "hub_users (sys_hub s) u")
    case None
    with user_event show ?thesis by (simp add: put_hub_def SendToUser_def calm_def)
  next
    case (Some S)
    with user_event obtain h where h: "user_loop u d order (sys_hub s) = Inr h" "s' = s\<lparr>sys_hub := h\<rparr>"
      by (auto simp: put_hub_def SendToUser_def split: sum.splits)
    with user_event user_loop_ok[OF h(1)] have "closed h c = closed (sys_hub s) c" for c
      by (auto simp: iterates_def user_delivered_def roomy_def not_le[symmetric])
    with user_event h show ?thesis by (auto simp: calm_def)
  qed
qed (auto simp: calm_def put_hub_def split: sum.splits if_splits)

lemma calm_reach_calm: "calm_reach G s \<Longrightarrow> hub_reach G s \<and> calm s"
proof (induction rule: calm_reach.induct)
  case calm_start
  have "calm init_sys" by (simp add: calm_def init_sys_def NewHub_def new_chan_def)
  then show ?case by (simp add: hub_reach.start)
next
  case (calm_step s s')
  then show ?case using calm_keeps hub_reach_inv hub_reach.step by blast
qed

text \<open>A step that panics meets a closed channel.\<close>

lemma user_loop_panics: "user_loop u d cs h = Inl e \<Longrightarrow> distinct cs \<Longrightarrow> \<exists>c \<in> set cs. closed h c"
proof (induction cs arbitrary: h)
  case (Cons c cs)
  show ?case
  proof (cases "closed h c")
    case False
    from Cons.prems(2) have "x \<in> set cs \<Longrightarrow> x \<noteq> c" for x by auto
    with Cons False show ?thesis
      by (auto simp: offer_chan_def close_chan_def split: if_splits dest!: Cons.IH)
  qed simp
qed simp

lemma close_loop_panics: "close_loop cs h = Inl e \<Longrightarrow> distinct cs \<Longrightarrow> \<exists>c \<in> set cs. closed h c"
proof (induction cs arbitrary: h)
  case (Cons c cs)
  show ?case
  proof (cases "closed h c")
    case False
    from Cons.prems(2) have "x \<in> set cs \<Longrightarrow> x \<noteq> c" for x by auto
    with Cons False show ?thesis by (auto simp: close_chan_def dest!: Cons.IH)
  qed simp
qed simp

text \<open>
  C29: As long as steps are taken only while no channel is full, that is without a slow consumer,
  the running hub never panics: no order of registrations, disconnections, broadcasts, user
  events, writes and the shutdown sends on a closed channel or closes one twice.
\<close>

theorem no_slow_consumer_no_panic:
  assumes "calm_reach G s" and "sys_running s"
  shows "\<not> hub_step G s (Inl e)"
proof
  note r = calm_reach_calm[OF assms(1)]
  have inv: "hub_inv G s" using hub_reach_inv r by blast
  have gone: "sys_reader s c = Gone" if "closed (sys_hub s) c" for c using r assms(2) that by (simp add: calm_def)
  have none: "c \<notin># sys_evictions s" for c using r assms(2) by (simp add: calm_def)
  have open_clients: "\<not> closed (sys_hub s) c" if "c \<in> hub_clients (sys_hub s)" for c
    using inv that gone[of c] by (force simp: hub_inv_def Let_def)
  assume "hub_step G s (Inl e)"
  then show False
  proof (cases rule: hub_step.cases)
    case (unregister c)
    with gone[of c] removeClient_panics[of G c "sys_hub s"] show False
      by (auto simp: put_hub_def split: sum.splits)
  next
    case (evict c)
    with none show False by simp
  next
    case (broadcast_panic order b)
    then have d: "distinct order" "set order = members (hub_rooms (sys_hub s)) (bc_RoomID b)"
      by (simp_all add: iterates_def)
    from broadcast_panic have "\<exists>e. send_loop b order (sys_hub s) = Inl e" by (auto simp: sendToRoom_def)
    then obtain c where "c \<in> members (hub_rooms (sys_hub s)) (bc_RoomID b)" "closed (sys_hub s) c"
      unfolding send_loop_panics[OF d(1)] using d(2) by blast
    with inv_members[OF inv] open_clients show False by blast
  next
    case (user_event order u d)
    then obtain x where x: "user_loop u d order (sys_hub s) = Inl x"
      by (auto simp: put_hub_def SendToUser_def split: sum.splits option.splits)
    then obtain c where "c \<in> members (hub_users (sys_hub s)) u" "closed (sys_hub s) c"
      using user_loop_panics[OF x] user_event(2) by (auto simp: iterates_def)
    then show False using inv assms(2) by (auto simp: hub_inv_def Let_def)
  next
    case (stop order)
    then obtain x where x: "close_loop order (sys_hub s) = Inl x"
      by (auto simp: put_hub_def shutdown_def split: sum.splits)
    then obtain c where "c \<in> hub_clients (sys_hub s)" "closed (sys_hub s) c"
      using close_loop_panics[OF x] stop by (auto simp: iterates_def)
    then show False using open_clients by blast
  qed
qed

theorem no_slow_consumer_no_panic_witness:
  "\<exists>s. calm_reach one_client s \<and> sys_reader s 0 = Reading \<and> (\<forall>e. \<not> hub_step one_client s (Inl e))"
proof -
  let ?s = "init_sys\<lparr>sys_hub := addClient one_client 0 NewHub, sys_reader := (\<lambda>_. Unborn)(0 := Reading)\<rparr>"
  have "roomy init_sys" by (simp add: roomy_def init_sys_def NewHub_def new_chan_def send_cap_def)
  from calm_step[OF calm_start this hub_step.register[of init_sys 0 one_client]]
  have c: "calm_reach one_client ?s" by (simp add: init_sys_def)
  have "sys_running ?s" by (simp add: init_sys_def)
  from no_slow_consumer_no_panic[OF c this] c show ?thesis by (intro exI[of _ ?s]) simp
qed

section \<open>Slow consumers\<close>

text \<open>A single registered client of the room \<open>r\<close> after \<open>n\<close> broadcasts that nobody has taken.\<close>

definition stuffed :: "(cid \<Rightarrow> client) \<Rightarrow> cid \<Rightarrow> nat \<Rightarrow> sys" where
  "stuffed G c n = init_sys
     \<lparr>sys_hub := set_chan c \<lparr>ch_buf = replicate n JNull, ch_closed = False\<rparr> (addClient G c NewHub),
      sys_reader := (\<lambda>_. Unborn)(c := Reading)\<rparr>"

lemma stuffed_rooms:
  "r \<in> set (cl_Rooms (G c)) \<Longrightarrow> members (hub_rooms (sys_hub (stuffed G c n))) r = {c}"
  by (simp add: stuffed_def addClient_def NewHub_def ix.get_fold_add)

lemma stuffed_0: "hub_reach G (stuffed G c 0)"
proof -
  have "set_chan c \<lparr>ch_buf = [], ch_closed = False\<rparr> (addClient G c NewHub) = addClient G c NewHub"
    by (simp add: set_chan_def addClient_def NewHub_def new_chan_def fun_upd_idem)
  with one_registered[of G c] show ?thesis by (simp add: stuffed_def)
qed

lemma stuffed_chan [simp]: "hub_chans (sys_hub (stuffed G c n)) c = \<lparr>ch_buf = replicate n JNull, ch_closed = False\<rparr>"
  by (simp add: stuffed_def)

lemma stuffed_Suc:
  assumes "hub_reach G (stuffed G c n)" and "r \<in> set (cl_Rooms (G c))" and "n < send_cap"
  shows "hub_reach G (stuffed G c (Suc n))"
proof -
  let ?s = "stuffed G c n" and ?b = "\<lparr>bc_RoomID = r, bc_Data = JNull, bc_Exclude = None\<rparr>"
  have i: "iterates [c] (members (hub_rooms (sys_hub ?s)) (bc_RoomID ?b))"
    using stuffed_rooms[of r G c, OF assms(2)] by (simp add: iterates_def)
  have "sendToRoom ?b [c] (sys_hub ?s) = Inr (sys_hub (stuffed G c (Suc n)), [])"
    using assms(3) by (simp add: sendToRoom_def offer_chan_def set_chan_def stuffed_def replicate_append_same)
  from hub_step.broadcast[OF _ i this, of G]
  have "hub_step G ?s (Inr (stuffed G c (Suc n)))" by (simp add: stuffed_def init_sys_def)
  with assms(1) show ?thesis by (rule hub_reach.step)
qed

lemma stuffed_reach: "r \<in> set (cl_Rooms (G c)) \<Longrightarrow> n \<le> send_cap \<Longrightarrow> hub_reach G (stuffed G c n)"
proof (induction n)
  case 0
  show ?case by (rule stuffed_0)
next
  case (Suc n)
  then show ?case using stuffed_Suc[of G c n r] by simp
qed

text \<open>A client that the hub has removed while its reader was still reading.\<close>

definition evicted :: "cid \<Rightarrow> sys \<Rightarrow> bool" where
  "evicted c s \<longleftrightarrow> sys_running s \<and> c \<notin> hub_clients (sys_hub s) \<and> sys_reader s c = Reading"

lemma evicted_reachable:
  assumes "r \<in> set (cl_Rooms (G c))"
  shows "\<exists>s. hub_reach G s \<and> evicted c s"
proof -
  let ?s = "stuffed G c send_cap" and ?b = "\<lparr>bc_RoomID = r, bc_Data = JNull, bc_Exclude = None\<rparr>"
  have run: "sys_running ?s" by (simp add: stuffed_def init_sys_def)
  have i: "iterates [c] (members (hub_rooms (sys_hub ?s)) (bc_RoomID ?b))"
    using stuffed_rooms[of r G c, OF assms] by (simp add: iterates_def)
  have "sendToRoom ?b [c] (sys_hub ?s) = Inr (sys_hub ?s, [c])"
    by (simp add: sendToRoom_def offer_chan_def)
  from hub_step.broadcast[OF run i this] stuffed_reach[of r G c send_cap, OF assms]
  have 1: "hub_reach G (?s\<lparr>sys_evictions := {#c#}\<rparr>)" (is "hub_reach G ?s1")
    by (auto intro: hub_reach.step simp: stuffed_def init_sys_def)
  obtain h where h: "removeClient G c (sys_hub ?s1) = Inr h"
    by (simp add: removeClient_def close_chan_def)
  have "hub_step G ?s1 (Inr (?s1\<lparr>sys_evictions := {#}, sys_hub := h\<rparr>))"
    using hub_step.evict[of ?s1 c G] h run by (simp add: put_hub_def)
  with 1 have "hub_reach G (?s1\<lparr>sys_evictions := {#}, sys_hub := h\<rparr>)" by (rule hub_reach.step)
  moreover have "c \<notin> hub_clients h" using removeClient_ok[OF h] by simp
  ultimately show ?thesis using run by (auto simp: evicted_def stuffed_def)
qed

text \<open>
  C39: A slow consumer takes the whole process down. In every reachable state in which the running
  hub has removed a client whose reader still reads, the disconnection of that client leads, in two
  steps, to a second close of its channel, which is a panic; and such states are reachable for
  every client that is in a room.
\<close>

theorem slow_consumer_crashes:
  "(\<forall>s. hub_reach G s \<and> evicted c s \<longrightarrow>
      (\<exists>s1. hub_step G s (Inr s1) \<and> hub_step G s1 (Inl close_panic))) \<and>
   (\<forall>r \<in> set (cl_Rooms (G c)). \<exists>s. hub_reach G s \<and> evicted c s)"
proof -
  have "\<exists>s1. hub_step G s (Inr s1) \<and> hub_step G s1 (Inl close_panic)"
    if r: "hub_reach G s" and e: "evicted c s" for s
  proof -
    let ?s1 = "s\<lparr>sys_reader := (sys_reader s)(c := Leaving)\<rparr>"
    have "closed (sys_hub s) c"
      using hub_reach_inv[OF r] e by (simp add: hub_inv_def Let_def evicted_def)
    then have "removeClient G c (sys_hub ?s1) = Inl close_panic"
      by (simp add: removeClient_def close_chan_def)
    then have "hub_step G ?s1 (Inl close_panic)"
      using hub_step.unregister[of ?s1 c G] e by (simp add: put_hub_def evicted_def)
    moreover have "hub_step G s (Inr ?s1)" using e by (intro hub_step.read_error) (simp add: evicted_def)
    ultimately show ?thesis by blast
  qed
  then show ?thesis using evicted_reachable by blast
qed

theorem slow_consumer_crashes_witness:
  "\<exists>s s1. hub_reach one_client s \<and> hub_step one_client s (Inr s1) \<and> hub_step one_client s1 (Inl close_panic)"
  using slow_consumer_crashes[of one_client 0] by (auto simp: one_client_def)

lemma close_loop_closed: "c \<in> set cs \<Longrightarrow> closed h c \<Longrightarrow> \<exists>e. close_loop cs h = Inl e"
  by (induction cs arbitrary: h) (auto simp: close_chan_def)

text \<open>
  The delivery to a user closes the channel of a client that is full but leaves the client in
  its rooms. The next broadcast to any of its rooms (that does not exclude it) panics, in every
  order of the iteration, and so does the shutdown.
\<close>

theorem user_eviction_poisons_rooms:
  assumes "hub_reach G s" and "sys_running s"
    and "iterates order (members (hub_users (sys_hub s)) u)"
    and "SendToUser u d order (sys_hub s) = Inr h"
    and "c \<in> members (hub_users (sys_hub s)) u" and "length (buf (sys_hub s) c) = 256"
  shows "(\<forall>b order2. bc_RoomID b \<in> set (cl_Rooms (G c)) \<and> bc_Exclude b \<noteq> Some c \<and>
      iterates order2 (members (hub_rooms h) (bc_RoomID b)) \<longrightarrow> (\<exists>e. sendToRoom b order2 h = Inl e)) \<and>
    (\<forall>order2. iterates order2 (hub_clients h) \<longrightarrow> (\<exists>e. shutdown order2 h = Inl e))"
proof -
  note inv = conjunct1[OF hub_reach_inv[OF assms(1)]]
  from assms(5) have "hub_users (sys_hub s) u \<noteq> None" by (rule members_some)
  with assms(4) have l: "user_loop u d order (sys_hub s) = Inr h" by (auto simp: SendToUser_def)
  have d: "user_delivered u d (set order) (sys_hub s) h"
    using user_loop_ok[OF l] assms(3) by (simp add: iterates_def)
  have cl: "closed h c" using d assms(3,5,6) by (simp add: user_delivered_def iterates_def send_cap_def)
  have con: "c \<in> hub_clients (sys_hub s)" using inv assms(2,5) by (auto simp: hub_inv_def Let_def)
  have "\<exists>e. sendToRoom b order2 h = Inl e" if "bc_RoomID b \<in> set (cl_Rooms (G c))" "bc_Exclude b \<noteq> Some c"
    "iterates order2 (members (hub_rooms h) (bc_RoomID b))" for b order2
  proof -
    have "c \<in> members (hub_rooms (sys_hub s)) (bc_RoomID b)"
      using inv con that(1) by (simp add: hub_inv_def Let_def)
    then have "c \<in> set order2" "distinct order2" using d that(3) by (simp_all add: user_delivered_def iterates_def)
    with cl that(2) show ?thesis unfolding sendToRoom_def send_loop_panics[OF \<open>distinct order2\<close>] by blast
  qed
  moreover have "\<exists>e. shutdown order2 h = Inl e" if "iterates order2 (hub_clients h)" for order2
    using con d that cl close_loop_closed[of c order2 h]
    by (auto simp: shutdown_def user_delivered_def iterates_def split: sum.splits)
  ultimately show ?thesis by blast
qed

lemma stuffed_users: "members (hub_users (sys_hub (stuffed one_client 0 n))) ''u-ann'' = {0}"
  by (simp add: stuffed_def addClient_def NewHub_def one_client_def ix.get_add)

theorem user_eviction_poisons_rooms_witness:
  "\<exists>s h. hub_reach one_client s \<and> SendToUser ''u-ann'' JNull [0] (sys_hub s) = Inr h \<and>
     (\<exists>e. sendToRoom \<lparr>bc_RoomID = ''r1'', bc_Data = JNull, bc_Exclude = None\<rparr> [0] h = Inl e)"
proof -
  let ?s = "stuffed one_client 0 256"
  have r: "hub_reach one_client ?s"
    using stuffed_reach[of "''r1''" one_client 0 256] by (simp add: one_client_def send_cap_def)
  have run: "sys_running ?s" by (simp add: stuffed_def init_sys_def)
  have i: "iterates [0] (members (hub_users (sys_hub ?s)) ''u-ann'')"
    using stuffed_users by (simp add: iterates_def)
  have "hub_users (sys_hub ?s) ''u-ann'' \<noteq> None" using members_some stuffed_users by blast
  then have "\<exists>h. SendToUser ''u-ann'' JNull [0] (sys_hub ?s) = Inr h \<and> hub_rooms h = hub_rooms (sys_hub ?s)"
    by (auto simp: SendToUser_def offer_chan_def close_chan_def send_cap_def)
  then obtain h where h: "SendToUser ''u-ann'' JNull [0] (sys_hub ?s) = Inr h"
    "hub_rooms h = hub_rooms (sys_hub ?s)" by blast
  have "iterates [0] (members (hub_rooms h) ''r1'')"
    using h(2) stuffed_rooms[of "''r1''" one_client 0 256] by (simp add: iterates_def one_client_def)
  with user_eviction_poisons_rooms[OF r run i h(1), of 0] r h(1) stuffed_users
  show ?thesis by (intro exI[of _ ?s] exI[of _ h]) (simp add: one_client_def)
qed

text \<open>
  The shutdown forgets the clients and the rooms but not the index by user, so an event for a
  user who was connected when the hub shut down is sent on a closed channel, which panics.
\<close>

theorem shutdown_leaves_users:
  assumes "hub_reach G s" and "sys_running s"
    and "iterates order (hub_clients (sys_hub s))" and "shutdown order (sys_hub s) = Inr h"
    and "c \<in> members (hub_users (sys_hub s)) u" and "iterates order2 (members (hub_users h) u)"
  shows "hub_clients h = {} \<and> SendToUser u d order2 h = Inl send_panic"
proof -
  note inv = conjunct1[OF hub_reach_inv[OF assms(1)]]
  from assms(4) obtain h1 where c: "close_loop order (sys_hub s) = Inr h1"
    and h: "h = h1\<lparr>hub_clients := {}, hub_rooms := (\<lambda>_. None)\<rparr>"
    by (auto simp: shutdown_def split: sum.splits)
  note ok = close_loop_ok[OF c]
  have u: "members (hub_users h) u = members (hub_users (sys_hub s)) u" using ok h by simp
  have "x \<in> set order" if "x \<in> members (hub_users (sys_hub s)) u" for x
    using inv assms(2,3) that by (auto simp: hub_inv_def Let_def iterates_def)
  then have cl: "closed h x" if "x \<in> set order2" for x
    using that assms(6) u ok h by (simp add: iterates_def)
  obtain y ys where "order2 = y # ys" using assms(5,6) u by (cases order2) (auto simp: iterates_def)
  with cl have "user_loop u d order2 h = Inl send_panic" by (simp add: offer_chan_def)
  moreover have "hub_users h u \<noteq> None" using members_some[OF assms(5)] ok h by simp
  ultimately show ?thesis using h by (auto simp: SendToUser_def)
qed

theorem shutdown_leaves_users_witness:
  "\<exists>s h. hub_reach one_client s \<and> shutdown [0] (sys_hub s) = Inr h \<and>
     SendToUser ''u-ann'' JNull [0] h = Inl send_panic"
proof -
  let ?s = "stuffed one_client 0 0"
  have run: "sys_running ?s" by (simp add: stuffed_def init_sys_def)
  have cl: "hub_clients (sys_hub ?s) = {0}" by (simp add: stuffed_def addClient_def NewHub_def)
  have "\<exists>h. shutdown [0] (sys_hub ?s) = Inr h \<and> hub_users h = hub_users (sys_hub ?s)"
    by (simp add: shutdown_def close_chan_def)
  then obtain h where h: "shutdown [0] (sys_hub ?s) = Inr h" "hub_users h = hub_users (sys_hub ?s)" by blast
  have "iterates [0] (members (hub_users h) ''u-ann'')" using h(2) stuffed_users by (simp add: iterates_def)
  moreover have "iterates [0] (hub_clients (sys_hub ?s))" using cl by (simp add: iterates_def)
  ultimately show ?thesis
    using shutdown_leaves_users[OF stuffed_0 run _ h(1), of 0 "''u-ann''" "[0]" JNull] stuffed_users[of 0]
      stuffed_0[of one_client 0] h(1) by auto
qed

end
