(* ===== verification/Hub_Refinement.thy ===== *)
theory Hub_Refinement
  imports Hub_Properties
begin

text \<open>
  What the hub promises, without its maps, its goroutines and its channels: a feed knows who is
  connected, whose queue is shut, and what is queued for whom; the rooms and the user of a client
  are those it came with. The hub of \<open>hub.go\<close> refines it.
\<close>

section \<open>The feed\<close>

record feed =
  fd_open :: "cid set"
  fd_shut :: "cid set"
  fd_queue :: "cid \<Rightarrow> json list"
  fd_on :: bool

definition room_audience :: "(cid \<Rightarrow> client) \<Rightarrow> feed \<Rightarrow> string \<Rightarrow> cid set" where
  "room_audience G F r = {c \<in> fd_open F. r \<in> set (cl_Rooms (G c))}"

definition user_audience :: "(cid \<Rightarrow> client) \<Rightarrow> feed \<Rightarrow> string \<Rightarrow> cid set" where
  "user_audience G F u = {c \<in> fd_open F. cl_UserID (G c) = u \<and> c \<notin> fd_shut F}"

definition lagging :: "feed \<Rightarrow> cid set" where
  "lagging F = {c. send_cap \<le> length (fd_queue F c)}"

definition enqueue :: "json \<Rightarrow> cid set \<Rightarrow> feed \<Rightarrow> feed" where
  "enqueue d S F = F\<lparr>fd_queue := (\<lambda>c. if c \<in> S - lagging F then fd_queue F c @ [d] else fd_queue F c)\<rparr>"

inductive feed_step :: "(cid \<Rightarrow> client) \<Rightarrow> feed \<Rightarrow> feed \<Rightarrow> bool" for G where
  join: "fd_on F \<Longrightarrow> c \<notin> fd_open F \<Longrightarrow> c \<notin> fd_shut F \<Longrightarrow> fd_queue F c = [] \<Longrightarrow>
    feed_step G F (F\<lparr>fd_open := insert c (fd_open F)\<rparr>)"
| leave: "fd_on F \<Longrightarrow> c \<notin> fd_shut F \<Longrightarrow>
    feed_step G F (F\<lparr>fd_open := fd_open F - {c}, fd_shut := insert c (fd_shut F)\<rparr>)"
| post: "fd_on F \<Longrightarrow> S = room_audience G F r - {c. exclude = Some c} \<Longrightarrow> S \<inter> fd_shut F = {} \<Longrightarrow>
    feed_step G F (enqueue d S F)"
| notify: "S = user_audience G F u \<Longrightarrow>
    feed_step G F ((enqueue d S F)\<lparr>fd_shut := fd_shut F \<union> (S \<inter> lagging F)\<rparr>)"
| take: "fd_queue F c = d # ds \<Longrightarrow> feed_step G F (F\<lparr>fd_queue := (fd_queue F)(c := ds)\<rparr>)"
| close: "fd_on F \<Longrightarrow> fd_open F \<inter> fd_shut F = {} \<Longrightarrow>
    feed_step G F (F\<lparr>fd_open := {}, fd_shut := fd_shut F \<union> fd_open F, fd_on := False\<rparr>)"

definition empty_feed :: feed where
  "empty_feed = \<lparr>fd_open = {}, fd_shut = {}, fd_queue = (\<lambda>_. []), fd_on = True\<rparr>"

section \<open>The abstraction\<close>

definition feed_of :: "sys \<Rightarrow> feed" where
  "feed_of s =
     \<lparr>fd_open = hub_clients (sys_hub s), fd_shut = {c. closed (sys_hub s) c},
      fd_queue = (\<lambda>c. buf (sys_hub s) c), fd_on = sys_running s\<rparr>"

lemma feed_of_simps [simp]:
  "fd_open (feed_of s) = hub_clients (sys_hub s)" "c \<in> fd_shut (feed_of s) \<longleftrightarrow> closed (sys_hub s) c"
  "fd_queue (feed_of s) c = buf (sys_hub s) c" "fd_on (feed_of s) = sys_running s"
  "c \<in> lagging (feed_of s) \<longleftrightarrow> full (sys_hub s) c"
  by (simp_all add: feed_of_def lagging_def)

lemma feed_eqI:
  "fd_open F = fd_open F' \<Longrightarrow> (\<And>c. c \<in> fd_shut F \<longleftrightarrow> c \<in> fd_shut F') \<Longrightarrow>
   (\<And>c. fd_queue F c = fd_queue F' c) \<Longrightarrow> fd_on F = fd_on F' \<Longrightarrow> F = (F' :: feed)"
  by (intro feed.equality) auto

lemma room_audience_of: "hub_inv G s \<Longrightarrow> room_audience G (feed_of s) r = members (hub_rooms (sys_hub s)) r"
  by (simp add: room_audience_def hub_inv_def Let_def)

lemma user_audience_of:
  "hub_inv G s \<Longrightarrow> sys_running s \<Longrightarrow> user_audience G (feed_of s) u = members (hub_users (sys_hub s)) u"
  by (simp add: user_audience_def hub_inv_def Let_def)

text \<open>After the shutdown the index by user holds closed clients only, and nobody is connected.\<close>

definition quiet_end :: "sys \<Rightarrow> bool" where
  "quiet_end s \<longleftrightarrow> sys_running s \<or>
     hub_clients (sys_hub s) = {} \<and> (\<forall>u. \<forall>c \<in> members (hub_users (sys_hub s)) u. closed (sys_hub s) c)"

lemma SendToUser_ok:
  "SendToUser u d order h = Inr h' \<Longrightarrow> iterates order (members (hub_users h) u) \<Longrightarrow>
   user_delivered u d (members (hub_users h) u) h h'"
proof (cases "hub_users h u")
  case None
  moreover assume "SendToUser u d order h = Inr h'"
  ultimately show ?thesis by (simp add: SendToUser_def user_delivered_def members_def)
next
  case (Some S)
  moreover assume "SendToUser u d order h = Inr h'" "iterates order (members (hub_users h) u)"
  ultimately show ?thesis using user_loop_ok[of u d order h h'] by (simp add: SendToUser_def iterates_def)
qed

lemma quiet_end_step: "hub_step G s (Inr s') \<Longrightarrow> hub_inv G s \<Longrightarrow> quiet_end s \<Longrightarrow> quiet_end s'"
proof (induction s "Inr s' :: err + sys" rule: hub_step.induct)
  case (user_event order s u d)
  then obtain h where h: "SendToUser u d order (sys_hub s) = Inr h" "s' = s\<lparr>sys_hub := h\<rparr>"
    by (auto simp: put_hub_def split: sum.splits)
  from SendToUser_ok[OF h(1) user_event.hyps(1)] user_event.prems(2) h(2) show ?case
    by (auto simp: quiet_end_def user_delivered_def split: if_splits)
next
  case (stop s order)
  then obtain h1 where c: "close_loop order (sys_hub s) = Inr h1"
    and s': "s' = s\<lparr>sys_running := False, sys_hub := h1\<lparr>hub_clients := {}, hub_rooms := (\<lambda>_. None)\<rparr>\<rparr>"
    by (auto simp: put_hub_def shutdown_def split: sum.splits)
  have "members (hub_users (sys_hub s)) u \<subseteq> set order" for u
    using stop by (auto simp: hub_inv_def Let_def iterates_def)
  with close_loop_ok[OF c] show ?case by (auto simp: quiet_end_def s')
qed (auto simp: quiet_end_def put_hub_def split: sum.splits)

lemma hub_reach_quiet: "hub_reach G s \<Longrightarrow> quiet_end s"
proof (induction rule: hub_reach.induct)
  case (step s s')
  then show ?case using quiet_end_step hub_reach_inv by blast
qed (simp add: quiet_end_def init_sys_def)

section \<open>The refinement\<close>

lemma refine_remove:
  assumes "removeClient G c (sys_hub s) = Inr h" and "sys_running s"
    and "sys_hub s' = h" "sys_running s' = sys_running s"
  shows "feed_step G (feed_of s) (feed_of s')"
proof -
  have "feed_of s' = (feed_of s)\<lparr>fd_open := fd_open (feed_of s) - {c}, fd_shut := insert c (fd_shut (feed_of s))\<rparr>"
    by (rule feed_eqI) (use removeClient_ok[OF assms(1)] assms(3,4) in auto)
  moreover have "\<not> closed (sys_hub s) c" using removeClient_ok[OF assms(1)] by simp
  ultimately show ?thesis using assms(2) feed_step.leave[of "feed_of s" c G] by simp
qed

lemma refine_step:
  assumes "hub_step G s (Inr s')" and "hub_inv G s" and "quiet_end s"
  shows "feed_of s' = feed_of s \<or> feed_step G (feed_of s) (feed_of s')"
  using assms
proof (induction s "Inr s' :: err + sys" rule: hub_step.induct)
  case (register s c)
  then have n: "hub_chans (sys_hub s) c = new_chan" "c \<notin> hub_clients (sys_hub s)"
    by (auto simp: hub_inv_def Let_def)
  have "feed_of s' = (feed_of s)\<lparr>fd_open := insert c (fd_open (feed_of s))\<rparr>"
    by (rule feed_eqI) (use register in \<open>auto simp: addClient_def\<close>)
  with n register feed_step.join[of "feed_of s" c G] show ?case by (simp add: new_chan_def)
next
  case (read_error s c)
  then have "feed_of s' = feed_of s" by (intro feed_eqI) auto
  then show ?case ..
next
  case (unregister s c)
  then obtain h where h: "removeClient G c (sys_hub s) = Inr h"
    "s' = s\<lparr>sys_reader := (sys_reader s)(c := Gone), sys_hub := h\<rparr>"
    by (auto simp: put_hub_def split: sum.splits)
  with refine_remove[OF h(1) unregister.hyps(1)] show ?case by simp
next
  case (evict s c)
  then obtain h where h: "removeClient G c (sys_hub s) = Inr h"
    "s' = s\<lparr>sys_evictions := sys_evictions s - {#c#}, sys_hub := h\<rparr>"
    by (auto simp: put_hub_def split: sum.splits)
  with refine_remove[OF h(1) evict.hyps(1)] show ?case by simp
next
  case (broadcast s order b h slow)
  let ?S = "room_audience G (feed_of s) (bc_RoomID b) - {c. bc_Exclude b = Some c}"
  note l = send_loop_ok[OF broadcast.hyps(3)[unfolded sendToRoom_def]]
  have o: "distinct order" "set order = room_audience G (feed_of s) (bc_RoomID b)"
    using broadcast by (auto simp: iterates_def room_audience_of)
  have del: "delivered b (set order) (sys_hub s) h" using l o by simp
  then have ch: "closed h c = closed (sys_hub s) c"
    "buf h c = (if c \<in> set order \<and> bc_Exclude b \<noteq> Some c \<and> \<not> full (sys_hub s) c
                then buf (sys_hub s) c @ [bc_Data b] else buf (sys_hub s) c)" for c
    by (simp_all add: delivered_def)
  have "feed_of s' = enqueue (bc_Data b) ?S (feed_of s)"
    by (rule feed_eqI) (use del ch o broadcast.hyps(4) in \<open>auto simp: enqueue_def delivered_def\<close>)
  moreover have "?S \<inter> fd_shut (feed_of s) = {}" using l o by auto
  ultimately show ?case using broadcast.hyps(1) feed_step.post[OF _ refl, of "feed_of s" G] by auto
next
  case (user_event order s u d)
  then obtain h where h: "SendToUser u d order (sys_hub s) = Inr h" "s' = s\<lparr>sys_hub := h\<rparr>"
    by (auto simp: put_hub_def split: sum.splits)
  note del = SendToUser_ok[OF h(1) user_event.hyps(1)]
  let ?S = "user_audience G (feed_of s) u"
  have S: "members (hub_users (sys_hub s)) u = ?S"
  proof (cases "sys_running s")
    case True
    then show ?thesis using user_event user_audience_of by metis
  next
    case False
    with user_event del show ?thesis by (auto simp: quiet_end_def user_delivered_def user_audience_def)
  qed
  have "feed_of s' = (enqueue d ?S (feed_of s))\<lparr>fd_shut := fd_shut (feed_of s) \<union> (?S \<inter> lagging (feed_of s))\<rparr>"
    by (rule feed_eqI) (use del h(2) S in \<open>auto simp: enqueue_def user_delivered_def\<close>)
  then show ?case using feed_step.notify by metis
next
  case (written s c d ds)
  then have "feed_of s' = (feed_of s)\<lparr>fd_queue := (fd_queue (feed_of s))(c := ds)\<rparr>"
    by (intro feed_eqI) (auto split: if_splits)
  with written feed_step.take[of "feed_of s" c d ds G] show ?case by simp
next
  case (stop s order)
  then obtain h1 where c: "close_loop order (sys_hub s) = Inr h1"
    and s': "s' = s\<lparr>sys_running := False, sys_hub := h1\<lparr>hub_clients := {}, hub_rooms := (\<lambda>_. None)\<rparr>\<rparr>"
    by (auto simp: put_hub_def shutdown_def split: sum.splits)
  have o: "set order = hub_clients (sys_hub s)" using stop by (simp add: iterates_def)
  have "\<not> closed (sys_hub s) x" if "x \<in> hub_clients (sys_hub s)" for x
    using close_loop_closed[of x order "sys_hub s"] c that o by auto
  then have "fd_open (feed_of s) \<inter> fd_shut (feed_of s) = {}" by auto
  moreover have "feed_of s' = (feed_of s)\<lparr>fd_open := {}, fd_shut := fd_shut (feed_of s) \<union> fd_open (feed_of s), fd_on := False\<rparr>"
    by (rule feed_eqI) (use close_loop_ok[OF c] s' o in auto)
  ultimately show ?case using stop feed_step.close[of "feed_of s" G] by simp
qed

inductive feed_reach :: "(cid \<Rightarrow> client) \<Rightarrow> feed \<Rightarrow> bool" for G where
  start: "feed_reach G empty_feed"
| step: "feed_reach G F \<Longrightarrow> feed_step G F F' \<Longrightarrow> feed_reach G F'"



end
