(* ===== verification/Delivery.thy ===== *)
theory Delivery
  imports Http_Properties Websocket_Properties Hub_Refinement
begin

text \<open>
  From one server to the other: what a request to the API publishes, the relay of a websocket server
  hands to its hub, which queues it for its clients.
\<close>

section \<open>The relay and its hub\<close>

text \<open>
  What the relay does with an announcement: a user's clients are served at once, a room's by the loop
  of the hub, which takes the broadcast from its channel. \<open>order\<close> is that of the iteration.
\<close>

definition relayed :: "relay_action \<Rightarrow> cid list \<Rightarrow> hub \<Rightarrow> err + (hub \<times> cid list)" where
  "relayed action order h =
     (case action of
        ToUser userID payload \<Rightarrow>
          (case SendToUser userID payload order h of Inl e \<Rightarrow> Inl e | Inr h' \<Rightarrow> Inr (h', []))
      | ToRoom roomID event \<Rightarrow>
          sendToRoom \<lparr>bc_RoomID = roomID, bc_Data = event, bc_Exclude = None\<rparr> order h
      | Skip \<Rightarrow> Inr (h, []))"

text \<open>
  The loop of the relay over the announcements it receives, each with the order of its iteration, and
  its start: without a subscription there is no relay, and the error is only logged. What comes through
  the channel of the subscription, until it is closed or the context is done, is a list. The result is
  the hub and the clients that were queued for removal; the subscription is closed after the loop.
\<close>

fun relay_loop :: "(relay_action \<times> cid list) list \<Rightarrow> hub \<Rightarrow> err + (hub \<times> cid list)" where
  "relay_loop [] h = Inr (h, [])"
| "relay_loop ((action, order) # rest) h =
     (case relayed action order h of
        Inl e \<Rightarrow> Inl e
      | Inr (h1, slow) \<Rightarrow>
          (case relay_loop rest h1 of
             Inl e \<Rightarrow> Inl e
           | Inr (h2, slow2) \<Rightarrow> Inr (h2, slow @ slow2)))"

definition roomMessagePattern :: string where "roomMessagePattern = ''rooms:*:messages''"
definition userEventPattern :: string where "userEventPattern = ''users:*:events''"

definition StartMessageRelay ::
  "(string \<Rightarrow> time option) \<Rightarrow> (time \<Rightarrow> string) \<Rightarrow> ('w, ((string \<times> json) \<times> cid list) list) subscribe \<Rightarrow>
   hub \<Rightarrow> ('w, err + (hub \<times> cid list)) io" where
  "StartMessageRelay parse fmt subscriber h w =
     (case subscriber [roomMessagePattern, userEventPattern] w of
        (Inl e, w1) \<Rightarrow> (Inr (h, []), w1)
      | (Inr (received, closeFn), w1) \<Rightarrow>
          (relay_loop (map (\<lambda>((channel, payload), order). (relay parse fmt channel payload, order)) received) h,
           snd (closeFn w1)))"

section \<open>The order of events\<close>

text \<open>The events of a list of broadcasts that are meant for a client, in their order.\<close>

definition events_for :: "index \<Rightarrow> cid \<Rightarrow> (string \<times> json) list \<Rightarrow> json list" where
  "events_for rooms x evs = map snd (filter (\<lambda>e. x \<in> members rooms (fst e)) evs)"

lemma events_for_Cons:
  "events_for rooms x ((r, d) # evs) = (if x \<in> members rooms r then [d] else []) @ events_for rooms x evs"
  by (simp add: events_for_def)

text \<open>The steps of the relay that carry out a list of broadcasts.\<close>

definition carries_out :: "index \<Rightarrow> string \<times> json \<Rightarrow> relay_action \<times> cid list \<Rightarrow> bool" where
  "carries_out rooms e st \<longleftrightarrow> fst st = ToRoom (fst e) (snd e) \<and> iterates (snd st) (members rooms (fst e))"

lemma relay_loop_in_order:
  "list_all2 (carries_out rooms) evs steps \<Longrightarrow> hub_rooms h = rooms \<Longrightarrow>
   (\<And>x. events_for rooms x evs \<noteq> [] \<Longrightarrow>
      \<not> closed h x \<and> length (buf h x) + length (events_for rooms x evs) \<le> send_cap) \<Longrightarrow>
   \<exists>h'. relay_loop steps h = Inr (h', []) \<and> hub_clients h' = hub_clients h \<and> hub_rooms h' = rooms \<and>
     hub_users h' = hub_users h \<and>
     (\<forall>x. hub_chans h' x = (hub_chans h x)\<lparr>ch_buf := buf h x @ events_for rooms x evs\<rparr>)"
proof (induction arbitrary: h rule: list_all2_induct)
  case Nil
  then show ?case by (simp add: events_for_def)
next
  case (Cons e evs st steps)
  obtain r d order where st: "e = (r, d)" "st = (ToRoom r d, order)" "iterates order (members rooms r)"
    using Cons.hyps(1) by (cases e; cases st) (auto simp: carries_out_def)
  let ?S = "members rooms r" and ?b = "\<lparr>bc_RoomID = r, bc_Data = d, bc_Exclude = None\<rparr>"
  have ord: "distinct order" "set order = ?S" using st(3) by (simp_all add: iterates_def)
  have ok: "\<not> closed h x \<and> \<not> full h x" if "x \<in> ?S" for x
    using Cons.prems(2)[of x] that by (auto simp: st(1) events_for_Cons)
  then have "\<nexists>err. send_loop ?b order h = Inl err" using send_loop_panics[OF ord(1)] ord(2) by auto
  then obtain h1 slow where l: "send_loop ?b order h = Inr (h1, slow)" by (cases "send_loop ?b order h") auto
  note one = send_loop_ok[OF l ord(1)]
  have slow: "slow = []" using one ok ord(2) by (auto simp: filter_empty_conv)
  have ch: "hub_chans h1 x = (if x \<in> ?S then (hub_chans h x)\<lparr>ch_buf := buf h x @ [d]\<rparr> else hub_chans h x)" for x
    using one ok ord(2) by (auto simp: delivered_def)
  have same: "hub_rooms h1 = rooms" "hub_clients h1 = hub_clients h" "hub_users h1 = hub_users h"
    using one Cons.prems(1) by (simp_all add: delivered_def)
  have "\<not> closed h1 x \<and> length (buf h1 x) + length (events_for rooms x evs) \<le> send_cap"
    if "events_for rooms x evs \<noteq> []" for x
    using Cons.prems(2)[of x] that by (auto simp: ch st(1) events_for_Cons split: if_splits)
  from Cons.IH[OF same(1) this] obtain h2 where h2: "relay_loop steps h1 = Inr (h2, [])"
    "hub_clients h2 = hub_clients h1" "hub_rooms h2 = rooms" "hub_users h2 = hub_users h1"
    "\<And>x. hub_chans h2 x = (hub_chans h1 x)\<lparr>ch_buf := buf h1 x @ events_for rooms x evs\<rparr>" by blast
  have "hub_chans h2 x = (hub_chans h x)\<lparr>ch_buf := buf h x @ events_for rooms x (e # evs)\<rparr>" for x
    by (simp add: h2(5) ch st(1) events_for_Cons)
  with h2 same slow l show ?case
    by (intro exI[of _ h2]) (simp add: st(2) relayed_def sendToRoom_def)
qed

text \<open>
  C16: The relay keeps the order of publication: of a sequence of messages announced for any rooms, every
  connected client is queued exactly those of the rooms it came with, each once and in the order of the
  sequence, whatever the order in which the clients of a room are visited; other clients get nothing and
  nobody is removed. (No connected client was closed, and each has space for the messages meant for it.)
\<close>

theorem relay_keeps_order:
  assumes "hub_reach G s" and "\<And>t. parse (fmt t) = Some t"
    and "\<forall>m \<in> set ms. msg_RoomID m \<noteq> [] \<and> \<not> contains_sub ''users:'' (roomChannel (msg_RoomID m)) \<and>
      (\<forall>a \<in> set (msg_Attachments m). in_int64 (att_SizeBytes a))"
    and "list_all2 (\<lambda>m order. iterates order (members (hub_rooms (sys_hub s)) (msg_RoomID m))) ms orders"
    and "\<forall>x \<in> hub_clients (sys_hub s). \<not> closed (sys_hub s) x \<and>
      length (buf (sys_hub s) x) + length (filter (\<lambda>m. msg_RoomID m \<in> set (cl_Rooms (G x))) ms) \<le> 256"
    and "subscriber [''rooms:*:messages'', ''users:*:events''] w =
      (Inr (zip (map (\<lambda>m. (roomChannel (msg_RoomID m), message_json fmt m)) ms) orders, closeFn), w1)"
  shows "\<exists>h'. StartMessageRelay parse fmt subscriber (sys_hub s) w = (Inr (h', []), snd (closeFn w1)) \<and>
    (\<forall>x. buf h' x = buf (sys_hub s) x @
      (if x \<in> hub_clients (sys_hub s)
       then map (receive_event fmt) (filter (\<lambda>m. msg_RoomID m \<in> set (cl_Rooms (G x))) ms) else []))"
proof -
  let ?h = "sys_hub s" and ?evs = "map (\<lambda>m. (msg_RoomID m, receive_event fmt m)) ms"
  let ?steps = "map (\<lambda>((channel, payload), order). (relay parse fmt channel payload, order))
      (zip (map (\<lambda>m. (roomChannel (msg_RoomID m), message_json fmt m)) ms) orders)"
  have rel: "relay parse fmt (roomChannel (msg_RoomID m)) (message_json fmt m) = ToRoom (msg_RoomID m) (receive_event fmt m)"
    if "m \<in> set ms" for m
    using that assms(2,3) by (intro relay_of_message) auto
  have steps: "list_all2 (carries_out (hub_rooms ?h)) ?evs ?steps"
    using assms(4) rel by (auto simp: list_all2_conv_all_nth carries_out_def)
  have mem: "x \<in> members (hub_rooms ?h) r \<longleftrightarrow> x \<in> hub_clients ?h \<and> r \<in> set (cl_Rooms (G x))" for x r
    using hub_reach_inv[OF assms(1)] by (simp add: hub_inv_def Let_def)
  have ev: "events_for (hub_rooms ?h) x ?evs = (if x \<in> hub_clients ?h
      then map (receive_event fmt) (filter (\<lambda>m. msg_RoomID m \<in> set (cl_Rooms (G x))) ms) else [])" for x
    by (simp add: events_for_def mem filter_map comp_def)
  have "\<not> closed ?h x \<and> length (buf ?h x) + length (events_for (hub_rooms ?h) x ?evs) \<le> send_cap"
    if "events_for (hub_rooms ?h) x ?evs \<noteq> []" for x
    using that assms(5) by (auto simp: ev send_cap_def split: if_splits)
  from relay_loop_in_order[OF steps refl this] obtain h' where "relay_loop ?steps ?h = Inr (h', [])"
    "\<And>x. hub_chans h' x = (hub_chans ?h x)\<lparr>ch_buf := buf ?h x @ events_for (hub_rooms ?h) x ?evs\<rparr>" by blast
  then show ?thesis using assms(6) by (intro exI[of _ h'])
      (simp add: StartMessageRelay_def roomMessagePattern_def userEventPattern_def ev)
qed

section \<open>What the relay hears\<close>

text \<open>
  What Redis delivers to a subscription of patterns: the announcements on a channel that one of them
  matches, in order. \<open>glob\<close> is Redis' match; all that is relied on is that a star between texts without
  special characters matches any text.
\<close>

definition plain_text :: "string \<Rightarrow> bool" where
  "plain_text a \<longleftrightarrow> list_all (\<lambda>c. c \<notin> {CHR ''*'', CHR ''?'', CHR ''['', CHR '']'', CHR 0x5C}) a"

definition star_matches :: "(string \<Rightarrow> string \<Rightarrow> bool) \<Rightarrow> bool" where
  "star_matches glob \<longleftrightarrow>
     (\<forall>a x b. plain_text a \<longrightarrow> plain_text b \<longrightarrow> glob (a @ ''*'' @ b) (a @ x @ b))"

definition heard :: "(string \<Rightarrow> string \<Rightarrow> bool) \<Rightarrow> string list \<Rightarrow> (string \<times> json) list \<Rightarrow> (string \<times> json) list" where
  "heard glob patterns l = filter (\<lambda>a. list_ex (\<lambda>p. glob p (fst a)) patterns) l"

lemma service_channel_heard:
  assumes "star_matches glob" and "service_channel ch"
  shows "glob roomMessagePattern ch \<or> glob userEventPattern ch"
proof -
  have "plain_text ''rooms:''" "plain_text '':messages''" "plain_text ''users:''" "plain_text '':events''"
    by (simp_all add: plain_text_def)
  then have "glob (''rooms:'' @ ''*'' @ '':messages'') (''rooms:'' @ x @ '':messages'')"
    "glob (''users:'' @ ''*'' @ '':events'') (''users:'' @ x @ '':events'')" for x
    using assms(1) unfolding star_matches_def by blast+
  with assms(2) show ?thesis by (auto simp: service_channel_def roomMessagePattern_def userEventPattern_def)
qed

lemma serve_all_announces:
  "serve_all (startAPIServer E A R origins lib) rs rl w = (rsps, w') \<Longrightarrow> announces w w'"
proof (induction rs arbitrary: rl w rsps)
  case (Cons r rs)
  obtain rsp rl1 w1 where s: "serve_api (startAPIServer E A R origins lib) r rl w = (rsp, rl1, w1)"
    by (metis prod.collapse)
  obtain rsps1 where "serve_all (startAPIServer E A R origins lib) rs rl1 w1 = (rsps1, w')"
    using Cons.prems s by (auto split: prod.splits)
  from Cons.IH[OF this] talk.serve_api_step[OF s[unfolded startAPIServer_def]] show ?case
    by (blast intro: announces_trans)
qed (simp add: log.R_refl)

text \<open>
  C18: The relay of a websocket server hears everything the API announces: whatever requests the API
  serves and whichever calls fail, each announcement it publishes is on a channel that one of the two
  patterns the relay subscribes to matches, so that Redis delivers all of them to it, in their order.
\<close>

theorem announcements_are_heard:
  assumes "star_matches glob"
    and "serve_all (startAPIServer E A R origins lib) rs rl w = (rsps, w')"
  shows "\<exists>l. w_log w' = w_log w @ l \<and> heard glob [roomMessagePattern, userEventPattern] l = l"
proof -
  from serve_all_announces[OF assms(2)] obtain l where
    "w_log w' = w_log w @ l" "\<forall>a \<in> set l. service_channel (fst a)" by (auto simp: announces_def)
  with service_channel_heard[OF assms(1)] show ?thesis
    by (intro exI[of _ l]) (auto simp: heard_def filter_id_conv)
qed

section \<open>A request to send\<close>

lemma send_request_sizes:
  assumes "ShouldBindJSON send_request_fields \<lparr>sr_Content = [], sr_Attachments = []\<rparr> c = Some req"
  shows "\<forall>a \<in> set (sr_Attachments req). in_int64 (ar_SizeBytes a)"
proof -
  let ?zero = "\<lparr>ar_URL = [], ar_MimeType = [], ar_SizeBytes = 0\<rparr>"
  have zero: "in_int64 0" by (simp add: in_int64_def)
  have size: "in_int64 (ar_SizeBytes (snd (decode_struct attachment_request_fields j ?zero)))" for j
    by (rule decode_struct_keeps[of _ "\<lambda>a. in_int64 (ar_SizeBytes a)"])
      (auto simp: attachment_request_fields_def zero
        intro!: set_str_keeps[of "\<lambda>a. in_int64 (ar_SizeBytes a)"] set_int64_keeps[of "\<lambda>a. in_int64 (ar_SizeBytes a)"])
  define P where "P r = (\<forall>a \<in> set (sr_Attachments r). in_int64 (ar_SizeBytes a))" for r :: send_request
  have keeps: "P (snd (snd f v r))" if "f \<in> set send_request_fields" "P r" for f v r
  proof -
    have "P (snd (set_str (\<lambda>s r. r\<lparr>sr_Content := s\<rparr>) v r))"
      by (rule set_str_keeps) (use that(2) in \<open>simp_all add: P_def\<close>)
    moreover have "P (snd (set_list attachment_request_fields ?zero (\<lambda>l r. r\<lparr>sr_Attachments := l\<rparr>) v r))"
      by (rule set_list_keeps) (use that(2) size in \<open>auto simp: P_def\<close>)
    moreover from that(1) have "snd f = set_str (\<lambda>s r. r\<lparr>sr_Content := s\<rparr>) \<or>
        snd f = set_list attachment_request_fields ?zero (\<lambda>l r. r\<lparr>sr_Attachments := l\<rparr>)"
      unfolding send_request_fields_def by auto
    ultimately show ?thesis by metis
  qed
  obtain j where j: "unmarshal send_request_fields \<lparr>sr_Content = [], sr_Attachments = []\<rparr> j = Some req"
    using assms unfolding ShouldBindJSON_def by (cases "rq_Body (ctx_req c)") simp_all
  have "P req" by (rule unmarshal_keeps[of _ P, OF keeps _ j]) (simp_all add: P_def)
  then show ?thesis by (simp add: P_def)
qed

section \<open>End to end\<close>

text \<open>
  C15: A message accepted by the API reaches the clients of its room on a websocket server: its
  answer shows the message \<open>m\<close>, sent by the user of the token to the room of the path; exactly one
  announcement is published; and a relay that receives it, in any reachable state of its hub where no
  client of the room was closed, queues the event of \<open>m\<close> for every connected client that came with
  this room and has space, and for nobody else.
\<close>

theorem http_message_reaches_clients:
  assumes "find_route protected_routes r = Some (Message_send, c)"
    and "serve_api (startAPIServer E A R origins lib) r rl w = (rsp, rl', w')" and "rs_Status rsp = 201"
    and "\<And>t. parse_time E (fmt_time E t) = Some t"
    and "\<not> contains_sub ''users:'' (roomChannel (ctx_Param c ''roomID''))"
    and "hub_reach G s" and "iterates order (members (hub_rooms (sys_hub s)) (ctx_Param c ''roomID''))"
    and "\<forall>x \<in> room_audience G (feed_of s) (ctx_Param c ''roomID''). \<not> closed (sys_hub s) x"
  shows "\<exists>m ch j h' slow.
    rs_Body rsp = Some (message_payload_json (fmt_time E) (toMessagePayload m)) \<and>
    live_value (w_keys w) (w_wall w) (accessKey (request_token r)) = Some (msg_SenderID m) \<and>
    msg_RoomID m = ctx_Param c ''roomID'' \<and>
    w_log w' = w_log w @ [(ch, j)] \<and>
    relayed (relay (parse_time E) (fmt_time E) ch j) order (sys_hub s) = Inr (h', slow) \<and>
    (\<forall>x. buf h' x =
      (if x \<in> hub_clients (sys_hub s) \<and> msg_RoomID m \<in> set (cl_Rooms (G x)) \<and> length (buf (sys_hub s) x) < 256
       then buf (sys_hub s) x @ [receive_event (fmt_time E) m] else buf (sys_hub s) x))"
proof -
  let ?room = "ctx_Param c ''roomID''"
  from http_send_served[OF assms(1-3)] obtain u req w1 m where
    h: "live_value (w_keys w) (w_wall w) (accessKey (request_token r)) = Some u"
    "ShouldBindJSON send_request_fields \<lparr>sr_Content = [], sr_Attachments = []\<rparr> c = Some req" "w_log w1 = w_log w"
    "message_Send (api_messages E) \<lparr>smi_RoomID = ?room, smi_SenderID = u,
      smi_Content = sr_Content req, smi_Attachments = map to_attachment (sr_Attachments req)\<rparr> w1 = (Inr m, w')"
    "rs_Body rsp = Some (message_payload_json (fmt_time E) (toMessagePayload m))"
    by blast
  from message_Send_effect[OF h(4)] h(3) have m: "msg_RoomID m = ?room" "msg_SenderID m = u"
    "msg_Attachments m = map to_attachment (sr_Attachments req)"
    "w_log w' = w_log w @ [(roomChannel ?room, message_json (fmt_time E) m)]" by auto
  have "?room \<noteq> []" using h(4) by (auto simp: message_Send_def)
  moreover have "\<forall>a \<in> set (msg_Attachments m). in_int64 (att_SizeBytes a)"
    using send_request_sizes[OF h(2)] m(3) by (auto simp: to_attachment_def)
  ultimately have rel: "relay (parse_time E) (fmt_time E) (roomChannel ?room) (message_json (fmt_time E) m)
      = ToRoom ?room (receive_event (fmt_time E) m)"
    using assms(4,5) m(1) relay_of_message[of "roomChannel ?room" m "parse_time E" "fmt_time E"] by auto
  let ?b = "\<lparr>bc_RoomID = ?room, bc_Data = receive_event (fmt_time E) m, bc_Exclude = None\<rparr>"
  have aud: "set order = room_audience G (feed_of s) ?room" "distinct order"
    using assms(7) room_audience_of[of G s ?room] hub_reach_inv[OF assms(6)] by (auto simp: iterates_def)
  then have "\<nexists>e. send_loop ?b order (sys_hub s) = Inl e" using assms(8) send_loop_panics by auto
  then obtain h' slow where l: "send_loop ?b order (sys_hub s) = Inr (h', slow)"
    by (cases "send_loop ?b order (sys_hub s)") auto
  have "buf h' x = (if x \<in> hub_clients (sys_hub s) \<and> ?room \<in> set (cl_Rooms (G x)) \<and> length (buf (sys_hub s) x) < 256
      then buf (sys_hub s) x @ [receive_event (fmt_time E) m] else buf (sys_hub s) x)" for x
    using send_loop_ok[OF l aud(2)] aud(1) by (simp add: delivered_def room_audience_def send_cap_def)
  with h(1,5) m rel l show ?thesis
    by (intro exI[of _ m] exI[of _ "roomChannel ?room"] exI[of _ "message_json (fmt_time E) m"]
        exI[of _ h'] exI[of _ slow]) (simp add: relayed_def sendToRoom_def)
qed

lemma unary_send_served:
  "\<exists>rsp rl' w'. serve_api (startAPIServer unary_env 1000 100000 [] burst_lib) send_request_r1 sample_limiter token_world
      = (rsp, rl', w') \<and> rs_Status rsp = 201"
  by (simp add: http_eval MessageHandler_send_def NewMessageHandler_def send_request_fields_def
      send_request_r1_def sample_request_def token_world_def use_case_defs message_Send_def message_eval
      world_eval chat_eval Let_def api_services_def unary_env_def)

theorem http_message_reaches_clients_witness:
  "\<exists>m ch j h' slow s. hub_reach one_client s \<and>
     relayed (relay read_unary unary_time ch j) [0] (sys_hub s) = Inr (h', slow) \<and>
     msg_SenderID m = ''u-ann'' \<and> buf h' 0 = [receive_event unary_time m]"
proof -
  let ?s = "init_sys\<lparr>sys_hub := addClient one_client 0 NewHub, sys_reader := (\<lambda>_. Unborn)(0 := Reading)\<rparr>"
  note reach = one_registered[of one_client 0]
  have hub: "hub_clients (sys_hub ?s) = {0}" "cl_Rooms (one_client 0) = [''r1'']" "buf (sys_hub ?s) 0 = []"
    "\<not> closed (sys_hub ?s) 0" "members (hub_rooms (sys_hub ?s)) ''r1'' = {0}"
    by (simp_all add: init_sys_def addClient_def NewHub_def one_client_def new_chan_def add_to_def members_def)
  from unary_send_served obtain rsp rl' w' where s: "serve_api (startAPIServer unary_env 1000 100000 [] burst_lib)
      send_request_r1 sample_limiter token_world = (rsp, rl', w')" "rs_Status rsp = 201" by blast
  from sample_send_route obtain c where c: "find_route protected_routes send_request_r1 = Some (Message_send, c)"
    "ctx_Param c ''roomID'' = ''r1''" by blast
  have live: "live_value (w_keys token_world) (w_wall token_world) (accessKey (request_token send_request_r1)) = Some ''u-ann''"
    by (simp add: live_value_def alive_def token_world_def request_token_def extractBearerToken_def splitn2_def
        send_request_r1_def sample_request_def)
  have times: "parse_time unary_env (fmt_time unary_env t) = Some t" for t
    by (simp add: unary_env_def read_unary_inverts)
  have name: "\<not> contains_sub ''users:'' (roomChannel (ctx_Param c ''roomID''))"
    by (simp add: c(2) roomChannel_def has_prefix_def)
  have it: "iterates [0] (members (hub_rooms (sys_hub ?s)) (ctx_Param c ''roomID''))"
    using hub(5) by (simp add: c(2) iterates_def)
  have no: "\<forall>x \<in> room_audience one_client (feed_of ?s) (ctx_Param c ''roomID''). \<not> closed (sys_hub ?s) x"
    using hub(1,4) by (simp add: room_audience_def)
  from http_message_reaches_clients[OF c(1) s times name reach it no] live
  obtain m :: message and ch j h' slow where
    "msg_SenderID m = ''u-ann''" "msg_RoomID m = ''r1''"
    "relayed (relay (parse_time unary_env) (fmt_time unary_env) ch j) [0] (sys_hub ?s) = Inr (h', slow)"
    "buf h' 0 = (if 0 \<in> hub_clients (sys_hub ?s) \<and> msg_RoomID m \<in> set (cl_Rooms (one_client 0)) \<and>
        length (buf (sys_hub ?s) 0) < 256
       then buf (sys_hub ?s) 0 @ [receive_event (fmt_time unary_env) m] else buf (sys_hub ?s) 0)"
    by (auto simp: c(2))
  with hub reach show ?thesis
    by (intro exI[of _ m] exI[of _ ch] exI[of _ j] exI[of _ h'] exI[of _ slow] exI[of _ ?s])
      (simp add: unary_env_def)
qed

definition memo :: "string \<Rightarrow> message" where
  "memo i = sample_message i ''r1'' ''u-bob'' 5"

theorem relay_keeps_order_witness:
  "\<exists>s h'. hub_reach one_client s \<and>
     StartMessageRelay read_unary unary_time
       (\<lambda>_ w. (Inr (zip (map (\<lambda>m. (roomChannel (msg_RoomID m), message_json unary_time m)) [memo ''m8'', memo ''m9''])
         [[0], [0]], \<lambda>w. (None, w)), w)) (sys_hub s) (0::nat) = (Inr (h', []), 0) \<and>
     buf h' 0 = [receive_event unary_time (memo ''m8''), receive_event unary_time (memo ''m9'')]"
proof -
  let ?s = "init_sys\<lparr>sys_hub := addClient one_client 0 NewHub, sys_reader := (\<lambda>_. Unborn)(0 := Reading)\<rparr>"
  let ?ms = "[memo ''m8'', memo ''m9'']"
  note reach = one_registered[of one_client 0]
  have hub: "hub_clients (sys_hub ?s) = {0}" "cl_Rooms (one_client 0) = [''r1'']" "buf (sys_hub ?s) 0 = []"
    "\<not> closed (sys_hub ?s) 0" "members (hub_rooms (sys_hub ?s)) ''r1'' = {0}"
    by (simp_all add: init_sys_def addClient_def NewHub_def one_client_def new_chan_def add_to_def members_def)
  have room: "msg_RoomID (memo i) = ''r1''" "msg_Attachments (memo i) = []" for i
    by (simp_all add: memo_def sample_message_def)
  have a: "\<forall>m \<in> set ?ms. msg_RoomID m \<noteq> [] \<and> \<not> contains_sub ''users:'' (roomChannel (msg_RoomID m)) \<and>
      (\<forall>a \<in> set (msg_Attachments m). in_int64 (att_SizeBytes a))"
    by (simp add: room roomChannel_def has_prefix_def)
  have b: "list_all2 (\<lambda>m order. iterates order (members (hub_rooms (sys_hub ?s)) (msg_RoomID m))) ?ms [[0], [0]]"
    using hub(5) by (simp add: room iterates_def)
  have c: "\<forall>x \<in> hub_clients (sys_hub ?s). \<not> closed (sys_hub ?s) x \<and>
      length (buf (sys_hub ?s) x) + length (filter (\<lambda>m. msg_RoomID m \<in> set (cl_Rooms (one_client x))) ?ms) \<le> 256"
    using hub by simp
  let ?sub = "\<lambda>(_::string list) w. (Inr (zip (map (\<lambda>m. (roomChannel (msg_RoomID m), message_json unary_time m)) ?ms)
      [[0], [0]], \<lambda>w. (None, w)), w::nat)"
  from relay_keeps_order[OF reach read_unary_inverts a b c, of ?sub 0] hub reach
  show ?thesis by (intro exI[of _ ?s]) (auto simp: room)
qed

text \<open>A match that knows stars only, with at most one in a pattern.\<close>

definition one_star :: "string \<Rightarrow> string \<Rightarrow> bool" where
  "one_star p s =
     (let a = takeWhile (\<lambda>c. c \<noteq> CHR ''*'') p; b = drop (Suc (length a)) p
      in take (length a) s = a \<and> length a + length b \<le> length s \<and> drop (length s - length b) s = b)"

lemma one_star_matches: "star_matches one_star"
proof -
  have "one_star (a @ ''*'' @ b) (a @ x @ b)" if "plain_text a" for a x b
  proof -
    have "takeWhile (\<lambda>c. c \<noteq> CHR ''*'') (a @ ''*'' @ b) = a"
      using that by (auto simp: plain_text_def list_all_iff takeWhile_append2)
    then show ?thesis by (simp add: one_star_def Let_def)
  qed
  then show ?thesis by (simp add: star_matches_def)
qed

theorem announcements_are_heard_witness:
  "\<exists>rsps w' a. serve_all (startAPIServer unary_env 1000 100000 [] burst_lib) [send_request_r1] sample_limiter token_world
     = (rsps, w') \<and> w_log w' = [a] \<and> heard one_star [''rooms:*:messages'', ''users:*:events''] [a] = [a]"
proof -
  from unary_send_served obtain rsp rl' w' where s: "serve_api (startAPIServer unary_env 1000 100000 [] burst_lib)
      send_request_r1 sample_limiter token_world = (rsp, rl', w')" "rs_Status rsp = 201" by blast
  from sample_send_route obtain c where "find_route protected_routes send_request_r1 = Some (Message_send, c)" by blast
  from http_send_served[OF this s] message_Send_effect obtain a where log: "w_log w' = w_log token_world @ [a]"
    by metis
  have all: "serve_all (startAPIServer unary_env 1000 100000 [] burst_lib) [send_request_r1] sample_limiter token_world
      = ([rsp], w')" by (simp add: s(1))
  from announcements_are_heard[OF one_star_matches all] log all show ?thesis
    by (intro exI[of _ "[rsp]"] exI[of _ w'] exI[of _ a])
      (simp add: token_world_def chat_world_def sample_world_def roomMessagePattern_def userEventPattern_def)
qed

end
