(* ===== verification/Go_Duration.thy ===== *)
theory Go_Duration
  imports Go_Strings
begin

text \<open>
  \<open>time.ParseDuration\<close>, \<open>time.Duration\<close> as the number of nanoseconds, and the decimal
  form of an \<open>int\<close>. The one float operation of the parser, the value of a fraction of a
  unit, is the argument \<open>frac\<close>: \<open>frac f scale unit\<close> is
  \<open>uint64(float64(f) * (float64(unit) / scale))\<close>.
\<close>

section \<open>Decimal numbers\<close>

definition digit_char :: "nat \<Rightarrow> char" where
  "digit_char d = char_of (48 + d)"

text \<open>The digits are written from the last one to the first, in front of those written so far.\<close>

fun put_decimal :: "nat \<Rightarrow> string \<Rightarrow> string" where
  "put_decimal n written =
     (let s = digit_char (n mod 10) # written in if n < 10 then s else put_decimal (n div 10) s)"

declare put_decimal.simps [simp del]

definition format_d :: "int \<Rightarrow> string" where
  "format_d i = (if i < 0 then CHR ''-'' # put_decimal (nat (- i)) [] else put_decimal (nat i) [])"

lemma digit_val_char: "d < 10 \<Longrightarrow> digit_val (digit_char d) = Some (int d)"
  by (auto simp: digit_val_def digit_char_def)

lemma digits_val_put:
  "\<exists>m. \<forall>acc. digits_val acc (put_decimal n s) = digits_val (acc * 10 ^ m + int n) s"
proof (induction n s rule: put_decimal.induct)
  case (1 n s)
  show ?case
  proof (cases "n < 10")
    case True
    then show ?thesis
      by (subst put_decimal.simps) (auto simp: digit_val_char Let_def algebra_simps intro!: exI[of _ 1])
  next
    case False
    with 1 obtain m where m: "\<forall>acc. digits_val acc (put_decimal (n div 10) (digit_char (n mod 10) # s))
        = digits_val (acc * 10 ^ m + int (n div 10)) (digit_char (n mod 10) # s)" by auto
    have n: "10 * int (n div 10) + int (n mod 10) = int n" by presburger
    have "digits_val acc (put_decimal n s) = digits_val (acc * 10 ^ Suc m + int n) s" for acc
    proof -
      have e: "10 * (acc * 10 ^ m + int (n div 10)) + int (n mod 10) = acc * 10 ^ Suc m + int n"
        using n by (simp add: algebra_simps)
      from False m show ?thesis unfolding e[symmetric]
        by (subst put_decimal.simps) (simp add: digit_val_char del: of_nat_mod of_nat_div)
    qed
    then show ?thesis by blast
  qed
qed

lemma put_decimal_shape: "\<exists>d ds. put_decimal n s = digit_char d # ds \<and> d < 10"
proof (induction n s rule: put_decimal.induct)
  case (1 n s)
  then show ?case by (subst put_decimal.simps) (auto simp: Let_def)
qed

lemma Atoi_format_d:
  assumes "in_int64 i"
  shows "Atoi (format_d i) = Some i"
proof -
  obtain m where m: "\<And>acc n. digits_val acc (put_decimal n []) = Some (acc * 10 ^ m n + int n)"
    using digits_val_put[of _ "[]"] by (metis digits_val.simps(1))
  obtain d ds where d: "put_decimal (nat \<bar>i\<bar>) [] = digit_char d # ds" "d < 10"
    using put_decimal_shape by blast
  have "digit_char d \<noteq> CHR ''-''" "digit_char d \<noteq> CHR ''+''"
    using d(2) digit_val_char[OF d(2)] by (auto simp: digit_val_def)
  with d assms m[of 0 "nat \<bar>i\<bar>"] show ?thesis
    by (auto simp: Atoi_def format_d_def Let_def abs_if split: if_splits)
qed

section \<open>Durations\<close>

type_synonym duration = int

abbreviation nanosecond :: duration where "nanosecond \<equiv> 1"
abbreviation second :: duration where "second \<equiv> 1000000000"

text \<open>Both spellings of the micro sign are accepted.\<close>

definition unit_map :: "(string \<times> int) list" where
  "unit_map =
     [(''ns'', nanosecond), (''us'', 1000), ([CHR 0xC2, CHR 0xB5, CHR ''s''], 1000),
      ([CHR 0xCE, CHR 0xBC, CHR ''s''], 1000), (''ms'', 1000000), (''s'', second),
      (''m'', 60 * second), (''h'', 3600 * second)]"

fun leadingInt :: "int \<Rightarrow> string \<Rightarrow> (int \<times> string) option" where
  "leadingInt x [] = Some (x, [])"
| "leadingInt x (c # cs) =
     (case digit_val c of
        None \<Rightarrow> Some (x, c # cs)
      | Some d \<Rightarrow> if x > 2 ^ 63 div 10 \<or> 10 * x + d > 2 ^ 63 then None else leadingInt (10 * x + d) cs)"

text \<open>The digits of a fraction that no longer fit are skipped.\<close>

fun leadingFraction :: "bool \<Rightarrow> int \<Rightarrow> int \<Rightarrow> string \<Rightarrow> int \<times> int \<times> string" where
  "leadingFraction full x scale [] = (x, scale, [])"
| "leadingFraction full x scale (c # cs) =
     (case digit_val c of
        None \<Rightarrow> (x, scale, c # cs)
      | Some d \<Rightarrow>
          if full \<or> x > (2 ^ 63 - 1) div 10 \<or> 10 * x + d > 2 ^ 63 then leadingFraction True x scale cs
          else leadingFraction False (10 * x + d) (10 * scale) cs)"

lemma leadingInt_shorter: "leadingInt x s = Some (v, r) \<Longrightarrow> length r \<le> length s"
  by (induction x s rule: leadingInt.induct) (fastforce split: option.splits if_splits)+

lemma leadingFraction_shorter: "leadingFraction full x sc s = (f, sc', r) \<Longrightarrow> length r \<le> length s"
  by (induction full x sc s rule: leadingFraction.induct) (fastforce split: option.splits if_splits)+

definition starts_number :: "char \<Rightarrow> bool" where
  "starts_number c \<longleftrightarrow> c = CHR ''.'' \<or> digit_val c \<noteq> None"

text \<open>One number with its unit, at the start of a string that is not empty.\<close>

definition fraction_part :: "string \<Rightarrow> int \<times> int \<times> string \<times> bool" where
  "fraction_part s =
     (case s of
        c # cs \<Rightarrow>
          if c = CHR ''.''
          then (case leadingFraction False 0 1 cs of (f, scale, r) \<Rightarrow> (f, scale, r, length r \<noteq> length cs))
          else (0, 1, s, False)
      | [] \<Rightarrow> (0, 1, s, False))"

definition duration_term :: "(int \<Rightarrow> int \<Rightarrow> int \<Rightarrow> int) \<Rightarrow> string \<Rightarrow> (int \<times> string) option" where
  "duration_term frac s =
     (if s = [] \<or> \<not> starts_number (hd s) then None
      else case leadingInt 0 s of
        None \<Rightarrow> None
      | Some (v, s1) \<Rightarrow>
          (case fraction_part s1 of
             (f, scale, s2, post) \<Rightarrow>
               let u = takeWhile (\<lambda>c. \<not> starts_number c) s2;
                   rest = dropWhile (\<lambda>c. \<not> starts_number c) s2
               in if length s1 = length s \<and> \<not> post \<or> u = [] then None
                  else case map_of unit_map u of
                    None \<Rightarrow> None
                  | Some unit \<Rightarrow>
                      if v > 2 ^ 63 div unit then None
                      else let v' = (if f > 0 then v * unit + frac f scale unit else v * unit)
                           in if v' > 2 ^ 63 then None else Some (v', rest)))"

lemma fraction_part_shorter: "fraction_part s = (f, sc, r, post) \<Longrightarrow> length r \<le> length s"
  by (auto simp: fraction_part_def split: list.splits if_splits prod.splits
      dest!: leadingFraction_shorter)

lemma duration_term_shorter:
  assumes "duration_term frac s = Some (v, rest)"
  shows "length rest < length s"
proof -
  from assms obtain v0 s1 f sc s2 post where p: "leadingInt 0 s = Some (v0, s1)"
    "fraction_part s1 = (f, sc, s2, post)" "takeWhile (\<lambda>c. \<not> starts_number c) s2 \<noteq> []"
    "rest = dropWhile (\<lambda>c. \<not> starts_number c) s2"
    by (auto simp: duration_term_def Let_def split: if_splits option.splits prod.splits)
  then have "length rest < length s2"
    by (metis length_append length_greater_0_conv less_add_same_cancel2 takeWhile_dropWhile_id)
  with p(1,2) show ?thesis using leadingInt_shorter fraction_part_shorter by fastforce
qed

text \<open>The terms of the whole string, added up as \<open>uint64\<close>.\<close>

function duration_terms :: "(int \<Rightarrow> int \<Rightarrow> int \<Rightarrow> int) \<Rightarrow> int \<Rightarrow> string \<Rightarrow> int option" where
  "duration_terms frac d s =
     (if s = [] then Some d
      else case duration_term frac s of
        None \<Rightarrow> None
      | Some (v, rest) \<Rightarrow>
          let d' = (d + v) mod 2 ^ 64
          in if d' > 2 ^ 63 then None else duration_terms frac d' rest)"
  by pat_completeness auto

termination
  by (relation "measure (\<lambda>(frac, d, s). length s)") (auto dest: duration_term_shorter)

declare duration_terms.simps [simp del]

definition ParseDuration :: "(int \<Rightarrow> int \<Rightarrow> int \<Rightarrow> int) \<Rightarrow> string \<Rightarrow> duration option" where
  "ParseDuration frac s =
     (let (neg, body) = (case s of [] \<Rightarrow> (False, [])
                         | c # cs \<Rightarrow> if c = CHR ''-'' then (True, cs)
                                     else if c = CHR ''+'' then (False, cs) else (False, s))
      in if body = ''0'' then Some 0
         else if body = [] then None
         else case duration_terms frac 0 body of
                None \<Rightarrow> None
              | Some d \<Rightarrow> if neg then Some (- d) else if d > 2 ^ 63 - 1 then None else Some d)"

lemma duration_terms_range:
  "duration_terms frac d s = Some r \<Longrightarrow> 0 \<le> d \<Longrightarrow> d \<le> 2 ^ 63 \<Longrightarrow> 0 \<le> r \<and> r \<le> 2 ^ 63"
proof (induction frac d s rule: duration_terms.induct)
  case (1 frac d s)
  show ?case
  proof (cases "s = []")
    case True
    with 1 show ?thesis by (simp add: duration_terms.simps)
  next
    case False
    with "1.prems"(1) obtain v rest where t: "duration_term frac s = Some (v, rest)"
      "\<not> 2 ^ 63 < (d + v) mod 2 ^ 64" "duration_terms frac ((d + v) mod 2 ^ 64) rest = Some r"
      by (subst (asm) duration_terms.simps) (auto simp: Let_def split: option.splits if_splits)
    show ?thesis by (rule "1.IH"[OF False t(1) refl refl t(2,3)]) (use t(2) in simp_all)
  qed
qed

lemma ParseDuration_in_range:
  assumes "ParseDuration frac s = Some d"
  shows "in_int64 d"
proof -
  have "d = 0 \<or> (\<exists>body. duration_terms frac 0 body = Some (- d))
      \<or> (\<exists>body. duration_terms frac 0 body = Some d \<and> d \<le> 2 ^ 63 - 1)"
    using assms by (auto simp: ParseDuration_def Let_def split: prod.splits if_splits option.splits)
  then show ?thesis using duration_terms_range[of frac 0] by (fastforce simp: in_int64_def)
qed

end
