(* ===== verification/Client_Writer.thy ===== *)
theory Client_Writer
  imports Hub Go_Duration "HOL-Library.Sublist"
begin

text \<open>
  \<open>WritePump\<close> of \<open>internal/delivery/websocket/client.go\<close>: the goroutine that takes the payloads of a
  client from its channel and writes them to its connection, in frames, with a ping from time to time.
  The hub queues payloads and closes the channel while the writer is anywhere in its loop, so the loop
  is a machine: a place, the channel and the connection, with one step for each of its uses of the
  channel. The connection (\<open>gorilla/websocket\<close>) is a parameter; what is relied on of it is the locale
  \<open>ws_connection\<close>.
\<close>

section \<open>The connection\<close>

text \<open>What the writer hands to a connection, and the frames that leave it.\<close>

datatype chunk = Payload json | LineBreak | NoBytes

datatype out_frame = TextMessage "chunk list" | CloseMessage | PingMessage

record 'c ws_conn =
  wc_SetWriteDeadline :: "time \<Rightarrow> 'c \<Rightarrow> 'c"
  wc_NextWriter :: "('c, err option) io"
  wc_Write :: "chunk \<Rightarrow> ('c, err option) io"
  wc_CloseWriter :: "('c, err option) io"
  wc_WriteMessage :: "out_frame \<Rightarrow> ('c, err option) io"
  wc_Close :: "'c \<Rightarrow> 'c"

text \<open>
  The frames reported as written, the text message being written, and whether a write has failed:
  then all later ones fail.
\<close>

locale ws_connection =
  fixes C :: "'c ws_conn"
    and sent :: "'c \<Rightarrow> out_frame list"
    and part :: "'c \<Rightarrow> chunk list"
    and broken :: "'c \<Rightarrow> bool"
  assumes deadline_sent [simp]: "sent (wc_SetWriteDeadline C t c) = sent c"
    and close_sent [simp]: "sent (wc_Close C c) = sent c"
    and close_broken [simp]: "broken (wc_Close C c)"
    and next_ok: "wc_NextWriter C c = (None, c') \<Longrightarrow> sent c' = sent c \<and> part c' = []"
    and next_fail: "wc_NextWriter C c = (Some e, c') \<Longrightarrow> sent c' = sent c"
    and write_ok: "wc_Write C x c = (None, c') \<Longrightarrow>
        \<not> broken c \<and> sent c' = sent c \<and> part c' = part c @ [x]"
    and write_fail: "wc_Write C x c = (Some e, c') \<Longrightarrow> sent c' = sent c \<and> broken c'"
    and finish_ok: "wc_CloseWriter C c = (None, c') \<Longrightarrow> \<not> broken c \<and> sent c' = sent c @ [TextMessage (part c)]"
    and finish_fail: "wc_CloseWriter C c = (Some e, c') \<Longrightarrow> sent c' = sent c"
    and message_ok: "wc_WriteMessage C f c = (None, c') \<Longrightarrow> sent c' = sent c @ [f]"
    and message_fail: "wc_WriteMessage C f c = (Some e, c') \<Longrightarrow> sent c' = sent c"

section \<open>The loop (client.go)\<close>

definition writeWait :: duration where "writeWait = 10 * second"
definition pongWait :: duration where "pongWait = 60 * second"
definition pingPeriod :: duration where "pingPeriod = (pongWait * 9) div 10"

text \<open>
  At the \<open>select\<close>; after the first payload was handed over, before \<open>len(c.Send)\<close>; with that many
  payloads still to flush; and after the return, which closes the connection.
\<close>

datatype place = Selecting | Opened | Flushing nat | Returned

record 'c writer =
  wr_at :: place
  wr_chan :: chan
  wr_conn :: 'c

definition writer_return :: "'c ws_conn \<Rightarrow> chan \<Rightarrow> 'c \<Rightarrow> 'c writer" where
  "writer_return C ch c = \<lparr>wr_at = Returned, wr_chan = ch, wr_conn = wc_Close C c\<rparr>"

text \<open>\<open>case message, ok := <-c.Send\<close> at the time \<open>now\<close>, up to the first payload; \<open>None\<close>: it blocks.\<close>

definition writer_receive :: "'c ws_conn \<Rightarrow> time \<Rightarrow> 'c writer \<Rightarrow> 'c writer option" where
  "writer_receive C now s =
     (let c = wc_SetWriteDeadline C (now + writeWait) (wr_conn s) in
      case ch_buf (wr_chan s) of
        [] \<Rightarrow>
          if ch_closed (wr_chan s)
          then (case wc_WriteMessage C CloseMessage c of (_, c1) \<Rightarrow> Some (writer_return C (wr_chan s) c1))
          else None
      | message # queued \<Rightarrow>
          (let ch = (wr_chan s)\<lparr>ch_buf := queued\<rparr> in
           case wc_NextWriter C c of
             (Some e, c1) \<Rightarrow> Some (writer_return C ch c1)
           | (None, c1) \<Rightarrow>
               (case wc_Write C (Payload message) c1 of
                  (Some e, c2) \<Rightarrow> Some (writer_return C ch (snd (wc_CloseWriter C c2)))
                | (None, c2) \<Rightarrow> Some \<lparr>wr_at = Opened, wr_chan = ch, wr_conn = c2\<rparr>)))"

text \<open>
  One turn of the loop that flushes, with \<open>k\<close> turns left after it: a failed write breaks it, the
  receive blocks on an empty channel and gives no bytes from a closed one.
\<close>

definition writer_flush :: "'c ws_conn \<Rightarrow> nat \<Rightarrow> 'c writer \<Rightarrow> 'c writer option" where
  "writer_flush C k s =
     (case wc_Write C LineBreak (wr_conn s) of
        (Some e, c1) \<Rightarrow> Some (s\<lparr>wr_at := Flushing 0, wr_conn := c1\<rparr>)
      | (None, c1) \<Rightarrow>
          (case ch_buf (wr_chan s) of
             [] \<Rightarrow>
               if ch_closed (wr_chan s)
               then (case wc_Write C NoBytes c1 of
                       (Some e, c2) \<Rightarrow> Some (s\<lparr>wr_at := Flushing 0, wr_conn := c2\<rparr>)
                     | (None, c2) \<Rightarrow> Some (s\<lparr>wr_at := Flushing k, wr_conn := c2\<rparr>))
               else None
           | message # queued \<Rightarrow>
               (let s1 = s\<lparr>wr_chan := (wr_chan s)\<lparr>ch_buf := queued\<rparr>\<rparr> in
                case wc_Write C (Payload message) c1 of
                  (Some e, c2) \<Rightarrow> Some (s1\<lparr>wr_at := Flushing 0, wr_conn := c2\<rparr>)
                | (None, c2) \<Rightarrow> Some (s1\<lparr>wr_at := Flushing k, wr_conn := c2\<rparr>))))"

definition writer_finish :: "'c ws_conn \<Rightarrow> 'c writer \<Rightarrow> 'c writer" where
  "writer_finish C s =
     (case wc_CloseWriter C (wr_conn s) of
        (Some e, c1) \<Rightarrow> writer_return C (wr_chan s) c1
      | (None, c1) \<Rightarrow> s\<lparr>wr_at := Selecting, wr_conn := c1\<rparr>)"

definition writer_ping :: "'c ws_conn \<Rightarrow> time \<Rightarrow> 'c writer \<Rightarrow> 'c writer" where
  "writer_ping C now s =
     (case wc_WriteMessage C PingMessage (wc_SetWriteDeadline C (now + writeWait) (wr_conn s)) of
        (Some e, c1) \<Rightarrow> writer_return C (wr_chan s) c1
      | (None, c1) \<Rightarrow> s\<lparr>wr_conn := c1\<rparr>)"

text \<open>
  The events of a run: what the hub does to the channel (it queues a payload there was space for, or
  closes it), and the steps of the writer. An event that cannot happen in a state has no result.
\<close>

datatype writer_event = Queued json | ChannelClosed | Received time | Proceeds | Ticked time

definition WritePump_step :: "'c ws_conn \<Rightarrow> writer_event \<Rightarrow> 'c writer \<Rightarrow> 'c writer option" where
  "WritePump_step C e s =
     (case e of
        Queued d \<Rightarrow>
          (case offer_chan d (wr_chan s) of Accepted ch \<Rightarrow> Some (s\<lparr>wr_chan := ch\<rparr>) | _ \<Rightarrow> None)
      | ChannelClosed \<Rightarrow>
          (case close_chan (wr_chan s) of Inl _ \<Rightarrow> None | Inr ch \<Rightarrow> Some (s\<lparr>wr_chan := ch\<rparr>))
      | Received now \<Rightarrow> if wr_at s = Selecting then writer_receive C now s else None
      | Ticked now \<Rightarrow> if wr_at s = Selecting then Some (writer_ping C now s) else None
      | Proceeds \<Rightarrow>
          (case wr_at s of
             Opened \<Rightarrow> Some (s\<lparr>wr_at := Flushing (length (ch_buf (wr_chan s)))\<rparr>)
           | Flushing (Suc k) \<Rightarrow> writer_flush C k s
           | Flushing 0 \<Rightarrow> Some (writer_finish C s)
           | _ \<Rightarrow> None))"

fun WritePump :: "'c ws_conn \<Rightarrow> writer_event list \<Rightarrow> 'c writer \<Rightarrow> 'c writer option" where
  "WritePump C [] s = Some s"
| "WritePump C (e # es) s =
     (case WritePump_step C e s of None \<Rightarrow> None | Some s1 \<Rightarrow> WritePump C es s1)"

text \<open>The writer itself does nothing to its channel but take the first payload.\<close>

definition writer_acts :: "writer_event \<Rightarrow> bool" where
  "writer_acts e = (case e of Queued d \<Rightarrow> False | ChannelClosed \<Rightarrow> False | _ \<Rightarrow> True)"

lemma writer_takes:
  assumes "WritePump_step C e s = Some s'" and "writer_acts e"
  shows "wr_chan s' = wr_chan s \<or>
    (\<exists>d ds. ch_buf (wr_chan s) = d # ds \<and> wr_chan s' = (wr_chan s)\<lparr>ch_buf := ds\<rparr>)"
  using assms
  by (auto simp: WritePump_step_def writer_acts_def writer_receive_def writer_flush_def writer_finish_def
      writer_ping_def writer_return_def Let_def
      split: writer_event.splits place.splits nat.splits if_splits list.splits prod.splits option.splits)

definition new_writer :: "'c \<Rightarrow> 'c writer" where
  "new_writer c = \<lparr>wr_at = Selecting, wr_chan = new_chan, wr_conn = c\<rparr>"

section \<open>What a run writes\<close>

definition chunk_payloads :: "chunk list \<Rightarrow> json list" where
  "chunk_payloads cs = concat (map (\<lambda>x. case x of Payload d \<Rightarrow> [d] | _ \<Rightarrow> []) cs)"

fun frame_payloads :: "out_frame \<Rightarrow> json list" where
  "frame_payloads (TextMessage cs) = chunk_payloads cs"
| "frame_payloads CloseMessage = []"
| "frame_payloads PingMessage = []"

definition payloads :: "out_frame list \<Rightarrow> json list" where
  "payloads fs = concat (map frame_payloads fs)"

definition queued :: "writer_event list \<Rightarrow> json list" where
  "queued es = concat (map (\<lambda>e. case e of Queued d \<Rightarrow> [d] | _ \<Rightarrow> []) es)"

text \<open>Payloads one per line.\<close>

fun lines_of :: "json list \<Rightarrow> chunk list" where
  "lines_of [] = []"
| "lines_of [d] = [Payload d]"
| "lines_of (d # ds) = Payload d # LineBreak # lines_of ds"

lemma lines_of_snoc: "ds \<noteq> [] \<Longrightarrow> lines_of (ds @ [d]) = lines_of ds @ [LineBreak, Payload d]"
  by (induction ds rule: lines_of.induct) auto

lemma payloads_lines [simp]: "chunk_payloads (lines_of ds) = ds"
  by (induction ds rule: lines_of.induct) (auto simp: chunk_payloads_def)

lemma payloads_simps [simp]:
  "payloads [] = []" "payloads (fs @ gs) = payloads fs @ payloads gs"
  "payloads [f] = frame_payloads f"
  by (simp_all add: payloads_def)

lemma queued_simps [simp]:
  "queued [] = []" "queued (es @ ds) = queued es @ queued ds"
  "queued [e] = (case e of Queued d \<Rightarrow> [d] | _ \<Rightarrow> [])"
  by (simp_all add: queued_def)

lemma WritePump_append:
  "WritePump C (es @ fs) s = (case WritePump C es s of None \<Rightarrow> None | Some s1 \<Rightarrow> WritePump C fs s1)"
  by (induction es arbitrary: s) (auto split: option.splits)

lemma WritePump_snoc:
  "WritePump C (es @ [e]) s = (case WritePump C es s of None \<Rightarrow> None | Some s1 \<Rightarrow> WritePump_step C e s1)"
  by (auto simp: WritePump_append split: option.splits)

definition clean_frame :: "out_frame \<Rightarrow> bool" where
  "clean_frame f \<longleftrightarrow> f = PingMessage \<or> (\<exists>ds. ds \<noteq> [] \<and> f = TextMessage (lines_of ds))"

text \<open>
  The payloads queued so far, at each place of the loop: those on the wire, those of the message
  being written, those a failed write lost, and those in the channel. A close frame is the last one,
  and leaves nothing behind.
\<close>

context ws_connection
begin

definition wire :: "'c writer \<Rightarrow> json list" where
  "wire s = payloads (sent (wr_conn s))"

definition settled :: "json list \<Rightarrow> 'c writer \<Rightarrow> bool" where
  "settled qs s \<longleftrightarrow>
     (\<forall>f \<in> set (sent (wr_conn s)). clean_frame f) \<and>
     (case wr_at s of
        Selecting \<Rightarrow> qs = wire s @ ch_buf (wr_chan s)
      | Opened \<Rightarrow> (\<exists>d. part (wr_conn s) = [Payload d] \<and> qs = wire s @ [d] @ ch_buf (wr_chan s))
      | Flushing k \<Rightarrow>
          (\<exists>ds. ds \<noteq> [] \<and> part (wr_conn s) = lines_of ds \<and> k \<le> length (ch_buf (wr_chan s)) \<and>
             qs = wire s @ ds @ ch_buf (wr_chan s)) \<or>
          (k = 0 \<and> broken (wr_conn s) \<and> (\<exists>lost. qs = wire s @ lost @ ch_buf (wr_chan s)))
      | Returned \<Rightarrow> (\<exists>lost. qs = wire s @ lost @ ch_buf (wr_chan s)))"

definition finished :: "json list \<Rightarrow> 'c writer \<Rightarrow> bool" where
  "finished qs s \<longleftrightarrow>
     wr_at s = Returned \<and> ch_closed (wr_chan s) \<and> ch_buf (wr_chan s) = [] \<and>
     (\<exists>fs. sent (wr_conn s) = fs @ [CloseMessage] \<and> (\<forall>f \<in> set fs. clean_frame f)) \<and> qs = wire s"

lemma next_sent: "wc_NextWriter C c = (r, c') \<Longrightarrow> sent c' = sent c"
  using next_ok next_fail by (cases r) blast+

lemma write_sent: "wc_Write C x c = (r, c') \<Longrightarrow> sent c' = sent c"
  using write_ok write_fail by (cases r) blast+

lemma finish_broken: "broken c \<Longrightarrow> wc_CloseWriter C c = (r, c') \<Longrightarrow> \<exists>e. r = Some e \<and> sent c' = sent c"
  using finish_ok finish_fail by (cases r) blast+

lemmas wire_simps = settled_def finished_def wire_def writer_return_def

text \<open>
  What is in the hands of a writer: the payloads on the wire, those of a message being written that can
  still get there, and those in its channel. Its steps add nothing to that.
\<close>

definition handled :: "'c writer \<Rightarrow> json set" where
  "handled s = set (wire s) \<union> set (ch_buf (wr_chan s)) \<union>
     (if wr_at s = Selecting \<or> wr_at s = Returned \<or> broken (wr_conn s) then {}
      else set (chunk_payloads (part (wr_conn s))))"

lemma receive_handled: "writer_receive C now s = Some s' \<Longrightarrow> handled s' \<subseteq> handled s"
proof (cases "ch_buf (wr_chan s)")
  case Nil
  assume r: "writer_receive C now s = Some s'"
  obtain x c1 where 1: "wc_WriteMessage C CloseMessage (wc_SetWriteDeadline C (now + writeWait) (wr_conn s)) = (x, c1)"
    by fastforce
  have "payloads (sent c1) = payloads (sent (wr_conn s))"
    using 1 message_ok message_fail by (cases x) force+
  with r 1 Nil show ?thesis
    by (auto simp: writer_receive_def writer_return_def handled_def wire_def Let_def split: if_splits)
next
  case (Cons d ds)
  assume r: "writer_receive C now s = Some s'"
  obtain x c1 where 1: "wc_NextWriter C (wc_SetWriteDeadline C (now + writeWait) (wr_conn s)) = (x, c1)" by fastforce
  obtain y c2 where 2: "wc_Write C (Payload d) c1 = (y, c2)" by fastforce
  obtain z c3 where 3: "wc_CloseWriter C c2 = (z, c3)" by fastforce
  note same = next_sent[OF 1] write_sent[OF 2]
  have "y = Some e \<Longrightarrow> sent c3 = sent c2" for e using write_fail 2 finish_broken[OF _ 3] by blast
  moreover have "x = None \<Longrightarrow> y = None \<Longrightarrow> part c2 = [Payload d]" using next_ok 1 write_ok 2 by force
  ultimately show ?thesis using r 1 2 3 Cons same
    by (cases x; cases y)
      (auto simp: writer_receive_def writer_return_def handled_def wire_def chunk_payloads_def Let_def)
qed

lemma flush_handled:
  assumes "writer_flush C k s = Some s'" and "wr_at s = Flushing j"
  shows "handled s' \<subseteq> handled s"
proof -
  obtain x c1 where 1: "wc_Write C LineBreak (wr_conn s) = (x, c1)" by fastforce
  note s1 = write_sent[OF 1]
  show ?thesis
  proof (cases x)
    case (Some e)
    with write_fail 1 have "broken c1" by blast
    with assms 1 Some s1 show ?thesis by (auto simp: writer_flush_def handled_def wire_def)
  next
    case None
    with write_ok 1 have ok: "\<not> broken (wr_conn s)" "part c1 = part (wr_conn s) @ [LineBreak]" by blast+
    have "handled s' \<subseteq> handled s" if "wc_Write C p c1 = (y, c2)" "ch_buf ch = ds" "set ds \<union> set (chunk_payloads [p]) \<subseteq> set (ch_buf (wr_chan s))"
      "s' = s\<lparr>wr_at := (if y = None then Flushing k else Flushing 0), wr_conn := c2, wr_chan := ch\<rparr>" for y p c2 ch ds
    proof (cases y)
      case (Some e)
      with write_fail that(1) have "broken c2" by blast
      with that s1 write_sent[OF that(1)] Some show ?thesis by (auto simp: handled_def wire_def)
    next
      case None
      with write_ok that(1) have "part c2 = part c1 @ [p]" by blast
      with that s1 write_sent[OF that(1)] None ok assms(2) show ?thesis
        by (auto simp: handled_def wire_def chunk_payloads_def)
    qed
    note one = this
    show ?thesis
    proof (cases "ch_buf (wr_chan s)")
      case Nil
      obtain y c2 where 2: "wc_Write C NoBytes c1 = (y, c2)" by fastforce
      from assms(1) 1 2 None Nil show ?thesis
        by (intro one[OF 2, of "wr_chan s" "[]"])
          (auto simp: writer_flush_def chunk_payloads_def split: if_splits option.splits)
    next
      case (Cons d ds)
      obtain y c2 where 2: "wc_Write C (Payload d) c1 = (y, c2)" by fastforce
      from assms(1) 1 2 None Cons show ?thesis
        by (intro one[OF 2, of "(wr_chan s)\<lparr>ch_buf := ds\<rparr>" ds])
          (auto simp: writer_flush_def chunk_payloads_def Let_def split: option.splits)
    qed
  qed
qed

lemma finish_handled: "wr_at s = Flushing k \<Longrightarrow> handled (writer_finish C s) \<subseteq> handled s"
  using finish_ok[of "wr_conn s"] finish_fail[of "wr_conn s"]
  by (fastforce simp: writer_finish_def writer_return_def handled_def wire_def split: prod.splits option.splits)

lemma ping_handled: "wr_at s = Selecting \<Longrightarrow> handled (writer_ping C now s) \<subseteq> handled s"
  using message_ok[of PingMessage] message_fail[of PingMessage]
  by (fastforce simp: writer_ping_def writer_return_def handled_def wire_def split: prod.splits option.splits)

lemma writer_adds_nothing:
  assumes "WritePump_step C e s = Some s'" and "writer_acts e"
  shows "handled s' \<subseteq> handled s"
proof (cases e)
  case (Received now)
  with assms show ?thesis by (auto simp: WritePump_step_def split: if_splits dest: receive_handled)
next
  case (Ticked now)
  with assms ping_handled show ?thesis by (auto simp: WritePump_step_def split: if_splits)
next
  case Proceeds
  show ?thesis
  proof (cases "wr_at s")
    case Opened
    with assms Proceeds show ?thesis by (auto simp: WritePump_step_def handled_def wire_def)
  next
    case (Flushing k)
    with assms Proceeds flush_handled[of _ s s' k] finish_handled[of s k] show ?thesis
      by (cases k) (auto simp: WritePump_step_def)
  qed (use assms Proceeds in \<open>simp_all add: WritePump_step_def\<close>)
qed (use assms in \<open>simp_all add: writer_acts_def\<close>)

lemma receive_settled:
  assumes "settled qs s" and "wr_at s = Selecting" and "writer_receive C now s = Some s'"
  shows "settled qs s' \<or> finished qs s'"
proof (cases "ch_buf (wr_chan s)")
  case Nil
  with assms show ?thesis
    by (auto simp: writer_receive_def wire_simps Let_def split: if_splits prod.splits)
      (metis message_fail message_ok deadline_sent option.exhaust payloads_simps frame_payloads.simps append_Nil2)+
next
  case (Cons d ds)
  obtain r c1 where 1: "wc_NextWriter C (wc_SetWriteDeadline C (now + writeWait) (wr_conn s)) = (r, c1)" by fastforce
  obtain x c2 where 2: "wc_Write C (Payload d) c1 = (x, c2)" by fastforce
  obtain y c3 where 3: "wc_CloseWriter C c2 = (y, c3)" by fastforce
  note same = next_sent[OF 1] write_sent[OF 2]
  show ?thesis
  proof (cases r)
    case (Some e)
    with assms Cons 1 same show ?thesis by (auto simp: writer_receive_def wire_simps Let_def)
  next
    case None
    then have part1: "part c1 = []" using next_ok 1 by blast
    show ?thesis
    proof (cases x)
      case (Some e)
      then have "sent c3 = sent c2" using write_fail 2 finish_broken[OF _ 3] by blast
      with assms Cons 1 2 3 None Some same show ?thesis by (auto simp: writer_receive_def wire_simps Let_def)
    next
      case x: None
      then have "part c2 = [Payload d]" using write_ok 2 part1 by force
      with assms Cons 1 2 None x same show ?thesis by (auto simp: writer_receive_def wire_simps Let_def)
    qed
  qed
qed

lemma flush_settled:
  assumes "settled qs s" and "wr_at s = Flushing (Suc k)" and "writer_flush C k s = Some s'"
  shows "settled qs s'"
proof -
  from assms(1,2) obtain ds d rest where ds: "ds \<noteq> []" "part (wr_conn s) = lines_of ds"
    "ch_buf (wr_chan s) = d # rest" "k \<le> length rest" "qs = wire s @ ds @ d # rest"
    and clean: "\<forall>f \<in> set (sent (wr_conn s)). clean_frame f"
    by (cases "ch_buf (wr_chan s)") (auto simp: settled_def)
  obtain r c1 where 1: "wc_Write C LineBreak (wr_conn s) = (r, c1)" by fastforce
  obtain x c2 where 2: "wc_Write C (Payload d) c1 = (x, c2)" by fastforce
  note same = write_sent[OF 1] write_sent[OF 2]
  show ?thesis
  proof (cases r)
    case (Some e)
    with write_fail 1 have "broken c1" by blast
    with assms(3) 1 ds clean same Some show ?thesis by (auto simp: writer_flush_def wire_simps)
  next
    case None
    with write_ok 1 ds(2) have p1: "part c1 = lines_of ds @ [LineBreak]" by force
    show ?thesis
    proof (cases x)
      case (Some e)
      with write_fail 2 have "broken c2" by blast
      with assms(3) 1 2 ds clean same None Some show ?thesis
        by (auto simp: writer_flush_def wire_simps intro: exI[of _ "ds @ [d]"])
    next
      case x: None
      with write_ok 2 p1 ds(1) have "part c2 = lines_of (ds @ [d])" by (force simp: lines_of_snoc)
      with assms(3) 1 2 ds clean same None x show ?thesis
        by (auto simp: writer_flush_def wire_simps Let_def intro!: disjI1 exI[of _ "ds @ [d]"])
    qed
  qed
qed

lemma finish_settled:
  assumes "settled qs s" and "wr_at s = Flushing 0"
  shows "settled qs (writer_finish C s)"
proof -
  obtain r c1 where 1: "wc_CloseWriter C (wr_conn s) = (r, c1)" by fastforce
  show ?thesis
  proof (cases r)
    case (Some e)
    with finish_fail 1 have "sent c1 = sent (wr_conn s)" by blast
    with assms 1 Some show ?thesis by (auto simp: writer_finish_def wire_simps)
  next
    case None
    with finish_ok 1 have ok: "\<not> broken (wr_conn s)" "sent c1 = sent (wr_conn s) @ [TextMessage (part (wr_conn s))]" by blast+
    with assms obtain ds where "ds \<noteq> []" "part (wr_conn s) = lines_of ds" "qs = wire s @ ds @ ch_buf (wr_chan s)"
      by (auto simp: settled_def)
    with assms 1 None ok show ?thesis by (auto simp: writer_finish_def wire_simps clean_frame_def)
  qed
qed

lemma ping_settled:
  assumes "settled qs s" and "wr_at s = Selecting"
  shows "settled qs (writer_ping C now s)"
proof -
  obtain r c1 where 1: "wc_WriteMessage C PingMessage (wc_SetWriteDeadline C (now + writeWait) (wr_conn s)) = (r, c1)"
    by fastforce
  have "sent c1 = sent (wr_conn s) @ (if r = None then [PingMessage] else [])"
    using 1 message_ok message_fail by (cases r) force+
  with assms 1 show ?thesis by (auto simp: writer_ping_def wire_simps clean_frame_def split: option.splits)
qed

lemma step_settled:
  assumes "settled qs s \<or> finished qs s" and "WritePump_step C e s = Some s'"
  shows "settled (qs @ queued [e]) s' \<or> finished (qs @ queued [e]) s'"
proof (cases e)
  case (Queued d)
  with assms show ?thesis
    by (auto simp: WritePump_step_def offer_chan_def wire_simps split: offer.splits place.splits if_splits)
next
  case ChannelClosed
  with assms show ?thesis
    by (auto simp: WritePump_step_def close_chan_def wire_simps split: place.splits if_splits)
next
  case (Received now)
  with assms show ?thesis
    by (auto simp: WritePump_step_def finished_def split: if_splits dest: receive_settled)
next
  case (Ticked now)
  with assms show ?thesis
    by (auto simp: WritePump_step_def finished_def split: if_splits intro: ping_settled)
next
  case Proceeds
  have "settled qs s'" if "wr_at s = Opened" "settled qs s"
    using that assms(2) Proceeds
    by (auto simp: WritePump_step_def wire_simps intro!: disjI1 exI[of _ "[_]"])
  with assms Proceeds show ?thesis
    by (auto simp: WritePump_step_def finished_def split: place.splits nat.splits
        intro: flush_settled finish_settled)
qed

lemma run_settled:
  "WritePump C es (new_writer c) = Some s \<Longrightarrow> sent c = [] \<Longrightarrow> settled (queued es) s \<or> finished (queued es) s"
proof (induction es arbitrary: s rule: rev_induct)
  case Nil
  then show ?case by (auto simp: new_writer_def new_chan_def wire_simps)
next
  case (snoc e es)
  then obtain s1 where "WritePump C es (new_writer c) = Some s1" "WritePump_step C e s1 = Some s"
    by (auto simp: WritePump_snoc split: option.splits)
  with snoc step_settled[of "queued es" s1 e s] show ?case by auto
qed

end

section \<open>A connection under any pattern of failures\<close>

text \<open>The \<open>n\<close>-th write on the connection fails when \<open>fails n\<close>, and every one after a failure.\<close>

record peer =
  pr_ops :: nat
  pr_broken :: bool
  pr_part :: "chunk list"
  pr_sent :: "out_frame list"

definition attempt :: "(nat \<Rightarrow> bool) \<Rightarrow> (peer \<Rightarrow> peer) \<Rightarrow> (peer, err option) io" where
  "attempt fails effect p =
     (let p1 = p\<lparr>pr_ops := Suc (pr_ops p)\<rparr> in
      if pr_broken p \<or> fails (pr_ops p) then (Some (ExtErr ''broken pipe''), p1\<lparr>pr_broken := True\<rparr>)
      else (None, effect p1))"

definition peer_conn :: "(nat \<Rightarrow> bool) \<Rightarrow> peer ws_conn" where
  "peer_conn fails =
     \<lparr>wc_SetWriteDeadline = (\<lambda>t p. p),
      wc_NextWriter = attempt fails (\<lambda>p. p\<lparr>pr_part := []\<rparr>),
      wc_Write = (\<lambda>x. attempt fails (\<lambda>p. p\<lparr>pr_part := pr_part p @ [x]\<rparr>)),
      wc_CloseWriter = attempt fails (\<lambda>p. p\<lparr>pr_sent := pr_sent p @ [TextMessage (pr_part p)]\<rparr>),
      wc_WriteMessage = (\<lambda>f. attempt fails (\<lambda>p. p\<lparr>pr_sent := pr_sent p @ [f]\<rparr>)),
      wc_Close = (\<lambda>p. p\<lparr>pr_broken := True\<rparr>)\<rparr>"

interpretation peers: ws_connection "peer_conn fails" pr_sent pr_part pr_broken for fails
  by unfold_locales (auto simp: peer_conn_def attempt_def Let_def split: if_splits)

definition new_peer :: peer where
  "new_peer = \<lparr>pr_ops = 0, pr_broken = False, pr_part = [], pr_sent = []\<rparr>"

section \<open>What reaches the wire\<close>

text \<open>
  C17: A client is sent the payloads queued for it in their order, none twice and none left out in
  between, whatever the hub does to the channel while the writer runs and wherever a write fails. When
  the writer is back at its \<open>select\<close>, nothing was lost: each payload is on the wire or still in the
  channel. A close frame is sent last, and only after every payload. Each text frame has one payload
  per line.
\<close>

theorem writer_in_order:
  assumes "ws_connection C sent part broken" and "WritePump C es (new_writer c) = Some s" and "sent c = []"
  shows "prefix (payloads (sent (wr_conn s))) (queued es) \<and>
    (wr_at s = Selecting \<longrightarrow> queued es = payloads (sent (wr_conn s)) @ ch_buf (wr_chan s)) \<and>
    (CloseMessage \<in> set (sent (wr_conn s)) \<longrightarrow>
       last (sent (wr_conn s)) = CloseMessage \<and> payloads (sent (wr_conn s)) = queued es) \<and>
    (\<forall>cs. TextMessage cs \<in> set (sent (wr_conn s)) \<longrightarrow> (\<exists>ds. ds \<noteq> [] \<and> cs = lines_of ds))"
proof -
  note defs = ws_connection.settled_def[OF assms(1)] ws_connection.finished_def[OF assms(1)]
    ws_connection.wire_def[OF assms(1)] clean_frame_def
  from ws_connection.run_settled[OF assms]
  have "ws_connection.settled sent part broken (queued es) s \<or> ws_connection.finished sent (queued es) s" .
  then show ?thesis
    by (fastforce simp: defs split: place.splits)
qed

lemma flush_runs:
  "wr_at s = Flushing (length ds) \<Longrightarrow> ch_buf (wr_chan s) = ds \<Longrightarrow> \<not> pr_broken (wr_conn s) \<Longrightarrow>
   pr_part (wr_conn s) = lines_of es \<Longrightarrow> es \<noteq> [] \<Longrightarrow>
   \<exists>s'. WritePump (peer_conn (\<lambda>_. False)) (replicate (Suc (length ds)) Proceeds) s = Some s' \<and>
     wr_at s' = Selecting \<and> wr_chan s' = (wr_chan s)\<lparr>ch_buf := []\<rparr> \<and> \<not> pr_broken (wr_conn s') \<and>
     pr_sent (wr_conn s') = pr_sent (wr_conn s) @ [TextMessage (lines_of (es @ ds))]"
proof (induction ds arbitrary: s es)
  case Nil
  then show ?case
    by (simp add: WritePump_step_def writer_finish_def peer_conn_def attempt_def Let_def)
next
  case (Cons d ds)
  let ?s1 = "s\<lparr>wr_at := Flushing (length ds), wr_chan := (wr_chan s)\<lparr>ch_buf := ds\<rparr>,
    wr_conn := (wr_conn s)\<lparr>pr_ops := Suc (Suc (pr_ops (wr_conn s))), pr_part := lines_of (es @ [d])\<rparr>\<rparr>"
  have "WritePump_step (peer_conn (\<lambda>_. False)) Proceeds s = Some ?s1"
    using Cons.prems by (simp add: WritePump_step_def writer_flush_def peer_conn_def attempt_def Let_def lines_of_snoc)
  moreover from Cons.IH[of ?s1 "es @ [d]"] Cons.prems(3) obtain s' where
    "WritePump (peer_conn (\<lambda>_. False)) (replicate (Suc (length ds)) Proceeds) ?s1 = Some s'"
    "wr_at s' = Selecting" "wr_chan s' = (wr_chan s)\<lparr>ch_buf := []\<rparr>" "\<not> pr_broken (wr_conn s')"
    "pr_sent (wr_conn s') = pr_sent (wr_conn s) @ [TextMessage (lines_of ((es @ [d]) @ ds))]"
    by auto
  ultimately show ?case by (intro exI[of _ s']) simp
qed


lemmas writer_eval = WritePump_step_def writer_receive_def writer_ping_def writer_flush_def writer_finish_def
  writer_return_def peer_conn_def attempt_def new_writer_def new_peer_def new_chan_def offer_chan_def
  close_chan_def send_cap_def

definition sample_run :: "writer_event list" where
  "sample_run = [Queued (JInt 1), Ticked 7, Received 8, Queued (JInt 2), Proceeds, Queued (JInt 3),
     Proceeds, Proceeds, ChannelClosed, Received 9, Proceeds, Proceeds, Received 10]"

theorem writer_in_order_witness:
  "\<exists>s. WritePump (peer_conn (\<lambda>_. False)) sample_run (new_writer new_peer) = Some s \<and>
     pr_sent (wr_conn s) = [PingMessage, TextMessage [Payload (JInt 1), LineBreak, Payload (JInt 2)],
       TextMessage [Payload (JInt 3)], CloseMessage] \<and>
     payloads (pr_sent (wr_conn s)) = queued sample_run"
proof -
  obtain s where run: "WritePump (peer_conn (\<lambda>_. False)) sample_run (new_writer new_peer) = Some s"
    and out: "pr_sent (wr_conn s) = [PingMessage, TextMessage [Payload (JInt 1), LineBreak, Payload (JInt 2)],
       TextMessage [Payload (JInt 3)], CloseMessage]"
    by (simp add: sample_run_def writer_eval Let_def)
  have "pr_sent new_peer = []" by (simp add: new_peer_def)
  from writer_in_order[OF peers.ws_connection_axioms run this] out run show ?thesis by auto
qed


end
