(* ===== verification/Node.thy ===== *)
theory Node
  imports Delivery Client_Writer
begin

text \<open>
  A websocket server at work: its hub with the goroutines around it, the requests to \<open>/ws\<close> that admit
  clients, the frames its clients send and the announcements its relay receives, over the Postgres and
  Redis that the API and other websocket servers change at the same time, and the writers that take
  what is queued to the connections of the clients. What a client is sent is traced back to where it
  came from.
\<close>

section \<open>Requests and frames stay within what the use cases do\<close>

context use_case_steps
begin

lemma FilterAuthorizedRooms_within:
  "within R (FilterAuthorizedRooms (RoomUseCase_ListMembers (svc_Room svc)) u rs)"
proof (rule withinI)
  fix w x w'
  show "FilterAuthorizedRooms (RoomUseCase_ListMembers (svc_Room svc)) u rs w = (x, w') \<Longrightarrow> R w w'"
    by (induction rs arbitrary: w x)
      (auto simp: R_refl split: prod.splits dest!: withinD[OF uc_ListMembers] intro: R_trans)
qed

lemma serve_ws_within: "within R (serve_ws (svc_Auth svc) (svc_User svc) (svc_Room svc) r)"
  by (rule withinI)
    (auto simp: serve_ws_def Let_def R_refl split: if_splits prod.splits sum.splits
      dest!: withinD[OF uc_Validate] withinD[OF uc_GetProfile] withinD[OF FilterAuthorizedRooms_within]
      intro: R_trans)

lemma read_frame_within: "within R (read_frame (Some (MessageUseCase_Send (svc_Message svc))) fmt self c frame)"
  by (rule withinI)
    (auto simp: read_frame_def handleSendMessage_def Let_def R_refl
      split: bool.splits if_splits prod.splits sum.splits option.splits dest!: withinD[OF uc_Send])

end

section \<open>The server\<close>

text \<open>
  \<open>nd_admitted\<close>: clients that were connected and not yet registered with the hub; \<open>nd_pending\<close>: broadcasts
  handed to the hub that it has not taken; \<open>nd_relayed\<close>: how many announcements the relay has taken;
  \<open>nd_place\<close> and \<open>nd_conn\<close>: where the writer of a client is, and its connection.
\<close>

record 'c node =
  nd_world :: world
  nd_sys :: sys
  nd_admitted :: "cid set"
  nd_pending :: "broadcast multiset"
  nd_relayed :: nat
  nd_place :: "cid \<Rightarrow> place"
  nd_conn :: "cid \<Rightarrow> 'c"

definition put_sys_hub :: "hub \<Rightarrow> 'c node \<Rightarrow> 'c node" where
  "put_sys_hub h n = n\<lparr>nd_sys := (nd_sys n)\<lparr>sys_hub := h\<rparr>\<rparr>"

definition start_node :: "world \<Rightarrow> (cid \<Rightarrow> 'c) \<Rightarrow> 'c node" where
  "start_node w conn =
     \<lparr>nd_world = w, nd_sys = init_sys, nd_admitted = {}, nd_pending = {#}, nd_relayed = length (w_log w),
      nd_place = (\<lambda>_. Selecting), nd_conn = conn\<rparr>"

abbreviation node_hub :: "'c node \<Rightarrow> hub" where "node_hub n \<equiv> sys_hub (nd_sys n)"

text \<open>The writer of a client works on the channel that the hub holds.\<close>

definition writer_of :: "'c node \<Rightarrow> cid \<Rightarrow> 'c writer" where
  "writer_of n c = \<lparr>wr_at = nd_place n c, wr_chan = hub_chans (node_hub n) c, wr_conn = nd_conn n c\<rparr>"

definition put_writer :: "cid \<Rightarrow> 'c writer \<Rightarrow> 'c node \<Rightarrow> 'c node" where
  "put_writer c s n =
     (put_sys_hub (set_chan c (wr_chan s) (node_hub n)) n)
       \<lparr>nd_place := (nd_place n)(c := wr_at s), nd_conn := (nd_conn n)(c := wr_conn s)\<rparr>"

lemma writer_of_put [simp]: "writer_of (put_writer c s n) x = (if x = c then s else writer_of n x)"
  by (simp add: put_writer_def put_sys_hub_def writer_of_def)

lemma put_writer_simps [simp]:
  "sys_reader (nd_sys (put_writer c s n)) = sys_reader (nd_sys n)" "nd_world (put_writer c s n) = nd_world n"
  "nd_relayed (put_writer c s n) = nd_relayed n" "nd_pending (put_writer c s n) = nd_pending n"
  "nd_admitted (put_writer c s n) = nd_admitted n"
  by (simp_all add: put_writer_def put_sys_hub_def)

inductive node_step ::
  "'c ws_conn \<Rightarrow> env \<Rightarrow> int \<Rightarrow> int \<Rightarrow> (cid \<Rightarrow> client) \<Rightarrow> 'c node \<Rightarrow> 'c node \<Rightarrow> bool" for C E A R G where
  connect: "serve_ws (svc_Auth (api_services E A R)) (svc_User (api_services E A R)) (svc_Room (api_services E A R))
      req (nd_world n) = (Connected (G c), w) \<Longrightarrow> sys_reader (nd_sys n) c = Unborn \<Longrightarrow>
    node_step C E A R G n (n\<lparr>nd_world := w, nd_admitted := insert c (nd_admitted n)\<rparr>)"
| ws_request: "serve_ws (svc_Auth (api_services E A R)) (svc_User (api_services E A R)) (svc_Room (api_services E A R))
      req (nd_world n) = (outcome, w) \<Longrightarrow> node_step C E A R G n (n\<lparr>nd_world := w\<rparr>)"
| api_request: "serve_api (startAPIServer E A R origins (lib :: int rate_lib)) r rl (nd_world n) = (rsp, rl', w) \<Longrightarrow>
    node_step C E A R G n (n\<lparr>nd_world := w\<rparr>)"
| frame_elsewhere: "read_frame (Some (MessageUseCase_Send (svc_Message (api_services E A R)))) (fmt_time E) self g frame
      (nd_world n) = (b, w) \<Longrightarrow> node_step C E A R G n (n\<lparr>nd_world := w\<rparr>)"
| registered: "c \<in> nd_admitted n \<Longrightarrow> sys_running (nd_sys n) \<Longrightarrow> sys_reader (nd_sys n) c = Unborn \<Longrightarrow>
    node_step C E A R G n (n\<lparr>nd_admitted := nd_admitted n - {c},
      nd_sys := (nd_sys n)\<lparr>sys_hub := addClient G c (node_hub n), sys_reader := (sys_reader (nd_sys n))(c := Reading)\<rparr>\<rparr>)"
| frame: "sys_reader (nd_sys n) c = Reading \<Longrightarrow>
    read_frame (Some (MessageUseCase_Send (svc_Message (api_services E A R)))) (fmt_time E) c (G c) frame
      (nd_world n) = (b, w) \<Longrightarrow>
    node_step C E A R G n (n\<lparr>nd_world := w,
      nd_pending := nd_pending n + (case b of None \<Rightarrow> {#} | Some x \<Rightarrow> {#x#})\<rparr>)"
| announcement: "nd_relayed n < length (w_log (nd_world n)) \<Longrightarrow> w_log (nd_world n) ! nd_relayed n = (ch, j) \<Longrightarrow>
    relay (parse_time E) (fmt_time E) ch j = ToRoom r d \<Longrightarrow>
    node_step C E A R G n (n\<lparr>nd_relayed := Suc (nd_relayed n),
      nd_pending := add_mset \<lparr>bc_RoomID = r, bc_Data = d, bc_Exclude = None\<rparr> (nd_pending n)\<rparr>)"
| user_notice: "nd_relayed n < length (w_log (nd_world n)) \<Longrightarrow> w_log (nd_world n) ! nd_relayed n = (ch, j) \<Longrightarrow>
    relay (parse_time E) (fmt_time E) ch j = ToUser u d \<Longrightarrow>
    iterates order (members (hub_users (node_hub n)) u) \<Longrightarrow> SendToUser u d order (node_hub n) = Inr h \<Longrightarrow>
    node_step C E A R G n ((put_sys_hub h n)\<lparr>nd_relayed := Suc (nd_relayed n)\<rparr>)"
| skipped: "nd_relayed n < length (w_log (nd_world n)) \<Longrightarrow> w_log (nd_world n) ! nd_relayed n = (ch, j) \<Longrightarrow>
    relay (parse_time E) (fmt_time E) ch j = Skip \<Longrightarrow> node_step C E A R G n (n\<lparr>nd_relayed := Suc (nd_relayed n)\<rparr>)"
| broadcast_taken: "b \<in># nd_pending n \<Longrightarrow> sys_running (nd_sys n) \<Longrightarrow>
    iterates order (members (hub_rooms (node_hub n)) (bc_RoomID b)) \<Longrightarrow>
    sendToRoom b order (node_hub n) = Inr (h, slow) \<Longrightarrow>
    node_step C E A R G n (n\<lparr>nd_pending := nd_pending n - {#b#},
      nd_sys := (nd_sys n)\<lparr>sys_hub := h, sys_evictions := sys_evictions (nd_sys n) + mset slow\<rparr>\<rparr>)"
| read_failed: "sys_reader (nd_sys n) c = Reading \<Longrightarrow>
    node_step C E A R G n (n\<lparr>nd_sys := (nd_sys n)\<lparr>sys_reader := (sys_reader (nd_sys n))(c := Leaving)\<rparr>\<rparr>)"
| unregistered: "sys_running (nd_sys n) \<Longrightarrow> sys_reader (nd_sys n) c = Leaving \<Longrightarrow>
    removeClient G c (node_hub n) = Inr h \<Longrightarrow>
    node_step C E A R G n (n\<lparr>nd_sys := (nd_sys n)\<lparr>sys_reader := (sys_reader (nd_sys n))(c := Gone), sys_hub := h\<rparr>,
      nd_conn := (nd_conn n)(c := wc_Close C (nd_conn n c))\<rparr>)"
| evicted: "sys_running (nd_sys n) \<Longrightarrow> c \<in># sys_evictions (nd_sys n) \<Longrightarrow>
    removeClient G c (node_hub n) = Inr h \<Longrightarrow>
    node_step C E A R G n (n\<lparr>nd_sys := (nd_sys n)\<lparr>sys_evictions := sys_evictions (nd_sys n) - {#c#}, sys_hub := h\<rparr>\<rparr>)"
| writes: "sys_reader (nd_sys n) c \<noteq> Unborn \<Longrightarrow> writer_acts e \<Longrightarrow>
    WritePump_step C e (writer_of n c) = Some s \<Longrightarrow> node_step C E A R G n (put_writer c s n)"
| stopped: "sys_running (nd_sys n) \<Longrightarrow> iterates order (hub_clients (node_hub n)) \<Longrightarrow>
    shutdown order (node_hub n) = Inr h \<Longrightarrow>
    node_step C E A R G n (n\<lparr>nd_sys := (nd_sys n)\<lparr>sys_running := False, sys_hub := h\<rparr>\<rparr>)"

text \<open>A run, latest state first.\<close>

inductive node_run ::
  "'c ws_conn \<Rightarrow> env \<Rightarrow> int \<Rightarrow> int \<Rightarrow> (cid \<Rightarrow> client) \<Rightarrow> (cid \<Rightarrow> 'c) \<Rightarrow> 'c node list \<Rightarrow> bool"
  for C E A R G conn where
  start: "node_run C E A R G conn [start_node w conn]"
| step: "node_run C E A R G conn (n # ns) \<Longrightarrow> node_step C E A R G n n' \<Longrightarrow> node_run C E A R G conn (n' # n # ns)"

inductive_cases node_runE: "node_run C E A R G conn (n # ns)"

lemma node_step_hub: "node_step C E A R G n n' \<Longrightarrow> nd_sys n' = nd_sys n \<or> hub_step G (nd_sys n) (Inr (nd_sys n'))"
proof (induction rule: node_step.induct)
  case (unregistered n c h)
  then show ?case using hub_step.unregister[of "nd_sys n" c G] by (simp add: put_hub_def)
next
  case (evicted n c h)
  then show ?case using hub_step.evict[of "nd_sys n" c G] by (simp add: put_hub_def)
next
  case (user_notice n ch j u d order h)
  then show ?case using hub_step.user_event[of order "nd_sys n" u G d] by (simp add: put_hub_def put_sys_hub_def)
next
  case (stopped n order h)
  then show ?case using hub_step.stop[of "nd_sys n" order G] by (simp add: put_hub_def)
next
  case (writes n c e s)
  from writer_takes[OF writes.hyps(3,2)] show ?case
    using hub_step.written[of "nd_sys n" c _ _ G] by (auto simp: put_writer_def put_sys_hub_def writer_of_def set_chan_def)
qed (auto simp: put_sys_hub_def intro: hub_step.intros)

lemma node_hub_reach: "node_run C E A R G conn (n # ns) \<Longrightarrow> hub_reach G (nd_sys n)"
proof (induction "n # ns" arbitrary: n ns rule: node_run.induct)
  case (start w)
  then show ?case by (simp add: start_node_def hub_reach.start)
next
  case (step n ns n')
  then show ?case using node_step_hub hub_reach.step by metis
qed

section \<open>Where payloads come from\<close>

text \<open>An event of a room: it names the room in its data.\<close>

definition room_event :: "(time \<Rightarrow> string) \<Rightarrow> string \<Rightarrow> json \<Rightarrow> bool" where
  "room_event fmt r d \<longleftrightarrow>
     (\<exists>m. msg_RoomID m = r \<and> d = receive_event fmt m) \<or>
     (\<exists>i. d = Event_Encode EventMessageDeleted (JObj [(''id'', JStr i), (''room_id'', JStr r)])) \<or>
     (\<exists>ty name. d = Event_Encode ty (typing_broadcast_json name r))"

lemma room_events [simp]:
  "room_event fmt (msg_RoomID m) (receive_event fmt m)"
  "room_event fmt r (Event_Encode EventMessageDeleted (JObj [(''id'', JStr i), (''room_id'', JStr r)]))"
  "room_event fmt r (Event_Encode ty (typing_broadcast_json name r))"
  by (auto simp: room_event_def)

lemma relay_room_event: "relay parse fmt ch j = ToRoom r d \<Longrightarrow> room_event fmt r d"
  by (auto simp: relay_def relay_deleted_def relay_message_def Let_def split: if_splits option.splits)

lemma typing_room_event: "handleTypingEvent self c ty p = Some b \<Longrightarrow> room_event fmt (bc_RoomID b) (bc_Data b)"
  by (auto simp: handleTypingEvent_def Let_def split: if_splits)

lemma send_room_event:
  "handleSendMessage sender fmt c p w = (Some b, w') \<Longrightarrow> room_event fmt (bc_RoomID b) (bc_Data b)"
  by (auto simp: handleSendMessage_def Let_def split: if_splits option.splits prod.splits sum.splits)

lemma frame_room_event:
  "read_frame sender fmt self c frame w = (Some b, w') \<Longrightarrow> room_event fmt (bc_RoomID b) (bc_Data b)"
  by (auto simp: read_frame_def split: prod.splits bool.splits option.splits if_splits
      dest: typing_room_event[where fmt = fmt] send_room_event)

section \<open>The invariant\<close>

text \<open>What may be queued for a client: events of its rooms, and notices for its user the relay has taken.\<close>

definition due :: "env \<Rightarrow> client \<Rightarrow> (string \<times> json) list \<Rightarrow> json \<Rightarrow> bool" where
  "due E c heard_log d \<longleftrightarrow>
     (\<exists>r \<in> set (cl_Rooms c). room_event (fmt_time E) r d) \<or>
     (\<exists>a \<in> set heard_log. relay (parse_time E) (fmt_time E) (fst a) (snd a) = ToUser (cl_UserID c) d)"

lemma due_more: "due E c (take k l) d \<Longrightarrow> due E c (take (Suc k) l) d"
  unfolding due_def using set_take_subset_set_take[of k "Suc k" l] by auto

lemma api_step_announces:
  "serve_api (startAPIServer E A R os lib) r rl w = (rsp, rl', w') \<Longrightarrow> announces w w'"
  by (rule talk.serve_api_step[where E = E and A = A and R = R]) (simp add: startAPIServer_def)

lemma hub_rooms_members:
  "hub_reach G s \<Longrightarrow> c \<in> members (hub_rooms (sys_hub s)) r \<Longrightarrow> r \<in> set (cl_Rooms (G c))"
  using hub_reach_inv[of G s] by (simp add: hub_inv_def Let_def)

lemma hub_users_members:
  assumes "hub_reach G s" and "c \<in> members (hub_users (sys_hub s)) u" and "\<not> closed (sys_hub s) c"
  shows "cl_UserID (G c) = u"
  using assms hub_reach_inv[OF assms(1)] hub_reach_quiet[OF assms(1)]
  by (auto simp: hub_inv_def Let_def quiet_end_def)

lemma send_fresh:
  assumes "delivered b S h h'" and "d \<in> set (buf h' c)" and "d \<notin> set (buf h c)"
  shows "c \<in> S \<and> d = bc_Data b"
  using assms by (auto simp: delivered_def split: if_splits)

lemma notice_fresh:
  assumes "user_delivered u x S h h'" and "d \<in> set (buf h' c)" and "d \<notin> set (buf h c)"
  shows "c \<in> S \<and> \<not> closed h c \<and> d = x"
proof -
  have "hub_chans h' c = (if c \<notin> S then hub_chans h c
         else if full h c then (hub_chans h c)\<lparr>ch_closed := True\<rparr>
         else (hub_chans h c)\<lparr>ch_buf := buf h c @ [x]\<rparr>)" "c \<in> S \<longrightarrow> \<not> closed h c"
    using assms(1) by (auto simp: user_delivered_def)
  with assms(2,3) show ?thesis by (auto split: if_splits)
qed

context ws_connection
begin

definition node_inv :: "env \<Rightarrow> (cid \<Rightarrow> client) \<Rightarrow> 'c node \<Rightarrow> bool" where
  "node_inv E G n \<longleftrightarrow>
     nd_relayed n \<le> length (w_log (nd_world n)) \<and>
     (\<forall>b. b \<in># nd_pending n \<longrightarrow> room_event (fmt_time E) (bc_RoomID b) (bc_Data b)) \<and>
     (\<forall>c. \<forall>d \<in> handled (writer_of n c). due E (G c) (take (nd_relayed n) (w_log (nd_world n))) d)"

lemma handled_same:
  "node_hub n' = node_hub n \<Longrightarrow> nd_place n' = nd_place n \<Longrightarrow> nd_conn n' = nd_conn n \<Longrightarrow>
   writer_of n' c = writer_of n c"
  by (simp add: writer_of_def)

lemma node_inv_world:
  assumes "node_inv E G n" and "announces (nd_world n) w"
  shows "node_inv E G (n\<lparr>nd_world := w\<rparr>)"
proof -
  from assms(2) obtain l where "w_log w = w_log (nd_world n) @ l" by (auto simp: announces_def)
  with assms(1) show ?thesis by (auto simp: node_inv_def writer_of_def)
qed

text \<open>A step that puts only payloads that are due into the hands of a writer.\<close>

lemma node_inv_hands:
  assumes "node_inv E G n"
    and "\<And>c d. d \<in> handled (writer_of n' c) \<Longrightarrow> d \<notin> handled (writer_of n c) \<Longrightarrow>
      due E (G c) (take (nd_relayed n) (w_log (nd_world n))) d"
    and "nd_world n' = nd_world n" "nd_relayed n' = nd_relayed n" "nd_pending n' \<subseteq># nd_pending n"
  shows "node_inv E G n'"
  using assms unfolding node_inv_def by (metis mset_subset_eqD)

lemma handled_hub:
  "d \<in> handled (writer_of (put_sys_hub h n) c) \<Longrightarrow> d \<notin> handled (writer_of n c) \<Longrightarrow>
   d \<in> set (buf h c) \<and> d \<notin> set (buf (node_hub n) c)"
  by (auto simp: handled_def writer_of_def wire_def put_sys_hub_def split: if_splits)

lemma handled_put_hub:
  "node_hub n' = h \<Longrightarrow> nd_place n' = nd_place n \<Longrightarrow> nd_conn n' = nd_conn n \<Longrightarrow>
   writer_of n' c = writer_of (put_sys_hub h n) c"
  by (simp add: writer_of_def put_sys_hub_def)

lemma node_inv_bufs:
  assumes "node_inv E G n"
    and "\<And>c d. d \<in> set (buf h c) \<Longrightarrow> d \<notin> set (buf (node_hub n) c) \<Longrightarrow>
      due E (G c) (take (nd_relayed n) (w_log (nd_world n))) d"
    and "nd_world n' = nd_world n" "nd_relayed n' = nd_relayed n" "node_hub n' = h" "nd_pending n' \<subseteq># nd_pending n"
    and "nd_place n' = nd_place n" "nd_conn n' = nd_conn n"
  shows "node_inv E G n'"
  by (rule node_inv_hands[OF assms(1)])
    (use assms handled_put_hub[of n' h n] handled_hub[of _ h n] in auto)

lemma node_inv_step:
  assumes "node_step C E A R G n n'" and "node_inv E G n" and "hub_reach G (nd_sys n)"
  shows "node_inv E G n'"
  using assms
proof (induction rule: node_step.induct)
  case (connect req n c w)
  from node_inv_world[OF connect.prems(1) withinD[OF talk.serve_ws_within connect.hyps(1)]] show ?case
    by (simp add: node_inv_def writer_of_def)
next
  case (ws_request req n outcome w)
  show ?case by (rule node_inv_world[OF ws_request.prems(1) withinD[OF talk.serve_ws_within ws_request.hyps]])
next
  case (api_request origins lib r rl n rsp rl' w)
  show ?case by (rule node_inv_world[OF api_request.prems(1) api_step_announces[OF api_request.hyps]])
next
  case (frame_elsewhere self g frame n b w)
  show ?case by (rule node_inv_world[OF frame_elsewhere.prems(1) withinD[OF talk.read_frame_within frame_elsewhere.hyps]])
next
  case (frame n c frame b w)
  have "room_event (fmt_time E) (bc_RoomID x) (bc_Data x)" if "b = Some x" for x
    using frame_room_event[OF frame.hyps(2)[unfolded that]] .
  with node_inv_world[OF frame.prems(1) withinD[OF talk.read_frame_within frame.hyps(2)]] show ?case
    by (auto simp: node_inv_def writer_of_def split: option.splits)
next
  case (announcement n ch j r d)
  with relay_room_event[OF announcement.hyps(3)] show ?case
    by (auto simp: node_inv_def writer_of_def intro: due_more)
next
  case (skipped n ch j)
  then show ?case by (auto simp: node_inv_def writer_of_def intro: due_more)
next
  case (user_notice n ch j u d order h)
  let ?l = "take (Suc (nd_relayed n)) (w_log (nd_world n))"
  have "?l ! nd_relayed n = (ch, j)" "nd_relayed n < length ?l" using user_notice.hyps(1,2) by simp_all
  then have heard: "(ch, j) \<in> set ?l" by (metis nth_mem)
  have "due E (G c) ?l x" if x: "x \<in> handled (writer_of (put_sys_hub h n) c)" for c x
  proof (cases "x \<in> handled (writer_of n c)")
    case True
    with user_notice.prems(1) show ?thesis by (auto simp: node_inv_def intro: due_more)
  next
    case False
    from handled_hub[OF x this] have "x \<in> set (buf h c)" "x \<notin> set (buf (node_hub n) c)" by blast+
    from notice_fresh[OF SendToUser_ok[OF user_notice.hyps(5,4)] this]
    have "cl_UserID (G c) = u" "x = d" using hub_users_members[OF user_notice.prems(2)] by blast+
    with heard user_notice.hyps(3) show ?thesis unfolding due_def by force
  qed
  with user_notice.prems(1) user_notice.hyps(1) show ?case
    by (simp add: node_inv_def put_sys_hub_def writer_of_def)
next
  case (broadcast_taken b n order h slow)
  note ord = broadcast_taken.hyps(3)[unfolded iterates_def]
  note sent = send_loop_ok[OF broadcast_taken.hyps(4)[unfolded sendToRoom_def]]
  show ?case
  proof (rule node_inv_bufs[OF broadcast_taken.prems(1)])
    fix c d assume new: "d \<in> set (buf h c)" "d \<notin> set (buf (node_hub n) c)"
    with send_fresh[of b "set order" "node_hub n" h d c] sent ord
    have "c \<in> members (hub_rooms (node_hub n)) (bc_RoomID b)" "d = bc_Data b" by auto
    moreover have "room_event (fmt_time E) (bc_RoomID b) (bc_Data b)"
      using broadcast_taken.prems(1) broadcast_taken.hyps(1) by (simp add: node_inv_def)
    ultimately show "due E (G c) (take (nd_relayed n) (w_log (nd_world n))) d"
      using hub_rooms_members[OF broadcast_taken.prems(2)] by (auto simp: due_def)
  qed simp_all
next
  case (unregistered n c h)
  have "buf h x = buf (node_hub n) x" for x using removeClient_ok[OF unregistered.hyps(3)] by simp
  then show ?case
    by (intro node_inv_hands[OF unregistered.prems(1)])
      (auto simp: handled_def writer_of_def wire_def split: if_splits)
next
  case (evicted n c h)
  have "buf h x = buf (node_hub n) x" for x using removeClient_ok[OF evicted.hyps(3)] by simp
  then show ?case by (intro node_inv_bufs[OF evicted.prems(1), of h]) simp_all
next
  case (stopped n order h)
  from stopped.hyps(3) obtain h1 where c: "close_loop order (node_hub n) = Inr h1"
    and h: "h = h1\<lparr>hub_clients := {}, hub_rooms := (\<lambda>_. None)\<rparr>"
    by (auto simp: shutdown_def split: sum.splits)
  have "buf h c = buf (node_hub n) c" for c using close_loop_ok[OF c] by (simp add: h)
  then show ?case by (intro node_inv_bufs[OF stopped.prems(1), of h]) simp_all
next
  case (writes n c e s)
  from writer_adds_nothing[OF writes.hyps(3,2)] show ?case
    by (intro node_inv_hands[OF writes.prems(1)]) (auto split: if_splits)
qed (auto simp: node_inv_def put_sys_hub_def addClient_def writer_of_def)

lemma node_run_inv:
  "node_run C E A R G conn (n # ns) \<Longrightarrow> \<forall>c. sent (conn c) = [] \<Longrightarrow> node_inv E G n"
proof (induction "n # ns" arbitrary: n ns rule: node_run.induct)
  case (start w)
  then show ?case
    by (simp add: node_inv_def start_node_def init_sys_def NewHub_def new_chan_def handled_def writer_of_def wire_def)
next
  case (step n ns n')
  then show ?case using node_inv_step node_hub_reach by blast
qed

end

section \<open>Who was let in\<close>

text \<open>The rooms of a client were granted in a state of the world: its user was a member of each.\<close>

definition granted :: "env \<Rightarrow> client \<Rightarrow> world \<Rightarrow> bool" where
  "granted E c w \<longleftrightarrow>
     (\<forall>r \<in> set (cl_Rooms c). \<exists>m \<in> set (db_members (w_db w)).
        canon_uuid E r = Some (mem_RoomID m) \<and> mem_UserID m = cl_UserID c)"

definition let_in :: "'c node \<Rightarrow> cid \<Rightarrow> bool" where
  "let_in n c \<longleftrightarrow> c \<in> nd_admitted n \<or> sys_reader (nd_sys n) c \<noteq> Unborn"

lemma node_step_lets_in:
  "node_step C E A R G n n' \<Longrightarrow> let_in n' c \<Longrightarrow> let_in n c \<or> granted E (G c) (nd_world n)"
proof (induction rule: node_step.induct)
  case (connect req n c' w)
  from connect.hyps(1) have "serve_ws (NewAuthUseCase (api_auth E A R)) (NewUserUseCase (api_users E))
      (NewRoomUseCase (api_rooms E)) req (nd_world n) = (Connected (G c'), w)" by simp
  from serve_ws_connected[OF this] have "granted E (G c') (nd_world n)" by (auto simp: granted_def)
  with connect.prems show ?case by (auto simp: let_in_def)
qed (auto simp: let_in_def put_sys_hub_def put_writer_def split: if_splits)

lemma node_run_granted:
  "node_run C E A R G conn ns \<Longrightarrow> let_in (hd ns) c \<Longrightarrow> \<exists>m \<in> set ns. granted E (G c) (nd_world m)"
proof (induction rule: node_run.induct)
  case (start w)
  then show ?case by (simp add: let_in_def start_node_def init_sys_def)
next
  case (step n ns n')
  from node_step_lets_in[OF step.hyps(2)] step show ?case by auto
qed

text \<open>Before a client is registered, its writer has not been started and nothing is queued for it.\<close>

lemma unborn_idle:
  "node_run C E A R G conn (n # ns) \<Longrightarrow> sys_reader (nd_sys n) c = Unborn \<Longrightarrow>
   writer_of n c = \<lparr>wr_at = Selecting, wr_chan = new_chan, wr_conn = conn c\<rparr>"
proof (induction "n # ns" arbitrary: n ns rule: node_run.induct)
  case (start w)
  then show ?case by (simp add: writer_of_def start_node_def init_sys_def NewHub_def)
next
  case (step n ns n')
  have reach: "hub_reach G (nd_sys n')" using node_hub_reach node_run.step[OF step.hyps(1,3)] by blast
  then have "hub_chans (node_hub n') c = new_chan"
    using hub_reach_inv[OF reach] step.prems by (simp add: hub_inv_def Let_def)
  moreover have "sys_reader (nd_sys n) c = Unborn \<and> nd_place n' c = nd_place n c \<and> nd_conn n' c = nd_conn n c"
    using step.hyps(3) step.prems by cases (auto simp: put_sys_hub_def put_writer_def split: if_splits)
  ultimately show ?case using step.hyps(2) by (simp add: writer_of_def)
qed

text \<open>
  C7: Nobody is sent what is not meant for them: in every state a websocket server can reach, under any
  interleaving of requests to it and to the API, of frames of clients here and elsewhere, of
  announcements, slow consumers, writers and failures, each payload that is on the wire to a client or
  queued for it is an event that names a room the client came with, and of that room its user was a
  member, in a state of the tables during the run; or it is what the relay makes of an announcement for
  the client's own user.
\<close>

theorem clients_see_their_rooms:
  assumes "ws_connection C sent part broken" and "\<forall>c. sent (conn c) = []"
    and "node_run C E A R G conn (n # ns)"
    and "d \<in> set (payloads (sent (nd_conn n c))) \<union> set (buf (node_hub n) c)"
  shows "(\<exists>r \<in> set (cl_Rooms (G c)). room_event (fmt_time E) r d \<and>
      (\<exists>past \<in> set (n # ns). \<exists>m \<in> set (db_members (w_db (nd_world past))).
         canon_uuid E r = Some (mem_RoomID m) \<and> mem_UserID m = cl_UserID (G c))) \<or>
    (\<exists>a \<in> set (w_log (nd_world n)).
       relay (parse_time E) (fmt_time E) (fst a) (snd a) = ToUser (cl_UserID (G c)) d)"
proof -
  from assms(4) have "d \<in> ws_connection.handled sent part broken (writer_of n c)"
    by (auto simp: ws_connection.handled_def[OF assms(1)] ws_connection.wire_def[OF assms(1)] writer_of_def)
  then have "due E (G c) (take (nd_relayed n) (w_log (nd_world n))) d"
    using ws_connection.node_run_inv[OF assms(1,3,2)] by (simp add: ws_connection.node_inv_def[OF assms(1)])
  moreover have "let_in n c"
    using unborn_idle[OF assms(3), of c] assms(2,4) by (auto simp: let_in_def writer_of_def new_chan_def)
  with node_run_granted[OF assms(3)] obtain past where
    "past \<in> set (n # ns)" "granted E (G c) (nd_world past)" by auto
  ultimately show ?thesis unfolding due_def granted_def by (meson in_set_takeD)
qed

section \<open>A sample run\<close>

text \<open>Two clients of one user connect, and one of them types in a room.\<close>

definition ann_twice :: "cid \<Rightarrow> client" where
  "ann_twice c = NewClient ''u-ann'' [''r1'', ''r2''] ''ann''"

definition typing_frame :: "bool \<times> json option" where
  "typing_frame = (True, Some (JObj [(''event'', JStr ''typing_start''), (''data'', JObj [(''room_id'', JStr ''r1'')])]))"

definition typing_event :: json where
  "typing_event = Event_Encode ''typing_start'' (typing_broadcast_json ''ann'' ''r1'')"

lemma two_admissions:
  "\<exists>w1 w2. serve_ws (NewAuthUseCase (api_auth sample_env 1000 100000)) (NewUserUseCase (api_users sample_env))
     (NewRoomUseCase (api_rooms sample_env)) ann_request token_world = (Connected (ann_twice 0), w1) \<and>
   serve_ws (NewAuthUseCase (api_auth sample_env 1000 100000)) (NewUserUseCase (api_users sample_env))
     (NewRoomUseCase (api_rooms sample_env)) ann_request w1 = (Connected (ann_twice 1), w2) \<and> w_log w2 = []"
  by (simp add: serve_ws_def ann_request_def token_world_def use_case_defs Let_def ExtractBearerToken_def
      splitn2_def TrimSpace_graphic graphic_def auth_ValidateAccessToken_def extendAccess_def
      room_ListMembers_def RoomRepository_ListMembers_def sql_members_of_def arrange_def ann_twice_def
      user_GetByID_def not_found_for_NoRows_def user_repo_eval world_eval chat_eval)

lemma typing_read:
  "read_frame sender fmt c (ann_twice c) typing_frame w
     = (Some \<lparr>bc_RoomID = ''r1'', bc_Data = typing_event, bc_Exclude = Some c\<rparr>, w)"
  by (simp add: read_frame_def typing_frame_def typing_event_def unmarshal_def decode_struct_def envelope_fields_def
      find_field_def ascii_lower_def set_str_def set_raw_def typing_fields_def handleTypingEvent_def
      EventSendMessage_def EventTypingStart_def EventTypingStop_def TrimSpace_graphic graphic_def isMember_def
      ann_twice_def NewClient_def Let_def)

abbreviation sample_step :: "peer node \<Rightarrow> peer node \<Rightarrow> bool" where
  "sample_step \<equiv> node_step (peer_conn (\<lambda>_. False)) sample_env 1000 100000 ann_twice"

theorem clients_see_their_rooms_witness:
  "\<exists>n ns. node_run (peer_conn (\<lambda>_. False)) sample_env 1000 100000 ann_twice (\<lambda>_. new_peer) (n # ns) \<and>
     payloads (pr_sent (nd_conn n 1)) = [typing_event] \<and>
     (\<exists>r \<in> {''r1'', ''r2''}. room_event (fmt_time sample_env) r typing_event)"
proof -
  from two_admissions obtain w1 w2 where
    a: "serve_ws (NewAuthUseCase (api_auth sample_env 1000 100000)) (NewUserUseCase (api_users sample_env))
     (NewRoomUseCase (api_rooms sample_env)) ann_request token_world = (Connected (ann_twice 0), w1)"
    "serve_ws (NewAuthUseCase (api_auth sample_env 1000 100000)) (NewUserUseCase (api_users sample_env))
     (NewRoomUseCase (api_rooms sample_env)) ann_request w1 = (Connected (ann_twice 1), w2)" "w_log w2 = []" by blast
  define b :: broadcast where "b = \<lparr>bc_RoomID = ''r1'', bc_Data = typing_event, bc_Exclude = Some 0\<rparr>"
  define n0 :: "peer node" where "n0 = start_node token_world (\<lambda>_. new_peer)"
  define n1 where "n1 = n0\<lparr>nd_world := w1, nd_admitted := insert 0 (nd_admitted n0)\<rparr>"
  define n2 where "n2 = n1\<lparr>nd_world := w2, nd_admitted := insert 1 (nd_admitted n1)\<rparr>"
  define n3 where "n3 = n2\<lparr>nd_admitted := nd_admitted n2 - {0}, nd_sys := (nd_sys n2)
    \<lparr>sys_hub := addClient ann_twice 0 (node_hub n2), sys_reader := (sys_reader (nd_sys n2))(0 := Reading)\<rparr>\<rparr>"
  define n4 where "n4 = n3\<lparr>nd_admitted := nd_admitted n3 - {1}, nd_sys := (nd_sys n3)
    \<lparr>sys_hub := addClient ann_twice 1 (node_hub n3), sys_reader := (sys_reader (nd_sys n3))(1 := Reading)\<rparr>\<rparr>"
  define n5 where "n5 = n4\<lparr>nd_world := w2, nd_pending := nd_pending n4 + {#b#}\<rparr>"
  note defs = n5_def n4_def n3_def n2_def n1_def n0_def start_node_def init_sys_def NewHub_def
  have 1: "sample_step n0 n1"
    unfolding n1_def by (rule node_step.connect[where req = ann_request])
      (simp_all add: a(1) n0_def start_node_def init_sys_def)
  have 2: "sample_step n1 n2"
    unfolding n2_def by (rule node_step.connect[where req = ann_request])
      (simp_all add: a(2) n1_def n0_def start_node_def init_sys_def)
  have 3: "sample_step n2 n3"
    unfolding n3_def by (rule node_step.registered) (simp_all add: defs)
  have 4: "sample_step n3 n4"
    unfolding n4_def by (rule node_step.registered) (simp_all add: defs)
  have 5: "sample_step n4 n5"
    using node_step.frame[of n4 0 sample_env 1000 100000 ann_twice typing_frame "Some b" w2 "peer_conn (\<lambda>_. False)"]
    by (simp add: typing_read b_def defs)
  have rooms: "cl_Rooms (ann_twice c) = [''r1'', ''r2'']" "cl_UserID (ann_twice c) = ''u-ann''" for c
    by (simp_all add: ann_twice_def NewClient_def)
  have m: "members (hub_rooms (node_hub n5)) ''r1'' = {0, 1}"
    by (auto simp: defs addClient_def rooms add_to_def members_def)
  obtain h where h: "sendToRoom b [0, 1] (node_hub n5) = Inr (h, [])"
    "hub_chans h 1 = \<lparr>ch_buf = [typing_event], ch_closed = False\<rparr>"
    by (simp add: sendToRoom_def b_def defs addClient_def offer_chan_def new_chan_def send_cap_def)
  define n6 where "n6 = n5\<lparr>nd_pending := nd_pending n5 - {#b#}, nd_sys := (nd_sys n5)
    \<lparr>sys_hub := h, sys_evictions := sys_evictions (nd_sys n5) + mset []\<rparr>\<rparr>"
  have 6: "sample_step n5 n6"
    unfolding n6_def by (rule node_step.broadcast_taken[OF _ _ _ h(1)])
      (use m in \<open>simp_all add: n5_def iterates_def b_def\<close>, simp_all add: defs)
  have born: "sys_reader (nd_sys n6) 1 \<noteq> Unborn" by (simp add: n6_def defs)
  have w6: "writer_of n6 1 = \<lparr>wr_at = Selecting, wr_chan = \<lparr>ch_buf = [typing_event], ch_closed = False\<rparr>, wr_conn = new_peer\<rparr>"
    using h(2) by (simp add: writer_of_def n6_def) (simp add: defs)
  obtain s7 where s7: "WritePump_step (peer_conn (\<lambda>_. False)) (Received 7) (writer_of n6 1) = Some s7"
    unfolding w6 by (simp add: writer_eval Let_def)
  obtain s8 where s8: "WritePump_step (peer_conn (\<lambda>_. False)) Proceeds s7 = Some s8"
    using s7 unfolding w6 by (auto simp: writer_eval Let_def)
  obtain s9 where s9: "WritePump_step (peer_conn (\<lambda>_. False)) Proceeds s8 = Some s9"
    and wire: "pr_sent (wr_conn s9) = [TextMessage [Payload typing_event]]"
    using s7 s8 unfolding w6 by (auto simp: writer_eval Let_def)
  define n7 where "n7 = put_writer 1 s7 n6"
  define n8 where "n8 = put_writer 1 s8 n7"
  define n9 where "n9 = put_writer 1 s9 n8"
  note puts = n9_def n8_def n7_def put_writer_def put_sys_hub_def
  have 7: "sample_step n6 n7"
    unfolding n7_def by (rule node_step.writes[OF born _ s7]) (simp add: writer_acts_def)
  have 8: "sample_step n7 n8"
    unfolding n8_def by (rule node_step.writes[of n7 1 Proceeds])
      (use born s8 in \<open>simp_all add: n7_def writer_acts_def\<close>)
  have 9: "sample_step n8 n9"
    unfolding n9_def by (rule node_step.writes[of n8 1 Proceeds])
      (use born s9 in \<open>simp_all add: n8_def n7_def writer_acts_def\<close>)
  have start: "node_run (peer_conn (\<lambda>_. False)) sample_env 1000 100000 ann_twice (\<lambda>_. new_peer) [n0]"
    unfolding n0_def by (rule node_run.start)
  note run = node_run.step[OF node_run.step[OF node_run.step[OF node_run.step[OF node_run.step[OF
    node_run.step[OF node_run.step[OF node_run.step[OF node_run.step[OF start 1] 2] 3] 4] 5] 6] 7] 8] 9]
  have q: "payloads (pr_sent (nd_conn n9 1)) = [typing_event]"
    using wire by (simp add: puts chunk_payloads_def)
  have "w_log (nd_world n9) = []" by (simp add: puts n6_def n5_def a(3))
  moreover have "\<forall>c. pr_sent new_peer = []" by (simp add: new_peer_def)
  ultimately show ?thesis
    using clients_see_their_rooms[OF peers.ws_connection_axioms _ run, of typing_event 1] run q rooms
    by (intro exI[of _ n9] exI[of _ "[n8, n7, n6, n5, n4, n3, n2, n1, n0]"]) auto
qed

end
