(* ===== verification/Http_Session.thy ===== *)
theory Http_Session
  imports Http_Properties
begin

text \<open>
  A session over the API: what a login answers opens the protected routes.
\<close>

lemma open_not_preflight: "find_route open_routes r = Some (e, c) \<Longrightarrow> rq_Method r \<noteq> ''OPTIONS''"
  using find_route_from[of open_routes r e c] by (auto simp: route_tables)

text \<open>A request to an open route that is not limited is answered by its handler.\<close>

lemma open_served:
  assumes "find_route open_routes r = Some (e, c)"
    and "serve_api (startAPIServer E A R origins lib) r rl w = (rsp, rl', w')" and "rs_Status rsp \<noteq> 429"
  shows "\<exists>rsp1. call_handler (api_services E A R) (fmt_time E) e c (pass E w) = (rsp1, w') \<and>
    rs_Status rsp1 = rs_Status rsp \<and> rs_Body rsp1 = rs_Body rsp"
  using assms open_not_preflight[OF assms(1)]
  by (auto simp: serve_api_def startAPIServer_def CORS_def Let_def go_runtime_def with_headers_def
      too_many_requests_def respondJSONError_def c_JSON_def RegisterRoutes_def split: prod.splits if_splits)

text \<open>A protected request whose token validates reaches its handler as that user, unless it is limited.\<close>

lemma validated_served:
  assumes "find_route protected_routes r = Some (e, c)"
    and "serve_api (startAPIServer E A R origins lib) r rl w = (rsp, rl', w')"
    and "auth_ValidateAccessToken (api_auth E A R) (request_token r) (pass E w) = (Inr u, w1)"
    and "request_token r \<noteq> []"
  shows "rs_Status rsp = 429 \<or>
    (\<exists>rsp1. call_handler (api_services E A R) (fmt_time E) e (c\<lparr>ctx_userID := Some u\<rparr>) w1 = (rsp1, w') \<and>
       rs_Status rsp1 = rs_Status rsp \<and> rs_Body rsp1 = rs_Body rsp)"
proof -
  have "ctx_req c = r" using find_route_from[OF assms(1)] by auto
  with assms protected_not_preflight[OF assms(1)] show ?thesis
    by (auto simp: serve_api_def startAPIServer_def CORS_def Let_def go_runtime_def with_headers_def
        too_many_requests_def respondJSONError_def c_JSON_def RegisterRoutes_def Auth_middleware_def
        protected_not_open[OF assms(1)] use_case_defs split: prod.splits if_splits)
qed

lemma http_login_served:
  assumes "find_route open_routes r = Some (Auth_login, c)"
    and "serve_api (startAPIServer E A R origins lib) r rl w = (rsp, rl', w')" and "rs_Status rsp = 200"
    and "rs_Body rsp = Some (token_payload_json \<lparr>tp_AccessToken = tok, tp_RefreshToken = ref\<rparr>)"
  shows "\<exists>req tp. ShouldBindJSON login_request_fields \<lparr>lr_Email = [], lr_Password = []\<rparr> c = Some req \<and>
    auth_Login (api_auth E A R) (lr_Email req) (lr_Password req) (pass E w) = (Inr tp, w') \<and>
    AccessToken tp = tok \<and> RefreshToken tp = ref"
proof -
  from open_served[OF assms(1,2)] assms(3) obtain rsp1 where
    h: "call_handler (api_services E A R) (fmt_time E) Auth_login c (pass E w) = (rsp1, w')"
    "rs_Status rsp1 = 200" "rs_Body rsp1 = rs_Body rsp" by auto
  from h(1) have "AuthHandler_login (NewAuthHandler (NewAuthUseCase (api_auth E A R))) c (pass E w) = (rsp1, w')"
    by (simp add: call_handler_def)
  with h(2) obtain req where req: "ShouldBindJSON login_request_fields \<lparr>lr_Email = [], lr_Password = []\<rparr> c = Some req"
    and rv: "reply_value mapAuthError tokens_reply
      (auth_Login (api_auth E A R) (lr_Email req) (lr_Password req) (pass E w)) = (rsp1, w')"
    by (auto simp: AuthHandler_login_def NewAuthHandler_def use_case_defs invalid_JSON_def respondBadRequest_def
        respondJSONError_def c_JSON_def split: option.splits)
  from reply_value_status[OF rv] h(2) obtain tp where
    "auth_Login (api_auth E A R) (lr_Email req) (lr_Password req) (pass E w) = (Inr tp, w')" "rsp1 = tokens_reply tp"
    by auto
  with req h(3) assms(4) show ?thesis by (auto simp: tokens_reply_def c_JSON_def token_payload_json_def)
qed

lemma http_login_token_trimmed:
  assumes "access_inv (w_keys w) (w_wall w)"
    and "find_route open_routes r = Some (Auth_login, c)"
    and "serve_api (startAPIServer (calm_redis E) A R origins lib) r rl w = (rsp, rl1, w1)" and "rs_Status rsp = 200"
    and "rs_Body rsp = Some (token_payload_json \<lparr>tp_AccessToken = tok, tp_RefreshToken = ref\<rparr>)"
  shows "TrimSpace tok = tok"
proof -
  from http_login_served[OF assms(2-5)] obtain req :: login_request and tp where
    "auth_Login (api_auth (calm_redis E) A R) (lr_Email req) (lr_Password req) (pass (calm_redis E) w) = (Inr tp, w1)"
    "AccessToken tp = tok" by blast
  with login_token_trimmed[of "pass (calm_redis E) w"] assms(1) show ?thesis by (auto simp: access_inv_mono)
qed

text \<open>
  C37: Logging in over the API opens a session: if a login is answered with 200 and a pair of tokens, then
  the address and the password of its body are those of a stored user, and every request to a
  protected route with the access token is served as that user, or limited, as long as it is within the
  access lifetime of the login and the keys of Redis were not changed in between. (Redis answers.)
\<close>

theorem http_login_opens_routes:
  assumes "access_inv (w_keys w) (w_wall w)"
    and "find_route open_routes r = Some (Auth_login, c)"
    and "serve_api (startAPIServer (calm_redis E) A R origins lib) r rl w = (rsp, rl1, w1)" and "rs_Status rsp = 200"
    and "rs_Body rsp = Some (token_payload_json \<lparr>tp_AccessToken = tok, tp_RefreshToken = ref\<rparr>)"
    and "find_route protected_routes r2 = Some (e, c2)" and "request_token r2 = tok"
    and "serve_api (startAPIServer (calm_redis E) A R origins lib) r2 rl2 v = (rsp2, rl3, v')"
    and "w_keys v = w_keys w1" and "w_wall (pass (calm_redis E) (pass (calm_redis E) v)) < w_wall w + A"
  shows "\<exists>req usr. ShouldBindJSON login_request_fields \<lparr>lr_Email = [], lr_Password = []\<rparr> c = Some req \<and>
    usr \<in> set (db_users (w_db w)) \<and> usr_Email usr = normalizeEmail (go_runtime E) (lr_Email req) \<and>
    CompareHashAndPassword (go_runtime E) (usr_PasswordHash usr) (lr_Password req) = None \<and>
    (rs_Status rsp2 = 429 \<or>
       (\<exists>v1 rsp3. call_handler (api_services (calm_redis E) A R) (fmt_time (calm_redis E)) e
            (c2\<lparr>ctx_userID := Some (usr_ID usr)\<rparr>) v1 = (rsp3, v') \<and>
          rs_Status rsp3 = rs_Status rsp2 \<and> rs_Body rsp3 = rs_Body rsp2))"
proof -
  let ?E = "calm_redis E"
  from http_login_served[OF assms(2-5)] obtain req :: login_request and tp where
    l: "ShouldBindJSON login_request_fields \<lparr>lr_Email = [], lr_Password = []\<rparr> c = Some req"
    "auth_Login (api_auth ?E A R) (lr_Email req) (lr_Password req) (pass ?E w) = (Inr tp, w1)"
    and tok: "AccessToken tp = tok" by blast
  have i: "access_inv (w_keys (pass ?E w)) (w_wall (pass ?E w))"
    using assms(1) by (simp add: access_inv_mono)
  have k: "w_keys (pass ?E v) = w_keys w1" using assms(9) by simp
  have t: "w_wall (pass ?E (pass ?E v)) < w_wall (pass ?E w) + A"
    using assms(10) pass_wall[of w ?E] by linarith
  have nonempty: "tok \<noteq> []" using login_token_trimmed[OF i l(2)] tok by simp
  from login_opens[OF i l(2) k t] obtain usr v1 where
    u: "usr \<in> set (db_users (w_db w))" "usr_Email usr = normalizeEmail (go_runtime E) (lr_Email req)"
    "CompareHashAndPassword (go_runtime E) (usr_PasswordHash usr) (lr_Password req) = None"
    and val: "auth_ValidateAccessToken (api_auth ?E A R) (request_token r2) (pass ?E v) = (Inr (usr_ID usr), v1)"
    by (auto simp: tok assms(7))
  from validated_served[OF assms(6,8) val] assms(7) nonempty have "rs_Status rsp2 = 429 \<or>
      (\<exists>v1 rsp3. call_handler (api_services ?E A R) (fmt_time ?E) e (c2\<lparr>ctx_userID := Some (usr_ID usr)\<rparr>) v1 = (rsp3, v') \<and>
         rs_Status rsp3 = rs_Status rsp2 \<and> rs_Body rsp3 = rs_Body rsp2)" by blast
  with l(1) u show ?thesis by (intro exI[of _ req] exI[of _ usr]) simp
qed

definition login_request :: http_request where
  "login_request = sample_request ''POST'' [''v1'', ''auth'', ''login''] []
     (Some (JObj [(''email'', JStr ''Ann@x''), (''password'', JStr ''password1'')]))"

lemma sample_login_route:
  "\<exists>c. find_route open_routes login_request = Some (Auth_login, c) \<and> ctx_req c = login_request"
  by (simp add: find_route_def route_tables matches_def login_request_def sample_request_def)

lemma sample_login_passed:
  "\<exists>tp w1. auth_Login (api_auth sample_env 1000 100000) ''Ann@x'' ''password1'' (pass sample_env sample_world)
       = (Inr tp, w1) \<and> w_wall w1 < 1100"
  unfolding auth_Login_def api_auth_simps sample_email
  by (simp add: world_eval auth_eval user_repo_eval)

lemma sample_login_served:
  "\<exists>rsp rl1 w1 tok ref. serve_api sample_server login_request sample_limiter sample_world = (rsp, rl1, w1) \<and>
     rs_Status rsp = 200 \<and> rs_Body rsp = Some (token_payload_json \<lparr>tp_AccessToken = tok, tp_RefreshToken = ref\<rparr>) \<and>
     w_wall w1 < 1100"
proof -
  from sample_login_passed obtain tp w1 where "auth_Login (api_auth sample_env 1000 100000) ''Ann@x'' ''password1''
      (pass sample_env sample_world) = (Inr tp, w1)" "w_wall w1 < 1100" by blast
  then show ?thesis
    by (simp add: http_eval AuthHandler_login_def NewAuthHandler_def login_request_fields_def login_request_def
        sample_request_def use_case_defs api_services_def tokens_reply_def Let_def go_runtime_def) (blast intro: refl)
qed

lemma sample_room_route:
  "\<exists>c. find_route protected_routes (sample_request ''POST'' [''v1'', ''rooms'', ''r1'', ''messages''] tok b)
     = Some (Message_send, c)"
  by (simp add: sample_request_def find_route_def matches_def route_tables)

theorem http_login_opens_routes_witness:
  "\<exists>usr req v1 v' rl3 w1 tok rsp2 rsp3 c2.
     ShouldBindJSON login_request_fields \<lparr>lr_Email = [], lr_Password = []\<rparr>
       (the (map_option snd (find_route open_routes login_request))) = Some req \<and>
     usr \<in> set (db_users (w_db sample_world)) \<and> usr_Email usr = normalizeEmail (go_runtime sample_env) (lr_Email req) \<and>
     serve_api sample_server (sample_request ''POST'' [''v1'', ''rooms'', ''r1'', ''messages''] tok None)
       sample_limiter w1 = (rsp2, rl3, v') \<and>
     (rs_Status rsp2 = 429 \<or> call_handler (api_services sample_env 1000 100000) (fmt_time sample_env) Message_send
        (c2\<lparr>ctx_userID := Some (usr_ID usr)\<rparr>) v1 = (rsp3, v') \<and> rs_Status rsp3 = rs_Status rsp2)"
proof -
  have ca: "calm_redis sample_env = sample_env" by (rule sample_calm)
  from sample_login_served obtain rsp rl1 w1 tok ref where
    s: "serve_api sample_server login_request sample_limiter sample_world = (rsp, rl1, w1)" "rs_Status rsp = 200"
    "rs_Body rsp = Some (token_payload_json \<lparr>tp_AccessToken = tok, tp_RefreshToken = ref\<rparr>)" "w_wall w1 < 1100"
    by blast
  from sample_login_route obtain c where c: "find_route open_routes login_request = Some (Auth_login, c)" by blast
  let ?r = "sample_request ''POST'' [''v1'', ''rooms'', ''r1'', ''messages''] tok None"
  obtain c2 where c2: "find_route protected_routes ?r = Some (Message_send, c2)" using sample_room_route by blast
  have i: "access_inv (w_keys sample_world) (w_wall sample_world)" by (simp add: sample_world_def)
  have tr: "TrimSpace tok = tok"
    using http_login_token_trimmed[OF i c, of sample_env 1000 100000 "[]" burst_lib] s by (simp add: ca)
  have rt: "request_token ?r = tok"
    by (simp add: request_token_def extractBearerToken_def splitn2_def sample_request_def tr)
  obtain rsp2 rl3 v' where s2: "serve_api sample_server ?r sample_limiter w1 = (rsp2, rl3, v')"
    by (metis prod.collapse)
  have t: "w_wall (pass (calm_redis sample_env) (pass (calm_redis sample_env) w1)) < w_wall sample_world + 1000"
    using s(4) by (simp add: pass_def ca sample_world_def) (simp add: sample_env_def)
  from http_login_opens_routes[OF i c _ s(2,3) c2 rt _ refl t, of _ "[]" burst_lib sample_limiter] s(1) s2 c
  show ?thesis by (fastforce simp: ca)
qed

end
