(* ===== verification/Session_Ledger.thy ===== *)
theory Session_Ledger
  imports Auth_Properties
begin

text \<open>
  What the auth service promises of sessions, without its cache, its four kinds of entries and its
  clock: a ledger knows the access token and the refresh token of each user who has them, and tokens may lapse
  at any time. The service of \<open>internal/domain/auth/service_impl.go\<close> refines it.
\<close>

section \<open>The ledger\<close>

record ledger =
  ld_access :: "string \<rightharpoonup> string"
  ld_refresh :: "string \<rightharpoonup> string"

definition empty_ledger :: ledger where
  "empty_ledger = \<lparr>ld_access = Map.empty, ld_refresh = Map.empty\<rparr>"

definition ledger_le :: "ledger \<Rightarrow> ledger \<Rightarrow> bool" where
  "ledger_le L' L \<longleftrightarrow> ld_access L' \<subseteq>\<^sub>m ld_access L \<and> ld_refresh L' \<subseteq>\<^sub>m ld_refresh L"

text \<open>The tokens of a new session replace those of its user, and are nobody else's.\<close>

definition hand :: "string \<Rightarrow> string \<Rightarrow> (string \<rightharpoonup> string) \<Rightarrow> (string \<rightharpoonup> string)" where
  "hand u t m = (\<lambda>v. if v = u then Some t else if m v = Some t then None else m v)"

definition give :: "string \<Rightarrow> token_pair \<Rightarrow> ledger \<Rightarrow> ledger" where
  "give u tp L =
     \<lparr>ld_access = hand u (AccessToken tp) (ld_access L), ld_refresh = hand u (RefreshToken tp) (ld_refresh L)\<rparr>"

definition revoke :: "string \<Rightarrow> ledger \<Rightarrow> ledger" where
  "revoke u L = \<lparr>ld_access = (ld_access L)(u := None), ld_refresh = (ld_refresh L)(u := None)\<rparr>"

datatype auth_answer = Failed err | Done_registered user | Issued token_pair | Logged_out | Admitted string

text \<open>
  The answers a ledger allows to a request, and the ledgers afterwards; \<open>K\<close> is the canonical form of a
  user id. A login or a refresh that fails late has issued tokens that its answer does not show.
\<close>

inductive ledger_step :: "(string \<Rightarrow> string option) \<Rightarrow> ledger \<Rightarrow> auth_request \<Rightarrow> auth_answer \<Rightarrow> ledger \<Rightarrow> bool"
  for K where
  refused: "ledger_le L' L \<Longrightarrow> ledger_step K L req (Failed e) L'"
| registered: "ledger_le L' L \<Longrightarrow> ledger_step K L (ReqRegister input) (Done_registered u) L'"
| login: "ledger_le L' (give u tp L) \<Longrightarrow> ledger_step K L (ReqLogin email pw) (Issued tp) L'"
| login_late: "ledger_le L' (give u tp L) \<Longrightarrow> ledger_step K L (ReqLogin email pw) (Failed e) L'"
| renew: "ld_refresh L u = Some (TrimSpace tok) \<Longrightarrow> K u = Some v \<Longrightarrow> ledger_le L' (give v tp L) \<Longrightarrow>
    ledger_step K L (ReqRefresh tok) (Issued tp) L'"
| renew_late: "ld_refresh L u = Some (TrimSpace tok) \<Longrightarrow> K u = Some v \<Longrightarrow> ledger_le L' (give v tp L) \<Longrightarrow>
    ledger_step K L (ReqRefresh tok) (Failed e) L'"
| logout: "ledger_le L' (revoke (TrimSpace uid) L) \<Longrightarrow> ledger_step K L (ReqLogout uid) Logged_out L'"
| admit: "ld_access L u = Some (TrimSpace tok) \<Longrightarrow> ledger_le L' L \<Longrightarrow>
    ledger_step K L (ReqValidate tok) (Admitted u) L'"

inductive_cases admittedE: "ledger_step K L req (Admitted u) L'"
inductive_cases logged_outE: "ledger_step K L req Logged_out L'"

lemma ledger_le_refl [simp]: "ledger_le L L"
  by (simp add: ledger_le_def)

lemma ledger_le_trans: "ledger_le A B \<Longrightarrow> ledger_le B C \<Longrightarrow> ledger_le A C"
  by (auto simp: ledger_le_def intro: map_le_trans)

lemma ledger_leI:
  "(\<And>u t. ld_access L' u = Some t \<Longrightarrow> ld_access L u = Some t) \<Longrightarrow>
   (\<And>u t. ld_refresh L' u = Some t \<Longrightarrow> ld_refresh L u = Some t) \<Longrightarrow> ledger_le L' L"
  unfolding ledger_le_def map_le_def by (metis domD)

lemma ledger_leD: "ledger_le L' L \<Longrightarrow> ld_access L' u = Some t \<Longrightarrow> ld_access L u = Some t"
  unfolding ledger_le_def map_le_def by (metis domI)

lemma hand_mono: "m \<subseteq>\<^sub>m n \<Longrightarrow> hand u t m \<subseteq>\<^sub>m hand u t n"
  by (auto simp: map_le_def hand_def dom_def split: if_splits)

lemma give_mono: "ledger_le L M \<Longrightarrow> ledger_le (give u tp L) (give u tp M)"
  by (auto simp: ledger_le_def give_def intro: hand_mono)

text \<open>A lapse after a step, or before it, is part of the step.\<close>

lemma ledger_step_lapse: "ledger_step K L req a M \<Longrightarrow> ledger_le N M \<Longrightarrow> ledger_step K L req a N"
  by (induction rule: ledger_step.induct) (auto intro: ledger_step.intros ledger_le_trans)

section \<open>The abstraction\<close>

text \<open>A token counts when both of its entries are live and name each other.\<close>

definition paired :: "key_store \<Rightarrow> time \<Rightarrow> (string \<Rightarrow> string) \<Rightarrow> (string \<Rightarrow> string) \<Rightarrow> (string \<rightharpoonup> string)" where
  "paired S \<tau> byUser byToken =
     (\<lambda>u. case live_value S \<tau> (byUser u) of
            None \<Rightarrow> None
          | Some t \<Rightarrow> if live_value S \<tau> (byToken t) = Some u then Some t else None)"

definition ledger_of :: "key_store \<Rightarrow> time \<Rightarrow> ledger" where
  "ledger_of S \<tau> = \<lparr>ld_access = paired S \<tau> accessSessionKey accessKey, ld_refresh = paired S \<tau> sessionKey refreshKey\<rparr>"

lemma paired_Some:
  "paired S \<tau> f g u = Some t \<longleftrightarrow> live_value S \<tau> (f u) = Some t \<and> live_value S \<tau> (g t) = Some u"
  by (auto simp: paired_def split: option.splits)

lemma ledger_of_Some [simp]:
  "ld_access (ledger_of S \<tau>) u = Some t \<longleftrightarrow>
     live_value S \<tau> (accessSessionKey u) = Some t \<and> live_value S \<tau> (accessKey t) = Some u"
  "ld_refresh (ledger_of S \<tau>) u = Some t \<longleftrightarrow>
     live_value S \<tau> (sessionKey u) = Some t \<and> live_value S \<tau> (refreshKey t) = Some u"
  by (simp_all add: ledger_of_def paired_Some)

lemma ledger_of_empty: "ledger_of (\<lambda>_. None) \<tau> = empty_ledger"
  by (simp add: ledger_of_def empty_ledger_def paired_def live_value_def fun_eq_iff)

text \<open>Time and deletions only take tokens away.\<close>

lemma live_value_fewer:
  "live_value S' t' k = Some v \<Longrightarrow> S' k = S k \<or> S' k = None \<Longrightarrow> t \<le> t' \<Longrightarrow> live_value S t k = Some v"
  by (auto simp: live_value_Some intro: alive_mono)

lemma ledger_fewer:
  assumes "\<And>k. S' k = S k \<or> S' k = None" and "t \<le> t'"
  shows "ledger_le (ledger_of S' t') (ledger_of S t)"
proof -
  have "live_value S t k = Some v" if "live_value S' t' k = Some v" for k v
    using that assms(1)[of k] assms(2) by (auto simp: live_value_Some intro: alive_mono)
  then show ?thesis by (intro ledger_leI) auto
qed

lemma ledger_later [simp]: "t \<le> t' \<Longrightarrow> ledger_le (ledger_of S t') (ledger_of S t)"
  by (rule ledger_fewer) simp_all

lemma ledger_revoked:
  assumes "ledger_le (ledger_of S' t') (ledger_of S t)"
    and "no_access S' t' u" and "live_value S' t' (sessionKey u) = None"
  shows "ledger_le (ledger_of S' t') (revoke u (ledger_of S t))"
  using assms by (auto simp: ledger_le_def map_le_def revoke_def no_access_def dom_def)

text \<open>The two entries of a token, written for a user.\<close>

lemma paired_written:
  assumes "t \<le> t'" and "S' (f u) = Some (x, d)" and "S' (g x) = Some (u, d')"
    and f: "\<And>v. v \<noteq> u \<Longrightarrow> S' (f v) = S (f v)" and g: "\<And>y. y \<noteq> x \<Longrightarrow> S' (g y) = S (g y)"
  shows "paired S' t' f g \<subseteq>\<^sub>m hand u x (paired S t f g)"
  unfolding map_le_def
proof
  have live: "live_value S t k = Some v" if "live_value S' t' k = Some v" "S' k = S k" for k v
    using live_value_fewer[OF that(1) _ assms(1)] that(2) by blast
  fix v
  assume "v \<in> dom (paired S' t' f g)"
  then obtain b where p: "paired S' t' f g v = Some b" by blast
  then have b: "live_value S' t' (f v) = Some b" "live_value S' t' (g b) = Some v"
    by (simp_all add: paired_Some)
  show "paired S' t' f g v = hand u x (paired S t f g) v"
  proof (cases "v = u")
    case True
    with b(1) assms(2) p show ?thesis by (auto simp: hand_def live_value_Some)
  next
    case False
    with b(2) assms(3) have "b \<noteq> x" by (auto simp: live_value_Some)
    with False b live f g have "paired S t f g v = Some b" by (simp add: paired_Some)
    with False p \<open>b \<noteq> x\<close> show ?thesis by (simp add: hand_def)
  qed
qed

lemma paired_unwritten:
  assumes "t \<le> t'" and "\<And>v. S' (f v) = S (f v)" and "\<And>y. S' (g y) = S (g y)"
  shows "paired S' t' f g \<subseteq>\<^sub>m paired S t f g"
proof -
  have "live_value S t k = Some v" if "live_value S' t' k = Some v" "S' k = S k" for k v
    using live_value_fewer[OF that(1) _ assms(1)] that(2) by blast
  with assms(2,3) show ?thesis unfolding map_le_def by (metis domD paired_Some)
qed

text \<open>The four entries of a new session.\<close>

lemma ledger_given:
  assumes "t \<le> t'"
    and "S' = S(sessionKey u \<mapsto> (r, d1), refreshKey r \<mapsto> (u, d2), accessKey a \<mapsto> (u, d3), accessSessionKey u \<mapsto> (a, d4))"
  shows "ledger_le (ledger_of S' t') (give u \<lparr>AccessToken = a, RefreshToken = r\<rparr> (ledger_of S t))"
  using assms by (auto simp: ledger_le_def ledger_of_def give_def intro!: paired_written)

text \<open>A token in use, written again.\<close>

lemma hand_again: "paired S t f g u = Some x \<Longrightarrow> hand u x (paired S t f g) = paired S t f g"
proof
  fix v
  assume u: "paired S t f g u = Some x"
  then have "paired S t f g v \<noteq> Some x" if "v \<noteq> u" using that by (auto simp: paired_Some)
  with u show "hand u x (paired S t f g) v = paired S t f g v" by (auto simp: hand_def)
qed

lemma ledger_extended:
  assumes "t \<le> t'" and a: "ld_access (ledger_of S t) u = Some a"
    and S': "S' = S(accessKey a \<mapsto> (u, d1), accessSessionKey u \<mapsto> (a, d2))"
  shows "ledger_le (ledger_of S' t') (ledger_of S t)"
proof -
  have p: "paired S t accessSessionKey accessKey u = Some a" using a by (simp add: paired_Some)
  have "paired S' t' accessSessionKey accessKey \<subseteq>\<^sub>m hand u a (paired S t accessSessionKey accessKey)"
    by (rule paired_written[OF assms(1)]) (simp_all add: S')
  moreover have "paired S' t' sessionKey refreshKey \<subseteq>\<^sub>m paired S t sessionKey refreshKey"
    by (rule paired_unwritten[OF assms(1)]) (simp_all add: S')
  ultimately show ?thesis unfolding hand_again[OF p] by (simp add: ledger_le_def ledger_of_def)
qed

section \<open>The service over any cache that answers every write\<close>

context writing_auth
begin

abbreviation ledger_at :: "'w \<Rightarrow> ledger" where
  "ledger_at w \<equiv> ledger_of (store w) (clock w)"

lemma quiet_ledger: "store w' = store w \<and> clock w \<le> clock w' \<Longrightarrow> ledger_le (ledger_at w') (ledger_at w)"
  by simp

lemma storeTokens_written: "\<exists>tp w'. storeTokens s u a r w = (Inr tp, w')"
  using set_effect by (auto simp: storeTokens_def svc_cache Let_def split: prod.splits option.splits)
    (metis fst_conv option.distinct(1))+

lemma storeTokens_ledger:
  assumes "storeTokens s u a r w = (res, w')"
  shows "\<exists>tp. res = Inr tp \<and> ledger_le (ledger_at w') (give u tp (ledger_at w))"
proof -
  obtain tp where tp: "res = Inr tp" using storeTokens_written[of u a r w] assms by auto
  from assms tp obtain w1 w2 w3 where
    1: "cache_Set C (sessionKey u) r (as_refreshTTL s) w = (None, w1)" and
    2: "cache_Set C (refreshKey r) u (as_refreshTTL s) w1 = (None, w2)" and
    3: "cache_Set C (accessKey a) u (as_accessTTL s) w2 = (None, w3)" and
    4: "cache_Set C (accessSessionKey u) a (as_accessTTL s) w3 = (None, w')" and
    "tp = \<lparr>AccessToken = a, RefreshToken = r\<rparr>"
    by (auto simp: storeTokens_def svc_cache Let_def split: prod.splits option.splits)
  moreover have "clock w \<le> clock w'"
    using set_time[OF 1] set_time[OF 2] set_time[OF 3] set_time[OF 4] by simp
  ultimately show ?thesis
    using ledger_given[OF _ set_ok[OF 4, unfolded set_ok[OF 3] set_ok[OF 2] set_ok[OF 1]]] tp by blast
qed

lemma invalidated_ledger:
  assumes "invalidateSession s u w = (res, w')" and "access_inv (store w) (clock w)"
  shows "ledger_le (ledger_at w') (ledger_at w) \<and> (res = None \<longrightarrow> ledger_le (ledger_at w') (revoke u (ledger_at w)))"
proof -
  note p = invalidateSession_post[OF assms]
  have "ledger_le (ledger_at w') (ledger_at w)"
    using p invalidateSession_removes[OF assms(1)] by (intro ledger_fewer) auto
  with p ledger_revoked show ?thesis by blast
qed

lemma issueTokens_ledger:
  assumes "issueTokens s usr w = (res, w')" and inv: "access_inv (store w) (clock w)"
  shows "(\<exists>e. res = Inl e \<and> ledger_le (ledger_at w') (ledger_at w)) \<or>
    (\<exists>tp. res = Inr tp \<and> ledger_le (ledger_at w') (give (usr_ID usr) tp (ledger_at w)))"
proof -
  obtain r1 w1 where 1: "invalidateSession s (usr_ID usr) w = (r1, w1)" by fastforce
  have le: "ledger_le (ledger_at w1) (ledger_at w)" using invalidated_ledger[OF 1 inv] by blast
  obtain n w2 where 2: "rt_now (as_rt s) w1 = (n, w2)" by fastforce
  obtain g3 w3 where 3: "GenerateAccessToken (as_rt s) w2 = (g3, w3)" by fastforce
  obtain g4 w4 where 4: "GenerateRefreshToken (as_rt s) w3 = (g4, w4)" by fastforce
  note q = quietD[OF quiet_now 2] quietD[OF quiet_access 3] quietD[OF quiet_refresh 4]
  have le3: "ledger_le (ledger_at w3) (ledger_at w)"
    by (rule ledger_le_trans[OF quiet_ledger le]) (use q in auto)
  have le4: "ledger_le (ledger_at w4) (ledger_at w)"
    by (rule ledger_le_trans[OF quiet_ledger le]) (use q in auto)
  show ?thesis
  proof (cases r1)
    case None
    show ?thesis
    proof (cases "\<exists>a r. g3 = Inr a \<and> g4 = Inr r")
      case True
      then obtain a r where "g3 = Inr a" "g4 = Inr r" by blast
      with assms(1) 1 None 2 3 4 have "storeTokens s (usr_ID usr) a r w4 = (res, w')" by (simp add: issueTokens_def)
      from storeTokens_ledger[OF this] give_mono[OF le4] show ?thesis by (blast intro: ledger_le_trans)
    next
      case False
      with assms(1) 1 None 2 3 4 le3 le4 show ?thesis by (auto simp: issueTokens_def split: sum.splits)
    qed
  qed (use assms(1) 1 le in \<open>auto simp: issueTokens_def\<close>)
qed

lemma openSession_ledger:
  assumes "openSession s usr w = (res, w')" and inv: "access_inv (store w) (clock w)"
  shows "(\<exists>e. res = Inl e \<and> ledger_le (ledger_at w') (ledger_at w)) \<or>
    (\<exists>tp. (res = Inr tp \<or> isl res) \<and> ledger_le (ledger_at w') (give (usr_ID usr) tp (ledger_at w)))"
proof -
  obtain g w1 where 1: "issueTokens s usr w = (g, w1)" by fastforce
  obtain n w2 where 2: "rt_now (as_rt s) w1 = (n, w2)" by fastforce
  obtain r w3 where 3: "ur_UpdateStatus (as_users s) (usr_ID usr) UserStatusOnline n w2 = (r, w3)" by fastforce
  note i = issueTokens_ledger[OF 1 inv] and q = quietD[OF quiet_now 2] quietD[OF quiet_UpdateStatus 3]
  show ?thesis
  proof (cases g)
    case (Inl e)
    with i assms(1) 1 show ?thesis by (auto simp: openSession_def)
  next
    case (Inr tp)
    with assms(1) 1 2 3 have w': "w' = w3" and res: "res = Inr tp \<or> isl res"
      by (auto simp: openSession_def split: option.splits)
    from i Inr have "ledger_le (ledger_at w1) (give (usr_ID usr) tp (ledger_at w))" by simp
    moreover have "ledger_le (ledger_at w3) (ledger_at w1)" by (rule quiet_ledger) (use q in auto)
    ultimately show ?thesis using res w' by (blast intro: ledger_le_trans)
  qed
qed

lemma opened_ledger:
  assumes "openSession s usr w1 = (res, w')" and "store w1 = store w" and "clock w \<le> clock w1"
    and "access_inv (store w) (clock w)"
  shows "(\<exists>e. res = Inl e \<and> ledger_le (ledger_at w') (ledger_at w)) \<or>
    (\<exists>tp. (res = Inr tp \<or> isl res) \<and> ledger_le (ledger_at w') (give (usr_ID usr) tp (ledger_at w)))"
proof -
  have "access_inv (store w1) (clock w1)" using assms(2-4) by (simp add: access_inv_mono)
  note o = openSession_ledger[OF assms(1) this]
  have le: "ledger_le (ledger_at w1) (ledger_at w)" by (rule quiet_ledger) (use assms(2,3) in simp)
  from o show ?thesis
  proof (elim disjE exE conjE)
    fix e
    assume "res = Inl e" "ledger_le (ledger_at w') (ledger_at w1)"
    with le show ?thesis by (blast intro: ledger_le_trans)
  next
    fix tp
    assume "ledger_le (ledger_at w') (give (usr_ID usr) tp (ledger_at w1))"
    then have "ledger_le (ledger_at w') (give (usr_ID usr) tp (ledger_at w))"
      by (rule ledger_le_trans) (rule give_mono[OF le])
    moreover assume "res = Inr tp" 
    ultimately show ?thesis by blast
  next
    fix tp
    assume "ledger_le (ledger_at w') (give (usr_ID usr) tp (ledger_at w1))"
    then have "ledger_le (ledger_at w') (give (usr_ID usr) tp (ledger_at w))"
      by (rule ledger_le_trans) (rule give_mono[OF le])
    moreover assume "isl res"
    ultimately show ?thesis by blast
  qed
qed

lemma validated_ledger:
  assumes "auth_ValidateAccessToken s tok w = (Inr u, w')" and inv: "access_inv (store w) (clock w)"
  shows "ld_access (ledger_at w) u = Some (TrimSpace tok) \<and> ledger_le (ledger_at w') (ledger_at w)"
proof -
  let ?a = "TrimSpace tok"
  have v: "live_value (store w) (clock w) (accessKey ?a) = Some u" using validate_accepts[OF assms(1)] .
  then obtain x where x: "store w (accessKey ?a) = Some (u, x)" "alive x (clock w)" by (auto simp: live_value_Some)
  with inv obtain y where "store w (accessSessionKey u) = Some (?a, y)" "outlives x y" unfolding access_inv_def by blast
  with x v have a: "ld_access (ledger_at w) u = Some ?a" by (auto simp: live_value_Some dest: outlives_alive)
  from assms(1) obtain w1 where g: "cache_Get C (accessKey ?a) w = (Inr u, w1)" and e: "extendAccess s ?a u w1 = (Inr u, w')"
    by (auto simp: auth_ValidateAccessToken_def extendAccess_def svc_cache Let_def
        split: sum.splits prod.splits if_splits option.splits)
  note fr = get_frame[OF g]
  from extendAccess_store[OF e] obtain t1 where "clock w1 \<le> t1" "t1 \<le> clock w'"
    "store w' = (store w1)(accessKey ?a \<mapsto> (u, deadline (as_accessTTL s) t1),
                         accessSessionKey u \<mapsto> (?a, deadline (as_accessTTL s) (clock w')))" by blast
  with fr ledger_extended[OF _ a] have "ledger_le (ledger_at w') (ledger_at w)" by (metis order_trans)
  with a show ?thesis by blast
qed

lemma refused_validation_ledger:
  assumes "auth_ValidateAccessToken s tok w = (Inl e, w')"
  shows "ledger_le (ledger_at w') (ledger_at w)"
proof -
  obtain g w1 where 1: "cache_Get C (accessKey (TrimSpace tok)) w = (g, w1)" by fastforce
  have "fst (cache_Set C k v t x) \<noteq> Some e'" for k v t x e' by (simp add: set_effect)
  then have "store w' = store w \<and> clock w \<le> clock w'"
    using assms 1 get_frame[OF 1]
    by (auto simp: auth_ValidateAccessToken_def extendAccess_def svc_cache Let_def
        split: prod.splits sum.splits if_splits option.splits) (metis fst_conv)+
  then show ?thesis by (rule quiet_ledger)
qed

lemma logout_ledger:
  assumes "auth_Logout s uid w = (res, w')" and inv: "access_inv (store w) (clock w)"
  shows "ledger_le (ledger_at w') (ledger_at w) \<and>
    (res = None \<longrightarrow> ledger_le (ledger_at w') (revoke (TrimSpace uid) (ledger_at w)))"
proof (cases "TrimSpace uid = []")
  case False
  obtain r w1 where 1: "invalidateSession s (TrimSpace uid) w = (r, w1)" by fastforce
  obtain n w2 where 2: "rt_now (as_rt s) w1 = (n, w2)" by fastforce
  obtain q w3 where 3: "ur_UpdateStatus (as_users s) (TrimSpace uid) UserStatusOffline n w2 = (q, w3)" by fastforce
  note i = invalidated_ledger[OF 1 inv]
  have le: "ledger_le (ledger_at w3) (ledger_at w1)"
    using quietD[OF quiet_now 2] quietD[OF quiet_UpdateStatus 3] by (intro quiet_ledger) auto
  show ?thesis
  proof (cases r)
    case None
    with False 1 2 3 assms(1) have "w' = w3" by (simp add: auth_Logout_def)
    with i le None show ?thesis by (blast intro: ledger_le_trans)
  next
    case (Some e)
    with False 1 assms(1) i show ?thesis by (simp add: auth_Logout_def)
  qed
qed (use assms in \<open>auto simp: auth_Logout_def\<close>)

end

section \<open>The service refines the ledger\<close>

fun answer_auth :: "'w auth_service \<Rightarrow> auth_request \<Rightarrow> ('w, auth_answer) io" where
  "answer_auth s (ReqRegister input) w =
     (case auth_Register s input w of (Inl e, w1) \<Rightarrow> (Failed e, w1) | (Inr u, w1) \<Rightarrow> (Done_registered u, w1))"
| "answer_auth s (ReqLogin email pw) w =
     (case auth_Login s email pw w of (Inl e, w1) \<Rightarrow> (Failed e, w1) | (Inr tp, w1) \<Rightarrow> (Issued tp, w1))"
| "answer_auth s (ReqRefresh tok) w =
     (case auth_Refresh s tok w of (Inl e, w1) \<Rightarrow> (Failed e, w1) | (Inr tp, w1) \<Rightarrow> (Issued tp, w1))"
| "answer_auth s (ReqLogout uid) w =
     (case auth_Logout s uid w of (Some e, w1) \<Rightarrow> (Failed e, w1) | (None, w1) \<Rightarrow> (Logged_out, w1))"
| "answer_auth s (ReqValidate tok) w =
     (case auth_ValidateAccessToken s tok w of (Inl e, w1) \<Rightarrow> (Failed e, w1) | (Inr u, w1) \<Rightarrow> (Admitted u, w1))"

lemma answer_auth_serves: "snd (answer_auth s req w) = serve_auth s req w"
  by (cases req) (auto split: prod.splits sum.splits option.splits)

abbreviation ledger_in :: "world \<Rightarrow> ledger" where
  "ledger_in w \<equiv> ledger_of (w_keys w) (w_wall w)"

lemma answer_refines:
  assumes "answer_auth (api_auth (sure_write E) A R) req w = (ans, w')"
    and inv: "access_inv (w_keys w) (w_wall w)"
  shows "ledger_step (canon_uuid E) (ledger_in w) req ans (ledger_in w')"
proof (cases req)
  case (ReqRegister input)
  with assms(1) obtain r where r: "auth_Register (api_auth (sure_write E) A R) input w = (r, w')"
    and ans: "ans = (case r of Inl e \<Rightarrow> Failed e | Inr u \<Rightarrow> Done_registered u)"
    by (auto split: prod.splits sum.splits)
  from rww.quiet_ledger[OF rww.register_quiet[OF r]] show ?thesis
    by (cases r) (auto simp: ReqRegister ans intro: ledger_step.intros)
next
  case (ReqLogin email pw)
  with assms(1) obtain r where r: "auth_Login (api_auth (sure_write E) A R) email pw w = (r, w')"
    and ans: "ans = (case r of Inl e \<Rightarrow> Failed e | Inr tp \<Rightarrow> Issued tp)"
    by (auto split: prod.splits sum.splits)
  from r show ?thesis
  proof (cases rule: rww.login_split)
    case (failed e)
    then show ?thesis by (simp add: ReqLogin ans ledger_step.refused)
  next
    case (opened usr w1)
    from rww.opened_ledger[OF opened(1-3) inv] show ?thesis
      by (cases r) (auto simp: ReqLogin ans intro: ledger_step.intros)
  qed
next
  case (ReqRefresh tok)
  with assms(1) obtain r where r: "auth_Refresh (api_auth (sure_write E) A R) tok w = (r, w')"
    and ans: "ans = (case r of Inl e \<Rightarrow> Failed e | Inr tp \<Rightarrow> Issued tp)"
    by (auto split: prod.splits sum.splits)
  from r show ?thesis
  proof (cases rule: rww.refresh_split)
    case (failed e)
    then show ?thesis by (simp add: ReqRefresh ans ledger_step.refused)
  next
    case (opened usr u w0 w1)
    have "ld_refresh (ledger_in w) u = Some (TrimSpace tok)" using opened(4,5) by simp
    moreover have "canon_uuid E u = Some (usr_ID usr)"
      using opened(6) get_by_id_found[of "sure_write E" u w0 usr w1] by (simp add: sure_write_def)
    ultimately show ?thesis using rww.opened_ledger[OF opened(1-3) inv]
      by (cases r) (auto simp: ReqRefresh ans simp del: ledger_of_Some intro: ledger_step.intros)
  qed
next
  case (ReqLogout uid)
  with assms(1) obtain r where r: "auth_Logout (api_auth (sure_write E) A R) uid w = (r, w')"
    and ans: "ans = (case r of Some e \<Rightarrow> Failed e | None \<Rightarrow> Logged_out)"
    by (auto split: prod.splits option.splits)
  from rww.logout_ledger[OF r inv] show ?thesis
    by (cases r) (auto simp: ReqLogout ans intro: ledger_step.intros)
next
  case (ReqValidate tok)
  with assms(1) obtain r where r: "auth_ValidateAccessToken (api_auth (sure_write E) A R) tok w = (r, w')"
    and ans: "ans = (case r of Inl e \<Rightarrow> Failed e | Inr u \<Rightarrow> Admitted u)"
    by (auto split: prod.splits sum.splits)
  show ?thesis
  proof (cases r)
    case (Inl e)
    with rww.refused_validation_ledger[of E A R tok w e w'] r show ?thesis
      by (simp add: ReqValidate ans ledger_step.refused)
  next
    case (Inr u)
    with rww.validated_ledger[of E A R tok w u w'] r inv show ?thesis
      by (auto simp: ReqValidate ans simp del: ledger_of_Some intro: ledger_step.intros)
  qed
qed

text \<open>
  A run of the service: its requests one after another, with any activity in between that leaves the entries
  alone (the other services store nothing in Redis) and does not turn the clock back.
\<close>

inductive auth_run :: "world auth_service \<Rightarrow> world \<Rightarrow> (auth_request \<times> auth_answer) list \<Rightarrow> world \<Rightarrow> bool"
  for s w0 where
  fresh: "auth_run s w0 [] w0"
| elsewhere: "auth_run s w0 tr w \<Longrightarrow> w_keys w' = w_keys w \<Longrightarrow> w_wall w \<le> w_wall w' \<Longrightarrow> auth_run s w0 tr w'"
| request: "auth_run s w0 tr w \<Longrightarrow> answer_auth s req w = (ans, w') \<Longrightarrow> auth_run s w0 (tr @ [(req, ans)]) w'"

inductive ledger_run :: "(string \<Rightarrow> string option) \<Rightarrow> (auth_request \<times> auth_answer) list \<Rightarrow> ledger \<Rightarrow> bool"
  for K where
  fresh: "ledger_run K [] empty_ledger"
| lapse: "ledger_run K tr L \<Longrightarrow> ledger_le L' L \<Longrightarrow> ledger_run K tr L'"
| step: "ledger_run K tr L \<Longrightarrow> ledger_step K L req ans L' \<Longrightarrow> ledger_run K (tr @ [(req, ans)]) L'"

lemma auth_run_refines:
  "auth_run (api_auth (sure_write E) A R) w0 tr w \<Longrightarrow> w_keys w0 = (\<lambda>_. None) \<Longrightarrow>
   access_inv (w_keys w) (w_wall w) \<and> ledger_run (canon_uuid E) tr (ledger_in w)"
proof (induction rule: auth_run.induct)
  case fresh
  then show ?case by (simp add: ledger_of_empty ledger_run.fresh)
next
  case (elsewhere tr w w')
  then show ?case by (auto intro: access_inv_mono ledger_run.lapse)
next
  case (request tr w req ans w')
  then have inv: "access_inv (w_keys w) (w_wall w)" by blast
  have "w' = serve_auth (api_auth (sure_write E) A R) req w"
    using answer_auth_serves[of "api_auth (sure_write E) A R" req w] request.hyps(2) by simp
  with serve_auth_inv[OF inv] request answer_refines[OF request.hyps(2) inv] show ?case
    by (auto intro: ledger_run.step)
qed

text \<open>Where the invariant holds, the ledger has exactly the access tokens that are live.\<close>

lemma ledger_exact:
  assumes "access_inv S \<tau>"
  shows "ld_access (ledger_of S \<tau>) u = Some a \<longleftrightarrow> live_value S \<tau> (accessKey a) = Some u"
proof -
  have "live_value S \<tau> (accessSessionKey u) = Some a" if "live_value S \<tau> (accessKey a) = Some u"
  proof -
    from that obtain x where x: "S (accessKey a) = Some (u, x)" "alive x \<tau>" by (auto simp: live_value_Some)
    with assms obtain y where "S (accessSessionKey u) = Some (a, y)" "outlives x y"
      unfolding access_inv_def by blast
    with x(2) show ?thesis by (auto simp: live_value_Some dest: outlives_alive)
  qed
  then show ?thesis by auto
qed


section \<open>What the ledger says of a history\<close>

text \<open>The answers with which the access token \<open>t\<close> may have been issued.\<close>

fun may_issue :: "string \<Rightarrow> auth_request \<times> auth_answer \<Rightarrow> bool" where
  "may_issue t (req, Issued tp) = (AccessToken tp = t)"
| "may_issue t (ReqLogin email pw, Failed e) = True"
| "may_issue t (ReqRefresh tok, Failed e) = True"
| "may_issue t (req, ans) = False"

lemma ledger_step_new:
  "ledger_step K L req ans L' \<Longrightarrow> ld_access L' u = Some t \<Longrightarrow> ld_access L u = Some t \<or> may_issue t (req, ans)"
  by (induction rule: ledger_step.induct)
    (auto simp: give_def hand_def revoke_def split: if_splits dest!: ledger_leD)

lemma ledger_logged_out:
  "ledger_step K L (ReqLogout uid) Logged_out L' \<Longrightarrow> ld_access L' (TrimSpace uid) = None"
  by (elim logged_outE) (auto simp: ledger_le_def map_le_def dom_def revoke_def)

lemma ledger_run_since_logout:
  "ledger_run K tr L \<Longrightarrow> tr = tr1 @ (ReqLogout uid, Logged_out) # tr2 \<Longrightarrow>
   ld_access L (TrimSpace uid) = Some t \<Longrightarrow> \<exists>x \<in> set tr2. may_issue t x"
proof (induction arbitrary: tr2 rule: ledger_run.induct)
  case (lapse tr L L')
  then show ?case by (auto dest: ledger_leD)
next
  case (step tr L req ans L')
  show ?case
  proof (cases tr2 rule: rev_cases)
    case Nil
    with step.prems step.hyps(2) show ?thesis by (auto dest: ledger_logged_out)
  next
    case (snoc ys y)
    with step.prems(1) have "tr = tr1 @ (ReqLogout uid, Logged_out) # ys" "y = (req, ans)" by simp_all
    with step.IH ledger_step_new[OF step.hyps(2) step.prems(2)] snoc show ?thesis by auto
  qed
qed simp

lemma ledger_run_since_start: "ledger_run K tr L \<Longrightarrow> ld_access L u = Some t \<Longrightarrow> \<exists>x \<in> set tr. may_issue t x"
proof (induction rule: ledger_run.induct)
  case (lapse tr L L')
  then show ?case by (auto dest: ledger_leD)
next
  case (step tr L req ans L')
  with ledger_step_new[OF step.hyps(2) step.prems] show ?case by auto
qed (simp add: empty_ledger_def)


section \<open>A history\<close>

text \<open>Ann logs in, logs out and logs in again.\<close>

lemma sample_history:
  "\<exists>tp1 w1 w2 tp2 w3. answer_auth sample_auth (ReqLogin ''Ann@x'' ''password1'') sample_world = (Issued tp1, w1) \<and>
     answer_auth sample_auth (ReqLogout ''u-ann'') w1 = (Logged_out, w2) \<and>
     answer_auth sample_auth (ReqLogin ''Ann@x'' ''password1'') w2 = (Issued tp2, w3) \<and>
     live_value (w_keys w3) (w_wall w3) (accessKey (AccessToken tp2)) = Some ''u-ann'' \<and>
     w_wall (pass sample_env w3) < w_wall w2 + 1000"
  unfolding answer_auth.simps auth_Login_def api_auth_simps sure_delete_facilities sample_email
  by (simp add: world_eval auth_eval user_repo_eval trim_r0 Let_def)

lemma sample_run:
  "\<exists>tp1 w2 tp2 w3. auth_run (api_auth (sure_write sample_env) 1000 100000) sample_world
       [(ReqLogin ''Ann@x'' ''password1'', Issued tp1), (ReqLogout ''u-ann'', Logged_out)] w2 \<and>
     answer_auth sample_auth (ReqLogin ''Ann@x'' ''password1'') w2 = (Issued tp2, w3) \<and>
     auth_run (api_auth (sure_write sample_env) 1000 100000) sample_world
       [(ReqLogin ''Ann@x'' ''password1'', Issued tp1), (ReqLogout ''u-ann'', Logged_out),
        (ReqLogin ''Ann@x'' ''password1'', Issued tp2)] w3 \<and>
     live_value (w_keys w3) (w_wall w3) (accessKey (AccessToken tp2)) = Some ''u-ann'' \<and>
     w_wall (pass sample_env w3) < w_wall w2 + 1000"
proof -
  let ?s = "api_auth (sure_write sample_env) 1000 100000"
  have s: "sample_auth = ?s" by (simp add: sample_write sample_calm)
  from sample_history obtain tp1 w1 w2 tp2 w3 where
    h: "answer_auth ?s (ReqLogin ''Ann@x'' ''password1'') sample_world = (Issued tp1, w1)"
      "answer_auth ?s (ReqLogout ''u-ann'') w1 = (Logged_out, w2)"
      "answer_auth ?s (ReqLogin ''Ann@x'' ''password1'') w2 = (Issued tp2, w3)"
    and live: "live_value (w_keys w3) (w_wall w3) (accessKey (AccessToken tp2)) = Some ''u-ann''"
      "w_wall (pass sample_env w3) < w_wall w2 + 1000"
    unfolding s by (elim exE conjE) (rule that)
  note r1 = auth_run.request[OF auth_run.fresh h(1)]
  note r2 = auth_run.request[OF r1 h(2)]
  note r3 = auth_run.request[OF r2 h(3)]
  from r2 r3 h(3) live show ?thesis
    unfolding s by (intro exI[of _ tp1] exI[of _ w2] exI[of _ tp2] exI[of _ w3]) simp
qed



end
