(* ===== verification/Client_Reader.thy ===== *)
theory Client_Reader
  imports Websocket Middleware Client_Writer
begin

text \<open>
  \<open>ReadPump\<close> of \<open>internal/delivery/websocket/client.go\<close> on its connection: the limit on the size of a
  message, the deadline that only a pong moves, and the limiter of the client. What arrives is a list
  with the times at which the reader takes each item; the result is the list of frames the loop over
  \<open>read_frame\<close> works on, and what the reader leaves behind.
\<close>

section \<open>What arrives\<close>

text \<open>
  A pong, a message with its size in bytes and its JSON value (\<open>None\<close>: not JSON), or the end of the
  connection. \<open>ReadMessage\<close> fails from the deadline on, and on a message above the limit.
\<close>

datatype incoming = Pong | Message nat "json option" | Failure

definition maxMessageSize :: nat where "maxMessageSize = 5120"

text \<open>\<open>rate.NewLimiter(rate.Every(200*time.Millisecond), 5)\<close>: one frame per 200 ms.\<close>

definition client_limiter :: "'l rate_lib \<Rightarrow> 'l" where
  "client_limiter lib = NewLimiter lib (1, 200 * 1000000) 5"

fun frames_read :: "'l rate_lib \<Rightarrow> time \<Rightarrow> 'l \<Rightarrow> (time \<times> incoming) list \<Rightarrow> (bool \<times> json option) list" where
  "frames_read lib until limiter [] = []"
| "frames_read lib until limiter ((now, x) # xs) =
     (if until \<le> now then []
      else case x of
        Failure \<Rightarrow> []
      | Pong \<Rightarrow> frames_read lib (now + pongWait) limiter xs
      | Message bytes message \<Rightarrow>
          if maxMessageSize < bytes then []
          else case Allow lib limiter now of
            (ok, limiter1) \<Rightarrow> (ok, message) # frames_read lib until limiter1 xs)"

text \<open>
  The whole of \<open>ReadPump\<close>, started at \<open>now\<close>: what it hands to the hub over its life, after which it
  unregisters the client and closes the connection.
\<close>

definition ReadPump_conn ::
  "'l rate_lib \<Rightarrow> (send_message_input \<Rightarrow> ('w, err + message) io) option \<Rightarrow> (time \<Rightarrow> string) \<Rightarrow> cid \<Rightarrow> client \<Rightarrow>
   time \<Rightarrow> (time \<times> incoming) list \<Rightarrow> ('w, broadcast list) io" where
  "ReadPump_conn lib sender fmt self c now arrivals w =
     ReadPump sender fmt self c (frames_read lib (now + pongWait) (client_limiter lib) arrivals) w"

section \<open>Keeping the connection\<close>

fun messages_in :: "(time \<times> incoming) list \<Rightarrow> json option list" where
  "messages_in [] = []"
| "messages_in ((t, x) # xs) = (case x of Message n m \<Rightarrow> m # messages_in xs | _ \<Rightarrow> messages_in xs)"

text \<open>A peer that respects the limit and stays connected, and one that answers the pings of the writer.\<close>

definition well_behaved :: "(time \<times> incoming) list \<Rightarrow> bool" where
  "well_behaved arrivals \<longleftrightarrow> sorted (map fst arrivals) \<and>
     (\<forall>(t, x) \<in> set arrivals. case x of Failure \<Rightarrow> False | Message n _ \<Rightarrow> n \<le> maxMessageSize | Pong \<Rightarrow> True)"

definition answers_pings :: "time \<Rightarrow> duration \<Rightarrow> (time \<times> incoming) list \<Rightarrow> bool" where
  "answers_pings start delay arrivals \<longleftrightarrow>
     (\<forall>k t x. (t, x) \<in> set arrivals \<longrightarrow> start + pingPeriod * int (Suc k) + delay \<le> t \<longrightarrow>
        (\<exists>p. (p, Pong) \<in> set arrivals \<and> start + pingPeriod * int (Suc k) \<le> p \<and>
             p < start + pingPeriod * int (Suc k) + delay))"

lemma periods [simp]: "pongWait = 60000000000" "pingPeriod = 54000000000" "writeWait = 10000000000"
  by (simp_all add: pongWait_def pingPeriod_def writeWait_def)

lemma before_deadline:
  assumes "answers_pings start (6 * second) (ys @ (t, x) # xs)" and "well_behaved (ys @ (t, x) # xs)"
    and "start \<le> p" and "\<forall>q. (q, Pong) \<in> set ys \<longrightarrow> q \<le> p"
  shows "t < p + pongWait"
proof (rule ccontr)
  assume late: "\<not> t < p + pongWait"
  define k where "k = nat ((p - start) div pingPeriod)"
  have k: "start + pingPeriod * int k \<le> p" "p < start + pingPeriod * int (Suc k)"
    using assms(3) by (simp_all add: k_def) linarith+
  have "start + pingPeriod * int (Suc k) + 6 * second \<le> t" using late k by simp
  with assms(1) obtain q where q: "(q, Pong) \<in> set (ys @ (t, x) # xs)"
    "start + pingPeriod * int (Suc k) \<le> q" "q < start + pingPeriod * int (Suc k) + 6 * second"
    unfolding answers_pings_def by (metis in_set_conv_decomp)
  have "p < q" using k q by simp
  with assms(4) q(1) have "(q, Pong) \<in> set ((t, x) # xs)" by force
  with assms(2) have "t \<le> q" by (auto simp: well_behaved_def sorted_append)
  with q(3) \<open>start + pingPeriod * int (Suc k) + 6 * second \<le> t\<close> show False by simp
qed

lemma frames_read_all:
  assumes "answers_pings start (6 * second) (ys @ xs)" and "well_behaved (ys @ xs)"
    and "start \<le> p" and "\<forall>q. (q, Pong) \<in> set ys \<longrightarrow> q \<le> p" and "\<forall>q y. (q, y) \<in> set xs \<longrightarrow> start \<le> q"
  shows "map snd (frames_read lib (p + pongWait) l xs) = messages_in xs"
  using assms
proof (induction xs arbitrary: ys p l)
  case (Cons a xs)
  obtain t x where a: "a = (t, x)" by fastforce
  have t: "t < p + pongWait" using before_deadline[of start ys t x xs p] Cons.prems by (simp add: a)
  have nxt: "answers_pings start (6 * second) ((ys @ [a]) @ xs)" "well_behaved ((ys @ [a]) @ xs)"
    using Cons.prems(1,2) by simp_all
  have sorted: "\<forall>q y. (q, y) \<in> set ys \<longrightarrow> q \<le> t"
    using Cons.prems(2) by (force simp: well_behaved_def sorted_append a)
  show ?case
  proof (cases x)
    case Pong
    from Cons.IH[OF nxt, of t] Cons.prems(5) sorted
    have "map snd (frames_read lib (t + pongWait) l xs) = messages_in xs" by (auto simp: a Pong)
    with t show ?thesis by (simp add: a Pong)
  next
    case (Message n m)
    obtain ok l1 where "Allow lib l t = (ok, l1)" by fastforce
    moreover have "n \<le> maxMessageSize" using Cons.prems(2) by (simp add: well_behaved_def a Message)
    moreover have "map snd (frames_read lib (p + pongWait) l1 xs) = messages_in xs"
      using Cons.IH[OF nxt, of p l1] Cons.prems(3-5) by (auto simp: a Message)
    ultimately show ?thesis using t by (simp add: a Message)
  next
    case Failure
    with Cons.prems(2) show ?thesis by (simp add: well_behaved_def a)
  qed
qed simp

text \<open>A peer that answers no ping is cut off after 60 s, whatever else it sends: messages do not count.\<close>

lemma silent_peer_cut:
  "\<forall>a \<in> set arrivals. snd a \<noteq> Pong \<Longrightarrow>
   frames_read lib until limiter arrivals
     = frames_read lib until limiter (takeWhile (\<lambda>a. fst a < until) arrivals)"
  by (induction arrivals arbitrary: limiter) (auto split: incoming.splits prod.splits)

text \<open>
  C24: Answering pings keeps a connection: if the peer stays connected, sends no message of more than
  5120 bytes, and answers each ping of the writer (one every 54 s) within 6 s, then the reader reads
  every message it sends, in order, for as long as it does: the deadline never cuts it off.
\<close>

theorem answered_pings_keep_connection:
  assumes "well_behaved arrivals" and "\<forall>a \<in> set arrivals. start \<le> fst a"
    and "answers_pings start (6 * second) arrivals"
  shows "\<exists>allowed. length allowed = length (messages_in arrivals) \<and>
    ReadPump_conn lib sender fmt self c start arrivals w
      = ReadPump sender fmt self c (zip allowed (messages_in arrivals)) w"
proof -
  let ?fs = "frames_read lib (start + pongWait) (client_limiter lib) arrivals"
  have "\<forall>q y. (q, y) \<in> set arrivals \<longrightarrow> start \<le> q" using assms(2) by force
  with frames_read_all[of start "[]" arrivals start lib "client_limiter lib"] assms(1,3)
  have "map snd ?fs = messages_in arrivals" by simp
  moreover from this have "length ?fs = length (messages_in arrivals)" by (metis length_map)
  ultimately have "?fs = zip (map fst ?fs) (messages_in arrivals)" "length ?fs = length (messages_in arrivals)"
    by (metis zip_map_fst_snd, simp)
  then show ?thesis by (intro exI[of _ "map fst ?fs"]) (simp add: ReadPump_conn_def)
qed

definition sample_arrivals :: "(time \<times> incoming) list" where
  "sample_arrivals = [(55 * second, Pong), (100 * second, Message 20 None)]"

theorem answered_pings_keep_connection_witness:
  "\<exists>allowed. ReadPump_conn \<lparr>NewLimiter = (\<lambda>r b. b), Allow = (\<lambda>b t. (0 < b, b - 1))\<rparr> None (\<lambda>t. []) 0
       (NewClient ''u-ann'' [''r1''] ''ann'') 0 sample_arrivals (0::nat)
     = ReadPump None (\<lambda>t. []) 0 (NewClient ''u-ann'' [''r1''] ''ann'') [(allowed, None)] 0"
proof -
  have a: "well_behaved sample_arrivals" "\<forall>a \<in> set sample_arrivals. 0 \<le> fst a"
    by (simp_all add: well_behaved_def sample_arrivals_def maxMessageSize_def)
  have "54 * int k \<le> 1" if "27 * int k \<le> 20" for k using that by presburger
  then have b: "answers_pings 0 (6 * second) sample_arrivals"
    by (auto simp: answers_pings_def sample_arrivals_def)
  from answered_pings_keep_connection[OF a b, of "\<lparr>NewLimiter = (\<lambda>r b. b), Allow = (\<lambda>b t. (0 < b, b - 1))\<rparr>"
      None "\<lambda>t. []" 0 "NewClient ''u-ann'' [''r1''] ''ann''" "0::nat"]
  show ?thesis by (auto simp: sample_arrivals_def length_Suc_conv)
qed

end
