(* ===== verification/Go_Url.thy ===== *)
theory Go_Url
  imports Go_Strings
begin

text \<open>
  What the program uses of \<open>net/url\<close>: the escaping of query components and its inverse, which
  is also the decoding of the user information of a URL, the query values, and the host name of a
  parsed URL. The parser and the printer of whole URLs are the fields of \<open>url_lib\<close>.
\<close>

section \<open>Escaping\<close>

definition hex_digit :: "nat \<Rightarrow> char" where
  "hex_digit n = char_of (if n < 10 then 48 + n else 55 + n)"

definition hex_val :: "char \<Rightarrow> nat option" where
  "hex_val c =
     (let b = (of_char c :: nat)
      in if b \<in> {48..57} then Some (b - 48) else if b \<in> {65..70} then Some (b - 55)
         else if b \<in> {97..102} then Some (b - 87) else None)"

text \<open>The bytes that \<open>shouldEscape\<close> leaves alone in a query component.\<close>

definition unreserved :: "char \<Rightarrow> bool" where
  "unreserved c \<longleftrightarrow>
     (let b = (of_char c :: nat)
      in b \<in> {48..57} \<or> b \<in> {65..90} \<or> b \<in> {97..122} \<or> c \<in> set ''-_.~'')"

definition escape_byte :: "char \<Rightarrow> string" where
  "escape_byte c =
     (if unreserved c then [c] else if c = CHR '' '' then ''+''
      else [CHR ''%'', hex_digit (of_char c div 16), hex_digit (of_char c mod 16)])"

definition QueryEscape :: "string \<Rightarrow> string" where
  "QueryEscape s = concat (map escape_byte s)"

text \<open>
  \<open>unescape\<close>: a \<open>+\<close> stands for a space in a query component (\<open>form\<close>) and for itself in
  the user information.
\<close>

fun unescape :: "bool \<Rightarrow> string \<Rightarrow> string option" where
  "unescape form [] = Some []"
| "unescape form (c # cs) =
     (if c = CHR ''%'' then
        (case cs of
           h # l # rest \<Rightarrow>
             (case (hex_val h, hex_val l) of
                (Some a, Some b) \<Rightarrow> map_option ((#) (char_of (16 * a + b))) (unescape form rest)
              | _ \<Rightarrow> None)
         | _ \<Rightarrow> None)
      else map_option ((#) (if form \<and> c = CHR ''+'' then CHR '' '' else c)) (unescape form cs))"

abbreviation QueryUnescape :: "string \<Rightarrow> string option" where
  "QueryUnescape \<equiv> unescape True"

lemma hex_val_digit: "n < 16 \<Longrightarrow> hex_val (hex_digit n) = Some n"
  by (auto simp: hex_val_def hex_digit_def Let_def)

lemma high_nibble: "(of_char c :: nat) div 16 < 16"
proof -
  have "(of_char c :: nat) = of_char c mod 256" by simp
  then have "(of_char c :: nat) < 256" by (metis mod_less_divisor zero_less_numeral)
  then show ?thesis by (simp add: less_mult_imp_div_less)
qed

lemma low_nibble: "(of_char c :: nat) mod 16 < 16" by simp

lemma hex_digit_unreserved: "n < 16 \<Longrightarrow> unreserved (hex_digit n)"
  by (auto simp: unreserved_def hex_digit_def Let_def)

lemma unreserved_plain: "unreserved c \<Longrightarrow> c \<noteq> CHR ''%'' \<and> c \<noteq> CHR ''+''"
  by (auto simp: unreserved_def Let_def)

definition reads_back :: "bool \<Rightarrow> char \<Rightarrow> char" where
  "reads_back form c = (if c = CHR '' '' \<and> \<not> form then CHR ''+'' else c)"

lemma unescape_escaped_byte:
  "unescape form (escape_byte c @ s) = map_option ((#) (reads_back form c)) (unescape form s)"
proof (cases "unreserved c \<or> c = CHR '' ''")
  case True
  then show ?thesis
    by (auto simp: escape_byte_def reads_back_def dest: unreserved_plain) (simp_all add: unreserved_def)
next
  case False
  then show ?thesis by (simp add: escape_byte_def reads_back_def hex_val_digit high_nibble)
qed

lemma unescape_QueryEscape: "unescape form (QueryEscape s) = Some (map (reads_back form) s)"
  by (induction s) (simp_all add: QueryEscape_def unescape_escaped_byte)

lemma QueryUnescape_Escape [simp]: "QueryUnescape (QueryEscape s) = Some s"
proof -
  have "map (reads_back True) s = s" by (simp add: reads_back_def map_idI)
  then show ?thesis by (simp add: unescape_QueryEscape)
qed

lemma QueryEscape_safe: "c \<in> set (QueryEscape s) \<Longrightarrow> unreserved c \<or> c = CHR ''%'' \<or> c = CHR ''+''"
proof (induction s)
  case (Cons x s)
  have "c \<in> set (escape_byte x) \<Longrightarrow> unreserved c \<or> c = CHR ''%'' \<or> c = CHR ''+''"
    using hex_digit_unreserved[OF high_nibble[of x]] hex_digit_unreserved[OF low_nibble[of x]]
    by (auto simp: escape_byte_def simp del: char_of_nat split: if_splits)
  with Cons show ?case by (auto simp: QueryEscape_def)
qed (simp add: QueryEscape_def)

lemma QueryEscape_no_delimiter: "c \<in> set ''/:@?#&=;'' \<Longrightarrow> c \<notin> set (QueryEscape s)"
  by (auto dest!: QueryEscape_safe simp: unreserved_def)

section \<open>Query values\<close>

text \<open>
  \<open>url.Values\<close> as the list of its pairs; the values of one key are in the order in which they
  were added, and the order among the keys means nothing.
\<close>

type_synonym url_values = "(string \<times> string) list"

definition all_of :: "url_values \<Rightarrow> string \<Rightarrow> string list" where
  "all_of q k = map snd (filter (\<lambda>p. fst p = k) q)"

definition Values_Get :: "url_values \<Rightarrow> string \<Rightarrow> string" where
  "Values_Get q k = (case all_of q k of [] \<Rightarrow> [] | v # _ \<Rightarrow> v)"

definition Values_Set :: "string \<Rightarrow> string \<Rightarrow> url_values \<Rightarrow> url_values" where
  "Values_Set k v q = filter (\<lambda>p. fst p \<noteq> k) q @ [(k, v)]"

text \<open>\<open>strings.Cut\<close>, whose third result the code ignores.\<close>

definition cut_at :: "char \<Rightarrow> string \<Rightarrow> string \<times> string" where
  "cut_at c s = (takeWhile (\<lambda>x. x \<noteq> c) s, tl (dropWhile (\<lambda>x. x \<noteq> c) s))"

definition query_pair :: "string \<Rightarrow> (string \<times> string) option" where
  "query_pair part =
     (if CHR '';'' \<in> set part \<or> part = [] then None
      else case cut_at (CHR ''='') part of
        (k, v) \<Rightarrow> (case (QueryUnescape k, QueryUnescape v) of
                    (Some k', Some v') \<Rightarrow> Some (k', v') | _ \<Rightarrow> None))"

definition ParseQuery :: "string \<Rightarrow> url_values" where
  "ParseQuery s = List.map_filter query_pair (split_on (CHR ''&'') s)"

fun join_with :: "char \<Rightarrow> string list \<Rightarrow> string" where
  "join_with c [] = []"
| "join_with c [s] = s"
| "join_with c (s # t # ss) = s @ c # join_with c (t # ss)"

definition query_part :: "string \<times> string \<Rightarrow> string" where
  "query_part p = QueryEscape (fst p) @ CHR ''='' # QueryEscape (snd p)"

text \<open>\<open>Encode\<close> goes through the keys in their order and, for each, through its values.\<close>

definition Values_Encode :: "url_values \<Rightarrow> string" where
  "Values_Encode q = join_with (CHR ''&'') (map query_part (sort_key fst q))"

lemma cut_at_append: "c \<notin> set a \<Longrightarrow> cut_at c (a @ c # b) = (a, b)"
  by (simp add: cut_at_def takeWhile_append dropWhile_append)

lemma split_on_join:
  "ss \<noteq> [] \<Longrightarrow> (\<forall>s \<in> set ss. c \<notin> set s) \<Longrightarrow> split_on c (join_with c ss) = ss"
  by (induction c ss rule: join_with.induct) (auto simp: split_on_none split_on_append)

lemma query_pair_part [simp]: "query_pair (query_part p) = Some p"
  using QueryEscape_no_delimiter[of "CHR '';''"] QueryEscape_no_delimiter[of "CHR ''=''"]
  by (simp add: query_pair_def query_part_def cut_at_append)

lemma map_filter_parts: "List.map_filter query_pair (map query_part ps) = ps"
  by (induction ps) (simp_all add: List.map_filter_simps)

lemma ParseQuery_Encode: "ParseQuery (Values_Encode q) = sort_key fst q"
proof (cases "sort_key fst q = []")
  case True
  then show ?thesis by (simp add: ParseQuery_def Values_Encode_def query_pair_def List.map_filter_simps)
next
  case False
  have "split_on (CHR ''&'') (Values_Encode q) = map query_part (sort_key fst q)"
    unfolding Values_Encode_def
    by (rule split_on_join)
      (use False QueryEscape_no_delimiter[of "CHR ''&''"] in \<open>auto simp: query_part_def\<close>)
  then show ?thesis by (simp add: ParseQuery_def map_filter_parts)
qed

text \<open>No value of any key is lost or changed by an encoding.\<close>

lemma all_of_Encode [simp]: "all_of (ParseQuery (Values_Encode q)) k = all_of q k"
  by (simp add: ParseQuery_Encode all_of_def sort_key_stable)

lemma all_of_Set: "all_of (Values_Set k v q) j = (if j = k then [v] else all_of q j)"
proof -
  have "filter (\<lambda>p. fst p = j \<and> fst p \<noteq> k) q = (if j = k then [] else filter (\<lambda>p. fst p = j) q)"
    by (auto simp: filter_empty_conv intro: filter_cong)
  then show ?thesis by (simp add: all_of_def Values_Set_def conj_commute split: if_splits)
qed

section \<open>Parsed URLs\<close>

record userinfo =
  ui_Username :: string
  ui_Password :: "string option"

record 'r url =
  u_User :: "userinfo option"
  u_Host :: string
  u_RawQuery :: string
  u_rest :: 'r

record 'r url_lib =
  url_Parse :: "string \<Rightarrow> 'r url option"
  url_String :: "'r url \<Rightarrow> string"

definition all_digits :: "string \<Rightarrow> bool" where
  "all_digits s = list_all (\<lambda>c. digit_val c \<noteq> None) s"

text \<open>\<open>Hostname\<close>: the host without its port and without the brackets of an IPv6 address.\<close>

definition strip_port :: "string \<Rightarrow> string" where
  "strip_port host =
     (let back = takeWhile (\<lambda>c. c \<noteq> CHR '':'') (rev host)
      in if CHR '':'' \<in> set host \<and> all_digits back
         then take (length host - length back - 1) host else host)"

definition Hostname :: "'r url \<Rightarrow> string" where
  "Hostname u =
     (let h = strip_port (u_Host u)
      in if h \<noteq> [] \<and> hd h = CHR ''['' \<and> last h = CHR '']'' then butlast (tl h) else h)"

text \<open>
  What the parser does with the start of a URL whose scheme has been taken off: the authority ends
  at the first of \<open>/\<close>, \<open>?\<close> and \<open>#\<close>, the user information at its last \<open>@\<close>, the
  user name at the first \<open>:\<close>; both halves are decoded with \<open>+\<close> standing for itself.
\<close>

definition before_last :: "char \<Rightarrow> string \<Rightarrow> string" where
  "before_last c s = rev (tl (dropWhile (\<lambda>x. x \<noteq> c) (rev s)))"

definition credentials_of :: "string \<Rightarrow> (string \<times> string) option" where
  "credentials_of rest =
     (let authority = takeWhile (\<lambda>c. c \<notin> set ''/?#'') rest;
          (user, pass) = cut_at (CHR '':'') (before_last (CHR ''@'') authority)
      in case (unescape False user, unescape False pass) of
           (Some u, Some p) \<Rightarrow> Some (u, p) | _ \<Rightarrow> None)"

lemma before_last_append: "c \<notin> set b \<Longrightarrow> before_last c (a @ c # b) = a"
  by (simp add: before_last_def dropWhile_append)

end
