(* ===== verification/Config.thy ===== *)
theory Config
  imports Go_Url Go_Duration
begin

text \<open>
  \<open>internal/config/config.go\<close>: the configuration of the process, read from its environment
  variables. A \<open>process\<close> is what the code reads it through: the environment, the parser of URLs
  and the float arithmetic of durations.
\<close>

record 'r process =
  ps_LookupEnv :: "string \<Rightarrow> string option"
  ps_fraction :: "int \<Rightarrow> int \<Rightarrow> int \<Rightarrow> int"
  ps_url :: "'r url_lib"

definition Getenv :: "'r process \<Rightarrow> string \<Rightarrow> string" where
  "Getenv P key = (case ps_LookupEnv P key of None \<Rightarrow> [] | Some v \<Rightarrow> v)"

section \<open>The sections of the configuration\<close>

record http_config =
  htc_Host :: string
  htc_Port :: string

record websocket_config =
  wsc_Host :: string
  wsc_Port :: string

record postgres_config =
  pgc_DSN :: string

record redis_config =
  rdc_Addr :: string
  rdc_Password :: string

record jwt_config =
  jwc_AccessSecret :: string
  jwc_AccessTTL :: duration
  jwc_RefreshSecret :: string
  jwc_RefreshTTL :: duration

record rate_limit_config =
  rtc_Requests :: int
  rtc_Burst :: int
  rtc_Window :: duration

record config =
  cfg_AppEnv :: string
  cfg_HTTP :: http_config
  cfg_Websocket :: websocket_config
  cfg_Postgres :: postgres_config
  cfg_Redis :: redis_config
  cfg_JWT :: jwt_config
  cfg_RateLimit :: rate_limit_config

definition http_Address :: "http_config \<Rightarrow> string" where
  "http_Address c = htc_Host c @ '':'' @ htc_Port c"

definition websocket_Address :: "websocket_config \<Rightarrow> string" where
  "websocket_Address c = wsc_Host c @ '':'' @ wsc_Port c"

datatype config_error = InvalidDuration string | InvalidInteger string

section \<open>Reading variables\<close>

definition getEnv :: "'r process \<Rightarrow> string \<Rightarrow> string \<Rightarrow> string" where
  "getEnv P key fallback =
     (case ps_LookupEnv P key of
        Some v \<Rightarrow> if v \<noteq> [] then v else fallback
      | None \<Rightarrow> fallback)"

definition parseDurationEnv :: "'r process \<Rightarrow> string \<Rightarrow> string \<Rightarrow> config_error + duration" where
  "parseDurationEnv P key fallback =
     (case ParseDuration (ps_fraction P) (getEnv P key fallback) of
        None \<Rightarrow> Inl (InvalidDuration key)
      | Some d \<Rightarrow> Inr d)"

definition parseIntEnv :: "'r process \<Rightarrow> string \<Rightarrow> int \<Rightarrow> config_error + int" where
  "parseIntEnv P key fallback =
     (case Atoi (getEnv P key (format_d fallback)) of
        None \<Rightarrow> Inl (InvalidInteger key)
      | Some i \<Rightarrow> if i < 0 then Inl (InvalidInteger key) else Inr i)"

definition local_host :: "string \<Rightarrow> bool" where
  "local_host host \<longleftrightarrow> host = ''localhost'' \<or> host = ''127.0.0.1''"

definition ensureSSLMode :: "'r url_lib \<Rightarrow> string \<Rightarrow> string" where
  "ensureSSLMode U dsn =
     (case url_Parse U dsn of
        None \<Rightarrow> dsn
      | Some u \<Rightarrow>
          let q = ParseQuery (u_RawQuery u);
              ssl = (if local_host (Hostname u) \<or> has_prefix ''unix:'' (Hostname u)
                     then ''disable'' else ''require'')
          in url_String U
               (if Values_Get q ''sslmode'' = []
                then u\<lparr>u_RawQuery := Values_Encode (Values_Set ''sslmode'' ssl q)\<rparr> else u))"

text \<open>The DSN put together from its parts, when \<open>POSTGRES_DSN\<close> is empty.\<close>

definition postgres_user :: "'r process \<Rightarrow> string" where
  "postgres_user P = getEnv P ''POSTGRES_USER'' ''chatterstack''"

definition postgres_pass :: "'r process \<Rightarrow> string" where
  "postgres_pass P =
     (let pass = Getenv P ''POSTGRES_PASSWORD''
      in if pass = [] then getEnv P ''POSTGRES_PASSWORD'' ''chatterstack'' else pass)"

definition built_DSN :: "'r process \<Rightarrow> string" where
  "built_DSN P =
     (let host = getEnv P ''POSTGRES_HOST'' ''localhost'';
          db = getEnv P ''POSTGRES_DB'' ''chatterstack'';
          mode = getEnv P ''POSTGRES_SSLMODE'' [];
          sslmode = (if mode = [] then if local_host host then ''disable'' else ''require'' else mode)
      in ''postgres://'' @ QueryEscape (postgres_user P) @ '':'' @ QueryEscape (postgres_pass P) @
         ''@'' @ host @ '':5432/'' @ db @ ''?sslmode='' @ sslmode)"

definition load_postgres :: "'r process \<Rightarrow> postgres_config" where
  "load_postgres P =
     (let dsn = Getenv P ''POSTGRES_DSN''
      in \<lparr>pgc_DSN = (if dsn \<noteq> [] then ensureSSLMode (ps_url P) dsn else built_DSN P)\<rparr>)"

definition load_ttls :: "'r process \<Rightarrow> config_error + duration \<times> duration" where
  "load_ttls P =
     (case parseDurationEnv P ''JWT_ACCESS_TTL'' ''1h'' of
        Inl e \<Rightarrow> Inl e
      | Inr accessTTL \<Rightarrow>
          (case parseDurationEnv P ''JWT_REFRESH_TTL'' ''168h'' of
             Inl e \<Rightarrow> Inl e
           | Inr refreshTTL \<Rightarrow> Inr (accessTTL, refreshTTL)))"

definition load_rate_limit :: "'r process \<Rightarrow> config_error + rate_limit_config" where
  "load_rate_limit P =
     (case parseIntEnv P ''RATE_LIMIT_REQUESTS'' 100 of
        Inl e \<Rightarrow> Inl e
      | Inr requests \<Rightarrow>
          (case parseIntEnv P ''RATE_LIMIT_BURST'' requests of
             Inl e \<Rightarrow> Inl e
           | Inr burst \<Rightarrow>
               (case parseDurationEnv P ''RATE_LIMIT_WINDOW'' ''1m'' of
                  Inl e \<Rightarrow> Inl e
                | Inr window \<Rightarrow>
                    Inr \<lparr>rtc_Requests = requests, rtc_Burst = burst, rtc_Window = window\<rparr>)))"

definition Load :: "'r process \<Rightarrow> config_error + config" where
  "Load P =
     (case load_ttls P of
        Inl e \<Rightarrow> Inl e
      | Inr (accessTTL, refreshTTL) \<Rightarrow>
          (case load_rate_limit P of
             Inl e \<Rightarrow> Inl e
           | Inr limit \<Rightarrow>
               Inr \<lparr>cfg_AppEnv = getEnv P ''APP_ENV'' ''development'',
                    cfg_HTTP = \<lparr>htc_Host = getEnv P ''HTTP_HOST'' ''0.0.0.0'',
                                htc_Port = getEnv P ''HTTP_PORT'' ''8080''\<rparr>,
                    cfg_Websocket = \<lparr>wsc_Host = getEnv P ''WEBSOCKET_HOST'' ''0.0.0.0'',
                                     wsc_Port = getEnv P ''WEBSOCKET_PORT'' ''8081''\<rparr>,
                    cfg_Postgres = load_postgres P,
                    cfg_Redis = \<lparr>rdc_Addr = getEnv P ''REDIS_ADDR'' ''localhost:6379'',
                                 rdc_Password = Getenv P ''REDIS_PASSWORD''\<rparr>,
                    cfg_JWT = \<lparr>jwc_AccessSecret = getEnv P ''JWT_ACCESS_SECRET'' ''change-me'',
                               jwc_AccessTTL = accessTTL,
                               jwc_RefreshSecret = getEnv P ''JWT_REFRESH_SECRET'' ''change-me-too'',
                               jwc_RefreshTTL = refreshTTL\<rparr>,
                    cfg_RateLimit = limit\<rparr>))"

end
