(* ===== verification/Startup.thy ===== *)
theory Startup
  imports Config Middleware
begin

text \<open>
  What \<open>cmd/server/main.go\<close> does before it serves: the choice of the server, the limiter made
  from the configuration, the DSN written to the log and the loops that wait for Postgres and Redis.
\<close>

section \<open>The mode\<close>

datatype started = ServeAPI config | ServeWebsocket config | ConfigLoadError config_error | UnknownMode string

definition main :: "string \<Rightarrow> 'r process \<Rightarrow> started" where
  "main mode P =
     (case Load P of
        Inl e \<Rightarrow> ConfigLoadError e
      | Inr cfg \<Rightarrow>
          if mode = ''api'' then ServeAPI cfg
          else if mode = ''websocket'' then ServeWebsocket cfg
          else UnknownMode mode)"

definition api_limiter :: "config \<Rightarrow> 'l rate_limiter" where
  "api_limiter cfg =
     RateLimit \<lparr>rlc_Requests = rtc_Requests (cfg_RateLimit cfg), rlc_Window = rtc_Window (cfg_RateLimit cfg),
                rlc_Burst = rtc_Burst (cfg_RateLimit cfg)\<rparr>"

section \<open>The DSN in the log\<close>

definition mask_user :: "userinfo \<Rightarrow> userinfo" where
  "mask_user ui =
     (if ui_Password ui \<noteq> None then \<lparr>ui_Username = ui_Username ui, ui_Password = Some ''****''\<rparr>
      else \<lparr>ui_Username = ui_Username ui, ui_Password = None\<rparr>)"

definition maskDSN :: "'r url_lib \<Rightarrow> string \<Rightarrow> string \<times> string" where
  "maskDSN U dsn =
     (case url_Parse U dsn of
        None \<Rightarrow> (dsn, [])
      | Some u \<Rightarrow>
          let ssl = Values_Get (ParseQuery (u_RawQuery u)) ''sslmode'';
              masked = (case u_User u of None \<Rightarrow> u | Some ui \<Rightarrow> u\<lparr>u_User := Some (mask_user ui)\<rparr>)
          in (url_String U masked, ssl))"

section \<open>Waiting for a dependency\<close>

text \<open>
  The four background loops, from their \<open>n\<close>-th round on: \<open>cancelled n\<close> says whether the context
  is done when the round starts, \<open>alive n\<close> whether its ping succeeds. The result is whether the
  loop ended by a successful ping, and the naps it took. It need not end.
\<close>

partial_function (option) ping_loop ::
  "(nat \<Rightarrow> bool) \<Rightarrow> (nat \<Rightarrow> bool) \<Rightarrow> nat \<Rightarrow> duration \<Rightarrow> (bool \<times> duration list) option" where
  "ping_loop cancelled alive n backoff =
     (if cancelled n then Some (False, [])
      else if alive n then Some (True, [])
      else Option.bind
             (ping_loop cancelled alive (Suc n) (if backoff < 10 * second then backoff * 2 else backoff))
             (\<lambda>(ready, naps). Some (ready, backoff # naps)))"

definition wait_for :: "(nat \<Rightarrow> bool) \<Rightarrow> (nat \<Rightarrow> bool) \<Rightarrow> (bool \<times> duration list) option" where
  "wait_for cancelled alive = ping_loop cancelled alive 0 second"

definition nap :: "nat \<Rightarrow> duration" where
  "nap i = second * min (2 ^ i) 16"

lemma nap_0 [simp]: "nap 0 = second" by (simp add: nap_def)

lemma nap_Suc: "(if nap i < 10 * second then nap i * 2 else nap i) = nap (Suc i)"
proof (cases "i < 4")
  case True
  then consider "i = 0" | "i = 1" | "i = 2" | "i = 3" by linarith
  then show ?thesis by cases (simp_all add: nap_def)
next
  case False
  then have "(2::int) ^ 4 \<le> 2 ^ i" "(2::int) ^ 4 \<le> 2 ^ Suc i" by (intro power_increasing; simp)+
  then show ?thesis by (simp add: nap_def min_def)
qed

lemma ping_loop_ends:
  assumes "stop k" and "\<And>i. n \<le> i \<Longrightarrow> i < k \<Longrightarrow> \<not> stop i" and "n \<le> k"
    and "stop = (\<lambda>i. cancelled i \<or> alive i)"
  shows "ping_loop cancelled alive n (nap n) = Some (\<not> cancelled k, map nap [n..<k])"
  using assms(2,3)
proof (induction "k - n" arbitrary: n)
  case 0
  with assms(1,4) show ?case by (subst ping_loop.simps) auto
next
  case (Suc j)
  then have "\<not> stop n" "n < k" by auto
  moreover have "ping_loop cancelled alive (Suc n) (nap (Suc n)) = Some (\<not> cancelled k, map nap [Suc n..<k])"
    using Suc by (intro Suc.hyps(1)) auto
  ultimately show ?case
    using assms(4) by (subst ping_loop.simps) (simp add: nap_Suc[symmetric] upt_conv_Cons del: upt_Suc)
qed

lemma ping_loop_stops:
  "ping_loop cancelled alive n b = Some r \<Longrightarrow> \<exists>k \<ge> n. cancelled k \<or> alive k"
proof (induction rule: ping_loop.raw_induct[rotated 1, consumes 1])
  case (1 loop cancelled alive n b r)
  show ?case
  proof (cases "cancelled n \<or> alive n")
    case False
    with 1(2) obtain r' where "loop cancelled alive (Suc n) (if b < 10 * second then b * 2 else b) = Some r'"
      by (auto simp: bind_eq_Some_conv)
    from 1(1)[OF this] show ?thesis using Suc_leD by blast
  qed blast
qed

end
