(* ===== verification/Servers.thy ===== *)
theory Servers
  imports Startup Http_Properties Websocket
begin

text \<open>
  The life of a server process in \<open>cmd/server/main.go\<close>: from the configuration to the connection pool,
  the HTTP server, the wait for a signal or a failure, and the exit status. What the libraries answer
  (\<open>pgxpool\<close>, \<open>net/http\<close>) is a parameter; the services and routes a server is made of are those of
  \<open>startAPIServer\<close> and \<open>serve_ws\<close>.
\<close>

section \<open>The HTTP servers\<close>

record http_server =
  hs_Addr :: string
  hs_ReadTimeout :: duration
  hs_WriteTimeout :: duration
  hs_IdleTimeout :: duration

definition api_http_server :: "config \<Rightarrow> http_server" where
  "api_http_server cfg =
     \<lparr>hs_Addr = http_Address (cfg_HTTP cfg), hs_ReadTimeout = 15 * second,
      hs_WriteTimeout = 15 * second, hs_IdleTimeout = 60 * second\<rparr>"

definition websocket_http_server :: "config \<Rightarrow> http_server" where
  "websocket_http_server cfg =
     \<lparr>hs_Addr = websocket_Address (cfg_Websocket cfg), hs_ReadTimeout = 15 * second,
      hs_WriteTimeout = 15 * second, hs_IdleTimeout = 60 * second\<rparr>"

text \<open>The Redis client is made from the address and the password only.\<close>

record redis_options =
  ro_Addr :: string
  ro_Password :: string

definition redis_options_of :: "config \<Rightarrow> redis_options" where
  "redis_options_of cfg = \<lparr>ro_Addr = rdc_Addr (cfg_Redis cfg), ro_Password = rdc_Password (cfg_Redis cfg)\<rparr>"

text \<open>The first line a server logs.\<close>

definition dsn_log :: "'r url_lib \<Rightarrow> config \<Rightarrow> string" where
  "dsn_log U cfg =
     (case maskDSN U (pgc_DSN (cfg_Postgres cfg)) of
        (masked, ssl) \<Rightarrow> ''postgres dsn: '' @ masked @ '' (sslmode='' @ ssl @ '')'')"

section \<open>The goroutines that ping\<close>

text \<open>
  Each server pings Postgres and Redis in the background, with the error of the \<open>n\<close>-th ping given;
  the pings end when one succeeds or the context is done (\<open>None\<close>: never). Only the API records that
  Postgres was there, in \<open>depsReady\<close>, which nothing reads.
\<close>

definition api_postgres_pings :: "(nat \<Rightarrow> bool) \<Rightarrow> (nat \<Rightarrow> err option) \<Rightarrow> int option" where
  "api_postgres_pings cancelled ping =
     (case wait_for cancelled (\<lambda>n. ping n = None) of
        None \<Rightarrow> None
      | Some (ready, naps) \<Rightarrow> Some (if ready then 1 else 0))"

definition websocket_postgres_pings :: "(nat \<Rightarrow> bool) \<Rightarrow> (nat \<Rightarrow> err option) \<Rightarrow> unit option" where
  "websocket_postgres_pings cancelled ping = map_option (\<lambda>_. ()) (wait_for cancelled (\<lambda>n. ping n = None))"

definition redis_pings :: "(nat \<Rightarrow> bool) \<Rightarrow> (nat \<Rightarrow> err option) \<Rightarrow> unit option" where
  "redis_pings cancelled ping = map_option (\<lambda>_. ()) (wait_for cancelled (\<lambda>n. ping n = None))"

section \<open>From the pool to the end\<close>

text \<open>
  What a process meets: the answers of \<open>ParseConfig\<close> and \<open>NewWithConfig\<close> for a DSN, what
  \<open>ListenAndServe\<close> returns if it does (\<open>None\<close>: it serves on), the answer of \<open>Shutdown\<close>, and whether a
  signal arrives.
\<close>

record surroundings =
  sg_ParseConfig :: "string \<Rightarrow> err option"
  sg_NewPool :: "string \<Rightarrow> err option"
  sg_ListenAndServe :: "http_server \<Rightarrow> err option option"
  sg_Shutdown :: "http_server \<Rightarrow> err option"
  sg_signal :: bool

definition ErrServerClosed :: err where "ErrServerClosed = ExtErr ''http: Server closed''"

datatype failure = ParseDSN err | ConnectPostgres err | ServerShutdown err | Serving err

text \<open>What the goroutine that serves sends to \<open>errChan\<close>.\<close>

definition serve_error :: "surroundings \<Rightarrow> http_server \<Rightarrow> err option" where
  "serve_error S server =
     (case sg_ListenAndServe S server of
        None \<Rightarrow> None
      | Some None \<Rightarrow> None
      | Some (Some e) \<Rightarrow> if e = ErrServerClosed then None else Some e)"

text \<open>
  The \<open>select\<close> at the end: a result for every case that can be taken. Without one the process serves
  on; with both ready either is taken.
\<close>

definition await_end :: "surroundings \<Rightarrow> http_server \<Rightarrow> failure option list" where
  "await_end S server =
     (if sg_signal S
      then [case sg_Shutdown S server of Some e \<Rightarrow> Some (ServerShutdown e) | None \<Rightarrow> None]
      else []) @
     (case serve_error S server of Some e \<Rightarrow> [Some (Serving e)] | None \<Rightarrow> [])"

text \<open>What is closed on the way out, in the order of the deferred calls.\<close>

datatype resource = HubContext | RedisClient | PostgresPool

definition run_server ::
  "surroundings \<Rightarrow> config \<Rightarrow> http_server \<Rightarrow> resource list \<Rightarrow> (failure option \<times> resource list) list" where
  "run_server S cfg server deferred =
     (let dsn = pgc_DSN (cfg_Postgres cfg) in
      case sg_ParseConfig S dsn of
        Some e \<Rightarrow> [(Some (ParseDSN e), [])]
      | None \<Rightarrow>
          (case sg_NewPool S dsn of
             Some e \<Rightarrow> [(Some (ConnectPostgres e), [])]
           | None \<Rightarrow> map (\<lambda>r. (r, deferred)) (await_end S server)))"

definition run_api_server :: "surroundings \<Rightarrow> config \<Rightarrow> (failure option \<times> resource list) list" where
  "run_api_server S cfg = run_server S cfg (api_http_server cfg) [RedisClient, PostgresPool]"

definition run_websocket_server :: "surroundings \<Rightarrow> config \<Rightarrow> (failure option \<times> resource list) list" where
  "run_websocket_server S cfg =
     run_server S cfg (websocket_http_server cfg) [HubContext, RedisClient, PostgresPool]"

section \<open>The exit\<close>

datatype exit_reason = Finished | BadConfig config_error | BadMode string | ServerFailed string failure

definition server_exit :: "string \<Rightarrow> failure option \<times> resource list \<Rightarrow> exit_reason" where
  "server_exit name r = (case fst r of None \<Rightarrow> Finished | Some f \<Rightarrow> ServerFailed name f)"

definition main_exits :: "string \<Rightarrow> 'r process \<Rightarrow> surroundings \<Rightarrow> exit_reason list" where
  "main_exits mode P S =
     (case main mode P of
        ConfigLoadError e \<Rightarrow> [BadConfig e]
      | UnknownMode m \<Rightarrow> [BadMode m]
      | ServeAPI cfg \<Rightarrow> map (server_exit ''api'') (run_api_server S cfg)
      | ServeWebsocket cfg \<Rightarrow> map (server_exit ''websocket'') (run_websocket_server S cfg))"

text \<open>\<open>log.Fatalf\<close> ends the process with status 1 and skips the deferred calls of \<open>main\<close>.\<close>

definition exit_status :: "exit_reason \<Rightarrow> int" where
  "exit_status r = (if r = Finished then 0 else 1)"

definition serving_at :: "string \<Rightarrow> config \<Rightarrow> http_server" where
  "serving_at mode cfg = (if mode = ''api'' then api_http_server cfg else websocket_http_server cfg)"

lemma main_exits_run:
  "mode \<in> {''api'', ''websocket''} \<Longrightarrow> Load P = Inr cfg \<Longrightarrow>
   \<exists>deferred. main_exits mode P S = map (server_exit mode) (run_server S cfg (serving_at mode cfg) deferred)"
proof (cases "mode = ''api''")
  case True
  moreover assume "Load P = Inr cfg"
  ultimately show ?thesis
    by (intro exI[of _ "[RedisClient, PostgresPool]"]) (simp add: main_exits_def main_def run_api_server_def serving_at_def)
next
  case False
  moreover assume "mode \<in> {''api'', ''websocket''}" "Load P = Inr cfg"
  ultimately show ?thesis
    by (intro exI[of _ "[HubContext, RedisClient, PostgresPool]"])
      (simp add: main_exits_def main_def run_websocket_server_def serving_at_def)
qed

lemma main_exits_refused:
  "mode \<notin> {''api'', ''websocket''} \<or> Load P = Inl e \<Longrightarrow> \<exists>r. main_exits mode P S = [r] \<and> exit_status r = 1"
  by (cases "Load P") (auto simp: main_exits_def main_def exit_status_def)


section \<open>The requests a server answers\<close>

text \<open>
  The API as its configuration makes it; the allowed origins come straight from the environment.
\<close>

definition configured_api ::
  "env \<Rightarrow> 'r process \<Rightarrow> config \<Rightarrow> 'l rate_lib \<Rightarrow> (world, 'l) api_server \<times> 'l rate_limiter" where
  "configured_api E P cfg lib =
     (startAPIServer E (jwc_AccessTTL (cfg_JWT cfg)) (jwc_RefreshTTL (cfg_JWT cfg))
        (Getenv P ''CORS_ALLOWED_ORIGINS'') lib, api_limiter cfg)"

text \<open>The two paths of the websocket server; \<open>ServeMux\<close> answers every other one with 404.\<close>

datatype ws_answer = WebsocketRequest ws_outcome | Healthy | NoSuchPath

definition serve_websocket_server ::
  "env \<Rightarrow> config \<Rightarrow> string \<Rightarrow> ws_request \<Rightarrow> (world, ws_answer) io" where
  "serve_websocket_server E cfg path r w =
     (let svc = api_services E (jwc_AccessTTL (cfg_JWT cfg)) (jwc_RefreshTTL (cfg_JWT cfg)) in
      if path = ''/ws''
      then (case serve_ws (svc_Auth svc) (svc_User svc) (svc_Room svc) r w of
              (answer, w1) \<Rightarrow> (WebsocketRequest answer, w1))
      else (if path = ''/health'' then Healthy else NoSuchPath, w))"

end
