(* ===== verification/Net_Helpers.thy ===== *)
theory Net_Helpers
  imports World
begin

text \<open>
  Two helpers for plain \<open>net/http\<close> servers: \<open>pkg/middleware/logger.go\<close> and \<open>pkg/response/response.go\<close>.
  Neither server of \<open>cmd/server/main.go\<close> uses them.
\<close>

record net_request =
  nr_Method :: string
  nr_Path :: string

text \<open>A writer of responses: the status once it was written, and the bytes of the body as a value.\<close>

record response_writer =
  rw_Status :: "int option"
  rw_Body :: "json list"

text \<open>\<open>WriteHeader\<close> has an effect the first time only.\<close>

definition WriteHeader :: "int \<Rightarrow> response_writer \<Rightarrow> response_writer" where
  "WriteHeader status rw = (if rw_Status rw = None then rw\<lparr>rw_Status := Some status\<rparr> else rw)"

definition Logger ::
  "(string \<Rightarrow> 'w \<Rightarrow> 'w) \<Rightarrow> (net_request \<Rightarrow> ('w, response_writer) io) \<Rightarrow> net_request \<Rightarrow>
   ('w, response_writer) io" where
  "Logger print next r w = next r (print (nr_Method r @ '' '' @ nr_Path r) w)"

definition response_JSON :: "int \<Rightarrow> json \<Rightarrow> response_writer \<Rightarrow> response_writer" where
  "response_JSON status payload rw = WriteHeader status rw"

text \<open>The payload is never written: two payloads give the same response, without a body.\<close>

lemma response_JSON_drops_payload:
  "response_JSON status p rw = response_JSON status q rw" "rw_Body (response_JSON status p rw) = rw_Body rw"
  by (simp_all add: response_JSON_def WriteHeader_def)

end
