(* ===== verification/Spec2Isabelle.thy ===== *)
theory Spec2Isabelle
  imports Node Http_Session Session_Ledger Client_Reader Servers Startup_Properties Net_Helpers
begin

text \<open>
  ChatterStack: a chat backend in Go. An HTTP API server and a websocket server (both started by
  \<open>cmd/server/main.go\<close>) share the domain services, Postgres and Redis: the API answers requests and
  publishes what happened to Redis channels; the websocket server relays the channels to the clients
  connected to it and sends the messages its clients write. This development models both servers from the
  environment variables to the SQL statements and proves what makes them correct.

  \<^bold>\<open>The world.\<close> \<open>World\<close> has the state everything shares: the tables of Postgres, the keys of Redis
  with their deadlines, what was published, the clock, and a count of external calls. What the
  program cannot know (times, random bytes, generated ids, the order of rows and of map iteration,
  whether a request to Redis or Postgres is carried out, lost, or carried out without an answer) is a
  function of that count, in an \<open>env\<close>; a theorem for every \<open>env\<close> is one for every pattern of failures.
  An operation is a function from the world to its result and the new world; a \<open>(T, error)\<close> pair is a
  sum, an \<open>error\<close> an option; a Go panic is a value, recovered by gin and by nobody in the hub.

  \<^bold>\<open>Theories and code.\<close>
  \<^item> \<open>Prelude\<close>, \<open>Go_Strings\<close>, \<open>Go_Url\<close>, \<open>Go_Duration\<close>: 64-bit \<open>int\<close>, and what is used of
    \<open>strings\<close>, \<open>strconv\<close>, \<open>net/url\<close> and \<open>time\<close>. A string is its bytes.
  \<^item> \<open>Models\<close>, \<open>Json\<close>: \<open>internal/domain/models\<close> and the JSON forms of its types.
  \<^item> \<open>Utils\<close>, \<open>Redis_Adapter\<close>: \<open>internal/utils\<close> and \<open>internal/repository/redis\<close>. What the
    services rely on of a cache is the locale \<open>token_cache_contract\<close> with its two extensions.
  \<^item> \<open>Database\<close>, \<open>User_Repo\<close>, \<open>Room_Repo\<close>, \<open>Message_Repo\<close>: \<open>internal/repository/postgres\<close> and
    the schema of \<open>db/migrations\<close>; one function on the tables per SQL statement, with its constraints.
  \<^item> \<open>Auth_Service\<close>, \<open>User_Service\<close>, \<open>Room_Service\<close>, \<open>Message_Service\<close>, \<open>Use_Cases\<close>:
    \<open>internal/domain/*/service_impl.go\<close> and \<open>internal/usecase\<close>.
  \<^item> \<open>Steps\<close>, \<open>Db_Steps\<close>, \<open>Auth_Steps\<close>, \<open>Http_Steps\<close>, \<open>Api_State\<close>: relations between the
    worlds before and after an operation; a locale per service shows once that each of its
    operations stays within a relation its calls stay within, and is interpreted on the wired services.
  \<^item> \<open>Auth_Sessions\<close>, \<open>Auth_Properties\<close>, \<open>Room_Properties\<close>, \<open>Message_Properties\<close>: what the services
    do over Postgres and Redis. \<open>Session_Ledger\<close> is what the auth service promises of sessions: a ledger of
    the tokens of each user, which the service refines.
  \<^item> \<open>Http_Helpers\<close>, \<open>Http_Handlers\<close>, \<open>Middleware\<close>, \<open>Router\<close>: \<open>internal/delivery/http\<close> and
    \<open>pkg/middleware\<close>: payloads, the mapping of errors to answers, the handlers, authentication, CORS, the
    limiter, the routes and a whole request (\<open>serve_api\<close>). \<open>Http_Properties\<close> wires the API as
    \<open>startAPIServer\<close> does; \<open>Http_Session\<close> follows a login over several requests.
  \<^item> \<open>Hub\<close>, \<open>Websocket\<close>: \<open>internal/delivery/websocket\<close>. The hub with the goroutines around it is a
    step relation (\<open>hub_step\<close>) with one rule per request it takes; \<open>Websocket\<close> has the frames of a client,
    the relay of announcements and the handler of \<open>/ws\<close>. \<open>Hub_Properties\<close>, \<open>Hub_Refinement\<close> and
    \<open>Websocket_Properties\<close> are what follows; \<open>feed\<close> is what the hub promises.
  \<^item> \<open>Client_Writer\<close>, \<open>Client_Reader\<close>: the two goroutines of a client. \<open>WritePump\<close> is a machine with one
    step per use of its channel, so that the hub can act in between; what it relies on of a connection is
    the locale \<open>ws_connection\<close>. The reader is a loop over what arrives, with times.
  \<^item> \<open>Delivery\<close>: the relay with its subscription (\<open>StartMessageRelay\<close>), and both servers together, from a
    request to the API to the queues of the hub.
  \<^item> \<open>Node\<close>: a websocket server at work (\<open>node_step\<close>): admissions, frames, announcements and the steps of
    the hub, interleaved with requests to the API and with clients of other servers.
  \<^item> \<open>Config\<close>, \<open>Startup\<close>, \<open>Startup_Properties\<close>, \<open>Servers\<close>: \<open>internal/config\<close> and the life of a process
    in \<open>cmd/server/main.go\<close>, up to its exit status; \<open>Net_Helpers\<close>: two helpers no server uses.

  \<^bold>\<open>What is shown.\<close> Sessions: one live access token per user, revoked by logout, replaced by login
  and refresh, in any history of requests (a refinement of a ledger of tokens); what a login answers
  opens the protected routes. Access: the protected routes of the API do nothing without a live token, a websocket
  client sends to its own rooms only and is sent events of its own rooms only, in which its user was a
  member when it connected, messages are changed by their senders, rooms deleted by their
  creators. Storage: the constraints of the schema hold after any history of requests, a room is
  created with all its members or not at all, pages and windows of messages are what they say. The hub:
  its indexes are exact, it refines the feed, and without slow consumers it never panics. From channel to
  wire: everything the API announces is heard by the relay, which keeps the order; the writer sends what
  is queued in order, without gaps, and a client that answers pings is never cut off. The API: its
  routes do not clash, its answers have the documented shape, its limiter treats every client as if it
  were alone. Start-up: what becomes of the DSN, the limits and the waiting loops, and when a process exits
  with which status. Where the code does not
  do what it seems to mean, a theorem shows the behaviour: a slow consumer brings the hub down, a
  validation in flight undoes a logout, an edit for the wrong room is applied.

  \<^bold>\<open>Loops.\<close> All loops of the code are structural recursion, except the loops that wait for a database,
  which need not end: they are a \<open>partial_function\<close>, and \<open>wait_for_ends\<close> says exactly when they return;
  \<open>ParseDuration\<close> and \<open>TrimSpace\<close> recurse on the length of the string. The endless loops of a server (the
  hub, the relay, the two goroutines of a client) are step relations, or functions of the finite list of
  events they have met so far. No fuel is used.

  \<^bold>\<open>Parameters.\<close> bcrypt, the token bucket of \<open>golang.org/x/time/rate\<close>, the parser and printer of whole
  URLs, the float product in \<open>ParseDuration\<close>, lower case outside ASCII, \<open>ILIKE\<close>, the reading of a text
  as a UUID, the text form of times, the match of Redis patterns, the subscriptions of go-redis, the
  connection of \<open>gorilla/websocket\<close>, and what \<open>pgxpool\<close> and \<open>net/http\<close> answer while a server starts and stops.

  \<^bold>\<open>Not modelled.\<close> The bytes of websocket frames and the upgrade of a connection, the timeouts of the
  HTTP servers beyond their values, and the text of log lines other than the DSN's; the redirects of gin
  and of \<open>ServeMux\<close> for a path that is not clean; a time whose year JSON cannot print; the mocks, which are
  generated.
\<close>

end
